theory Spec2Isabelle
  imports Main "HOL-Library.Sublist"
begin

section \<open>Python values\<close>

text \<open>
  The three scripts of the repository (\<^verbatim>\<open>fetch_repo_details.py\<close>,
  \<^verbatim>\<open>fetch_repo_details_inventory.py\<close>, \<^verbatim>\<open>fetch_repo_list.py\<close>) handle decoded JSON
  bodies. A decoded body is a Python value built from \<^verbatim>\<open>None\<close>, booleans, integers,
  strings, lists and dictionaries; a dictionary is kept as an association list in
  insertion order (its keys are distinct, as in a Python \<^verbatim>\<open>dict\<close>). JSON numbers with a
  fractional part do not occur in the fields the scripts read and are not modelled.
  Python's \<^verbatim>\<open>None\<close> is \<open>JNull\<close>: the value \<^verbatim>\<open>github_api_get\<close> returns on failure and the
  decoding of the JSON text \<^verbatim>\<open>null\<close> are the same Python object.
\<close>

datatype json =
    JNull
  | JBool bool
  | JInt int
  | JStr string
  | JList "json list"
  | JObj "(string \<times> json) list"

text \<open>The exceptions the scripts can meet, each with the text \<^verbatim>\<open>str(e)\<close> gives.\<close>

datatype exn =
    ConnectionError string
  | ChunkedEncodingError string
  | HTTPError string
  | JSONDecodeError string
  | RequestException string
  | KeyError string
  | TypeError string
  | ValueError string
  | IndexError string
  | AttributeError string
  | OtherException string

text \<open>A string between single quotes, as \<^verbatim>\<open>repr\<close> prints it in a message.\<close>

definition quoted :: "string \<Rightarrow> string" where
  "quoted s = [CHR 0x27] @ s @ [CHR 0x27]"

fun exn_str :: "exn \<Rightarrow> string" where
  "exn_str (ConnectionError m) = m"
| "exn_str (ChunkedEncodingError m) = m"
| "exn_str (HTTPError m) = m"
| "exn_str (JSONDecodeError m) = m"
| "exn_str (RequestException m) = m"
| "exn_str (KeyError k) = quoted k"
| "exn_str (TypeError m) = m"
| "exn_str (ValueError m) = m"
| "exn_str (IndexError m) = m"
| "exn_str (AttributeError m) = m"
| "exn_str (OtherException m) = m"

text \<open>\<^verbatim>\<open>except (ConnectionError, ChunkedEncodingError)\<close>\<close>

fun is_connection_error :: "exn \<Rightarrow> bool" where
  "is_connection_error (ConnectionError m) = True"
| "is_connection_error (ChunkedEncodingError m) = True"
| "is_connection_error e = False"

text \<open>
  \<^verbatim>\<open>except requests.RequestException\<close>: the classes of \<^verbatim>\<open>requests.exceptions\<close>, among them
  \<^verbatim>\<open>HTTPError\<close> (raised by \<^verbatim>\<open>raise_for_status\<close>) and \<^verbatim>\<open>JSONDecodeError\<close> (raised by
  \<^verbatim>\<open>response.json()\<close>).
\<close>

fun is_request_exception :: "exn \<Rightarrow> bool" where
  "is_request_exception (ConnectionError m) = True"
| "is_request_exception (ChunkedEncodingError m) = True"
| "is_request_exception (HTTPError m) = True"
| "is_request_exception (JSONDecodeError m) = True"
| "is_request_exception (RequestException m) = True"
| "is_request_exception e = False"

fun type_name :: "json \<Rightarrow> string" where
  "type_name JNull = ''NoneType''"
| "type_name (JBool b) = ''bool''"
| "type_name (JInt n) = ''int''"
| "type_name (JStr s) = ''str''"
| "type_name (JList xs) = ''list''"
| "type_name (JObj kvs) = ''dict''"

text \<open>\<^verbatim>\<open>if data:\<close> and \<^verbatim>\<open>if not data:\<close>\<close>

fun truthy :: "json \<Rightarrow> bool" where
  "truthy JNull = False"
| "truthy (JBool b) = b"
| "truthy (JInt n) = (n \<noteq> 0)"
| "truthy (JStr s) = (s \<noteq> [])"
| "truthy (JList xs) = (xs \<noteq> [])"
| "truthy (JObj kvs) = (kvs \<noteq> [])"

text \<open>\<^verbatim>\<open>len(x)\<close>\<close>

fun py_len :: "json \<Rightarrow> exn + nat" where
  "py_len (JStr s) = Inr (length s)"
| "py_len (JList xs) = Inr (length xs)"
| "py_len (JObj kvs) = Inr (length kvs)"
| "py_len v = Inl (TypeError (''object of type '' @ quoted (type_name v) @ '' has no len()''))"

text \<open>
  Iteration, as in \<^verbatim>\<open>for x in v\<close>, \<^verbatim>\<open>xs.extend(v)\<close> and a generator over \<^verbatim>\<open>v\<close>: a list
  gives its items, a dictionary its keys, a string its characters.
\<close>

fun py_iter :: "json \<Rightarrow> exn + json list" where
  "py_iter (JStr s) = Inr (map (\<lambda>c. JStr [c]) s)"
| "py_iter (JList xs) = Inr xs"
| "py_iter (JObj kvs) = Inr (map (\<lambda>kv. JStr (fst kv)) kvs)"
| "py_iter v = Inl (TypeError (quoted (type_name v) @ '' object is not iterable''))"

text \<open>\<^verbatim>\<open>v[key]\<close> with a string key\<close>

fun py_getitem :: "json \<Rightarrow> string \<Rightarrow> exn + json" where
  "py_getitem (JObj kvs) k = (case map_of kvs k of None \<Rightarrow> Inl (KeyError k) | Some v \<Rightarrow> Inr v)"
| "py_getitem (JList xs) k = Inl (TypeError ''list indices must be integers or slices, not str'')"
| "py_getitem (JStr s) k = Inl (TypeError (''string indices must be integers, not '' @ quoted ''str''))"
| "py_getitem v k = Inl (TypeError (quoted (type_name v) @ '' object is not subscriptable''))"

text \<open>\<^verbatim>\<open>v[0]\<close>\<close>

fun py_index0 :: "json \<Rightarrow> exn + json" where
  "py_index0 (JList []) = Inl (IndexError ''list index out of range'')"
| "py_index0 (JList (x # xs)) = Inr x"
| "py_index0 (JStr []) = Inl (IndexError ''string index out of range'')"
| "py_index0 (JStr (c # cs)) = Inr (JStr [c])"
| "py_index0 (JObj kvs) = Inl (KeyError ''0'')"
| "py_index0 v = Inl (TypeError (quoted (type_name v) @ '' object is not subscriptable''))"

text \<open>\<^verbatim>\<open>v.get(key, default)\<close>: a method of dictionaries only.\<close>

fun py_get :: "json \<Rightarrow> string \<Rightarrow> json \<Rightarrow> exn + json" where
  "py_get (JObj kvs) k d = (case map_of kvs k of None \<Rightarrow> Inr d | Some v \<Rightarrow> Inr v)"
| "py_get v k d = Inl (AttributeError (quoted (type_name v) @ '' object has no attribute '' @ quoted ''get''))"

text \<open>
  \<^verbatim>\<open>key in v\<close> with a string key: a key of a dictionary, an item of a list, a substring
  of a string.
\<close>

fun py_contains :: "string \<Rightarrow> json \<Rightarrow> exn + bool" where
  "py_contains k (JObj kvs) = Inr (k \<in> set (map fst kvs))"
| "py_contains k (JList xs) = Inr (JStr k \<in> set xs)"
| "py_contains k (JStr s) = Inr (sublist k s)"
| "py_contains k v = Inl (TypeError (''argument of type '' @ quoted (type_name v) @ '' is not iterable''))"

subsection \<open>Strings and integers\<close>

text \<open>\<^verbatim>\<open>str(n)\<close> of a Python integer, as an f-string formats it.\<close>

fun str_nat :: "nat \<Rightarrow> string" where
  "str_nat n = (if n < 10 then [''0123456789'' ! n] else str_nat (n div 10) @ [''0123456789'' ! (n mod 10)])"

declare str_nat.simps [simp del]

definition str_int :: "int \<Rightarrow> string" where
  "str_int i = (if i < 0 then ''-'' @ str_nat (nat (- i)) else str_nat (nat i))"

text \<open>
  \<^verbatim>\<open>int(s)\<close> of a string: an optional sign and decimal digits; anything else raises
  \<^verbatim>\<open>ValueError\<close>. (Python also accepts surrounding blanks and underscores between digits,
  which HTTP header values of the API do not carry.)
\<close>

definition digit_val :: "char \<Rightarrow> nat option" where
  "digit_val c = (let n = (of_char c :: nat) in if 48 \<le> n \<and> n \<le> 57 then Some (n - 48) else None)"

fun parse_digits :: "nat \<Rightarrow> string \<Rightarrow> nat option" where
  "parse_digits acc [] = Some acc"
| "parse_digits acc (c # cs) =
     (case digit_val c of None \<Rightarrow> None | Some d \<Rightarrow> parse_digits (10 * acc + d) cs)"

definition invalid_literal :: "string \<Rightarrow> exn" where
  "invalid_literal s = ValueError (''invalid literal for int() with base 10: '' @ quoted s)"

fun py_int :: "string \<Rightarrow> exn + int" where
  "py_int [] = Inl (invalid_literal [])"
| "py_int (c # cs) =
     (if c = CHR ''-'' \<or> c = CHR ''+'' then
        (if cs = [] then Inl (invalid_literal (c # cs))
         else case parse_digits 0 cs of
                None \<Rightarrow> Inl (invalid_literal (c # cs))
              | Some n \<Rightarrow> Inr (if c = CHR ''-'' then - int n else int n))
      else case parse_digits 0 (c # cs) of
             None \<Rightarrow> Inl (invalid_literal (c # cs))
           | Some n \<Rightarrow> Inr (int n))"

text \<open>\<^verbatim>\<open>s.lower()\<close> on ASCII letters.\<close>

definition lower_char :: "char \<Rightarrow> char" where
  "lower_char c =
     (case map_of (zip ''ABCDEFGHIJKLMNOPQRSTUVWXYZ'' ''abcdefghijklmnopqrstuvwxyz'') c of
        None \<Rightarrow> c
      | Some l \<Rightarrow> l)"

definition lower :: "string \<Rightarrow> string" where
  "lower s = map lower_char s"

text \<open>\<^verbatim>\<open>str(x)\<close> of an optional string: \<^verbatim>\<open>None\<close> prints as \<^verbatim>\<open>None\<close>.\<close>

fun str_opt :: "string option \<Rightarrow> string" where
  "str_opt None = ''None''"
| "str_opt (Some s) = s"

text \<open>
  \<^verbatim>\<open>str(v)\<close> of a decoded value, as an f-string formats it: a string prints as itself,
  a value inside a list or a dictionary prints as \<^verbatim>\<open>repr\<close> does. (The escapes \<^verbatim>\<open>repr\<close>
  adds to a string that holds a quote or a backslash are not modelled.)
\<close>

fun join :: "string \<Rightarrow> string list \<Rightarrow> string" where
  "join sep [] = []"
| "join sep [x] = x"
| "join sep (x # y # ys) = x @ sep @ join sep (y # ys)"

fun py_repr :: "json \<Rightarrow> string"
  and py_repr_items :: "json list \<Rightarrow> string list"
  and py_repr_pairs :: "(string \<times> json) list \<Rightarrow> string list" where
  "py_repr JNull = ''None''"
| "py_repr (JBool b) = (if b then ''True'' else ''False'')"
| "py_repr (JInt n) = str_int n"
| "py_repr (JStr s) = quoted s"
| "py_repr (JList xs) = ''['' @ join '', '' (py_repr_items xs) @ '']''"
| "py_repr (JObj kvs) = ''{'' @ join '', '' (py_repr_pairs kvs) @ ''}''"
| "py_repr_items [] = []"
| "py_repr_items (x # xs) = py_repr x # py_repr_items xs"
| "py_repr_pairs [] = []"
| "py_repr_pairs ((k, v) # kvs) = (quoted k @ '': '' @ py_repr v) # py_repr_pairs kvs"

fun py_str :: "json \<Rightarrow> string" where
  "py_str (JStr s) = s"
| "py_str v = py_repr v"

section \<open>The world outside the scripts\<close>

text \<open>
  A request as \<^verbatim>\<open>requests.get(url, headers=..., params=...)\<close> sends it. \<^verbatim>\<open>params=None\<close> is
  \<open>None\<close>; a parameter value is an integer literal, a string literal, or a value taken
  from a decoded body.
\<close>

datatype pval = PInt int | PStr string | PVal json

record request =
  req_url :: string
  req_params :: "(string \<times> pval) list option"
  req_headers :: "(string \<times> string) list"

text \<open>
  What the scripts read of a \<^verbatim>\<open>requests.Response\<close>: \<^verbatim>\<open>status_code\<close>, \<^verbatim>\<open>reason\<close> and \<^verbatim>\<open>url\<close>
  (both printed by \<^verbatim>\<open>raise_for_status\<close>), \<^verbatim>\<open>text\<close>, \<^verbatim>\<open>headers\<close>, and the result of
  \<^verbatim>\<open>json()\<close>, which is the decoded body or the exception the decoder raises.
\<close>

record response =
  status_code :: int
  reason :: string
  resp_url :: string
  resp_text :: string
  resp_headers :: "(string \<times> string) list"
  resp_json :: "exn + json"

text \<open>
  \<^verbatim>\<open>response.headers\<close> is a case-insensitive dictionary: \<^verbatim>\<open>headers.get(k)\<close>, \<^verbatim>\<open>headers[k]\<close> and
  \<^verbatim>\<open>k in headers\<close> compare the lower-case forms of the keys. \<open>resp_headers\<close> lists its items.
\<close>

definition header_get :: "(string \<times> string) list \<Rightarrow> string \<Rightarrow> string option" where
  "header_get hs k = map_of (map (\<lambda>(a, b). (lower a, b)) hs) (lower k)"

definition header_in :: "string \<Rightarrow> (string \<times> string) list \<Rightarrow> bool" where
  "header_in k hs = (header_get hs k \<noteq> None)"

text \<open>A call of \<^verbatim>\<open>requests.get\<close> returns a response or raises.\<close>

datatype outcome = Responded response | Raised exn

text \<open>A cell of the report: a value taken from the API, or \<^verbatim>\<open>round(n / 1024, 2)\<close> of an
  integer \<open>n\<close> (kept symbolic: the quotient is a float).\<close>

datatype cell = Cell json | SizeMB int

type_synonym row = "(string \<times> cell) list"

text \<open>
  The state of the world a run acts on.
  \<^item> \<open>net\<close>: the answers of the network to the coming calls of \<^verbatim>\<open>requests.get\<close>, one per
    call, each a function of the request it will meet. A run that needs more answers
    than \<open>net\<close> holds has no result in the model (\<open>None\<close>): the list is the horizon up to
    which the run is followed.
  \<^item> \<open>clock\<close>: \<^verbatim>\<open>int(time.time())\<close>; only \<^verbatim>\<open>time.sleep\<close> advances it.
  \<^item> \<open>slept\<close>: the lengths of the sleeps so far, in order.
  \<^item> \<open>error_log\<close>: the lines of the error log, each the time of writing and the message.
  \<^item> \<open>app_log\<close>: the records of the \<^verbatim>\<open>logging\<close> module (level and message).
  \<^item> \<open>stdout\<close>: the printed lines.
  \<^item> \<open>sent\<close>: the requests sent so far.
  \<^item> \<open>report\<close>: the rows of the CSV file written after the header; \<open>None\<close> until the file
    is opened.
\<close>

record world =
  net :: "(request \<Rightarrow> outcome) list"
  clock :: int
  slept :: "int list"
  error_log :: "(int \<times> string) list"
  app_log :: "(string \<times> string) list"
  stdout :: "string list"
  sent :: "request list"
  report :: "row list option"

definition requests_get :: "request \<Rightarrow> world \<Rightarrow> (outcome \<times> world) option" where
  "requests_get req w =
     (case net w of
        [] \<Rightarrow> None
      | f # rest \<Rightarrow> Some (f req, w\<lparr>net := rest, sent := sent w @ [req]\<rparr>))"

text \<open>The world after the network has answered the request \<open>req\<close>.\<close>

definition answered :: "request \<Rightarrow> world \<Rightarrow> world" where
  "answered req w = w\<lparr>net := tl (net w), sent := sent w @ [req]\<rparr>"

definition print_line :: "string \<Rightarrow> world \<Rightarrow> world" where
  "print_line s w = w\<lparr>stdout := stdout w @ [s]\<rparr>"

text \<open>\<^verbatim>\<open>time.sleep(secs)\<close> raises \<^verbatim>\<open>ValueError\<close> on a negative length.\<close>

definition advance :: "int \<Rightarrow> world \<Rightarrow> world" where
  "advance secs w = w\<lparr>clock := clock w + secs, slept := slept w @ [secs]\<rparr>"

definition time_sleep :: "int \<Rightarrow> world \<Rightarrow> exn + world" where
  "time_sleep secs w =
     (if secs < 0 then Inl (ValueError ''sleep length must be non-negative'')
      else Inr (advance secs w))"

text \<open>The result of a loop body: \<^verbatim>\<open>return v\<close>, or \<^verbatim>\<open>continue\<close>.\<close>

datatype 'a step = Return 'a | Continue

subsection \<open>Sequencing\<close>

text \<open>
  A Python statement sequence acts on the world and either yields a value or raises:
  \<open>py_bind m f\<close> runs \<open>m\<close>, then \<open>f\<close> on its value; an exception of \<open>m\<close>, or a run of \<open>m\<close>
  that goes beyond the horizon of \<open>net\<close>, ends the sequence.
\<close>

type_synonym 'a py = "world \<Rightarrow> ((exn + 'a) \<times> world) option"

definition py_bind :: "'a py \<Rightarrow> ('a \<Rightarrow> 'b py) \<Rightarrow> 'b py" where
  "py_bind m f w =
     (case m w of
        None \<Rightarrow> None
      | Some (Inl e, w1) \<Rightarrow> Some (Inl e, w1)
      | Some (Inr x, w1) \<Rightarrow> f x w1)"

definition py_return :: "'a \<Rightarrow> 'a py" where
  "py_return x w = Some (Inr x, w)"

text \<open>An expression that may raise and leaves the world as it is.\<close>

definition py_lift :: "exn + 'a \<Rightarrow> 'a py" where
  "py_lift r w = Some (r, w)"

text \<open>A call that cannot raise.\<close>

definition py_total :: "(world \<Rightarrow> ('a \<times> world) option) \<Rightarrow> 'a py" where
  "py_total m w = (case m w of None \<Rightarrow> None | Some (x, w1) \<Rightarrow> Some (Inr x, w1))"

text \<open>A statement that changes the world and yields nothing.\<close>

definition py_do :: "(world \<Rightarrow> world) \<Rightarrow> unit py" where
  "py_do f w = Some (Inr (), f w)"

text \<open>Sequencing of expressions that may raise and do not touch the world.\<close>

definition bind_exn :: "exn + 'a \<Rightarrow> ('a \<Rightarrow> exn + 'b) \<Rightarrow> exn + 'b" where
  "bind_exn r f = (case r of Inl e \<Rightarrow> Inl e | Inr x \<Rightarrow> f x)"

text \<open>\<^verbatim>\<open>len(x) if x else 0\<close>\<close>

definition len_if :: "json \<Rightarrow> exn + int" where
  "len_if x = (if truthy x then bind_exn (py_len x) (\<lambda>n. Inr (int n)) else Inr 0)"

section \<open>fetch\_repo\_details.py\<close>

text \<open>
  The module constant \<^verbatim>\<open>HEADERS\<close> is built at import from \<^verbatim>\<open>GITHUB_TOKEN\<close>; the functions
  below take it as their first argument \<open>hdrs\<close>.
\<close>

definition HEADERS :: "string option \<Rightarrow> (string \<times> string) list" where
  "HEADERS GITHUB_TOKEN =
     [(''Authorization'', ''Bearer '' @ str_opt GITHUB_TOKEN),
      (''Accept'', ''application/vnd.github+json'')]"

definition log_error :: "string \<Rightarrow> world \<Rightarrow> world" where
  "log_error msg w = w\<lparr>error_log := error_log w @ [(clock w, msg)]\<rparr>"

text \<open>What each operation changes, field by field.\<close>

lemma answered_fields [simp]:
  "net (answered req w) = tl (net w)"
  "clock (answered req w) = clock w"
  "slept (answered req w) = slept w"
  "error_log (answered req w) = error_log w"
  "app_log (answered req w) = app_log w"
  "stdout (answered req w) = stdout w"
  "sent (answered req w) = sent w @ [req]"
  "report (answered req w) = report w"
  by (simp_all add: answered_def)

lemma log_error_fields [simp]:
  "net (log_error m w) = net w"
  "clock (log_error m w) = clock w"
  "slept (log_error m w) = slept w"
  "error_log (log_error m w) = error_log w @ [(clock w, m)]"
  "app_log (log_error m w) = app_log w"
  "stdout (log_error m w) = stdout w"
  "sent (log_error m w) = sent w"
  "report (log_error m w) = report w"
  by (simp_all add: log_error_def)

lemma print_line_fields [simp]:
  "net (print_line m w) = net w"
  "clock (print_line m w) = clock w"
  "slept (print_line m w) = slept w"
  "error_log (print_line m w) = error_log w"
  "app_log (print_line m w) = app_log w"
  "stdout (print_line m w) = stdout w @ [m]"
  "sent (print_line m w) = sent w"
  "report (print_line m w) = report w"
  by (simp_all add: print_line_def)

lemma advance_fields [simp]:
  "net (advance s w) = net w"
  "clock (advance s w) = clock w + s"
  "slept (advance s w) = slept w @ [s]"
  "error_log (advance s w) = error_log w"
  "app_log (advance s w) = app_log w"
  "stdout (advance s w) = stdout w"
  "sent (advance s w) = sent w"
  "report (advance s w) = report w"
  by (simp_all add: advance_def)

lemma requests_get_Cons:
  "net w = f # rest \<Longrightarrow> requests_get req w = Some (f req, answered req w)"
  by (simp add: requests_get_def answered_def)

lemma requests_get_Nil:
  "net w = [] \<Longrightarrow> requests_get req w = None"
  by (simp add: requests_get_def)

lemma requests_get_Some:
  "requests_get req w = Some (x, w1) \<Longrightarrow>
     w1 = answered req w \<and> net w \<noteq> [] \<and> x = hd (net w) req"
  by (auto simp: requests_get_def answered_def split: list.splits)

text \<open>\<^verbatim>\<open>int(response.headers.get("X-RateLimit-Reset", time.time() + 60))\<close>\<close>

definition reset_time_of :: "response \<Rightarrow> int \<Rightarrow> exn + int" where
  "reset_time_of r now =
     (case header_get (resp_headers r) ''X-RateLimit-Reset'' of
        None \<Rightarrow> Inr (now + 60)
      | Some s \<Rightarrow> py_int s)"

text \<open>\<^verbatim>\<open>response.status_code == 403 and "rate limit" in response.text.lower()\<close>\<close>

definition rate_limited :: "response \<Rightarrow> bool" where
  "rate_limited r = (status_code r = 403 \<and> sublist ''rate limit'' (lower (resp_text r)))"

text \<open>
  The body of the \<^verbatim>\<open>try\<close> in \<^verbatim>\<open>github_api_get\<close>: one request, then \<^verbatim>\<open>continue\<close> after a
  rate-limit sleep, \<^verbatim>\<open>return None\<close> after a logged failure, \<^verbatim>\<open>return response.json()\<close>,
  or an exception for the handlers.
\<close>

definition github_api_get_try ::
  "(string \<times> string) list \<Rightarrow> string \<Rightarrow> (string \<times> pval) list option \<Rightarrow> world
     \<Rightarrow> ((exn + json step) \<times> world) option" where
  "github_api_get_try hdrs url params w =
     (case requests_get \<lparr>req_url = url, req_params = params, req_headers = hdrs\<rparr> w of
        None \<Rightarrow> None
      | Some (Raised e, w1) \<Rightarrow> Some (Inl e, w1)
      | Some (Responded r, w1) \<Rightarrow>
          if rate_limited r then
            (case reset_time_of r (clock w1) of
               Inl e \<Rightarrow> Some (Inl e, w1)
             | Inr reset_time \<Rightarrow>
                 let sleep_time = max (reset_time - clock w1) 1;
                     w2 = print_line (''Rate limit hit. Sleeping for '' @ str_int sleep_time
                                        @ '' seconds...'') w1
                 in (case time_sleep sleep_time w2 of
                       Inl e \<Rightarrow> Some (Inl e, w2)
                     | Inr w3 \<Rightarrow> Some (Inr Continue, w3)))
          else if status_code r \<noteq> 200 \<and> status_code r \<noteq> 201 then
            Some (Inr (Return JNull),
                  log_error (''Failed GET '' @ url @ '': '' @ str_int (status_code r) @ '' ''
                               @ resp_text r) w1)
          else
            (case resp_json r of
               Inl e \<Rightarrow> Some (Inl e, w1)
             | Inr v \<Rightarrow> Some (Inr (Return v), w1)))"

lemma github_api_get_try_net:
  "github_api_get_try hdrs url params w = Some (x, w1) \<Longrightarrow> length (net w1) < length (net w)"
  by (auto simp: github_api_get_try_def time_sleep_def Let_def
      dest!: requests_get_Some
      split: option.splits prod.splits outcome.splits sum.splits if_splits)

text \<open>
  The \<^verbatim>\<open>while retries < max_retries\<close> loop with its handlers. In the handler of a
  connection error \<^verbatim>\<open>time.sleep(5 * retries)\<close> has a positive argument and cannot raise.
\<close>

function github_api_get_loop ::
  "(string \<times> string) list \<Rightarrow> string \<Rightarrow> (string \<times> pval) list option \<Rightarrow> int \<Rightarrow> nat \<Rightarrow> world
     \<Rightarrow> (json \<times> world) option" where
  "github_api_get_loop hdrs url params max_retries retries w =
     (if int retries < max_retries then
        (case github_api_get_try hdrs url params w of
           None \<Rightarrow> None
         | Some (Inr (Return v), w1) \<Rightarrow> Some (v, w1)
         | Some (Inr Continue, w1) \<Rightarrow> github_api_get_loop hdrs url params max_retries retries w1
         | Some (Inl e, w1) \<Rightarrow>
             if is_connection_error e then
               let retries' = retries + 1;
                   w2 = log_error (''Connection error on '' @ url @ '': '' @ exn_str e
                          @ ''. Retry '' @ str_int (int retries') @ ''/'' @ str_int max_retries) w1;
                   w3 = advance (5 * int retries') w2
               in github_api_get_loop hdrs url params max_retries retries' w3
             else
               Some (JNull, log_error (''Unexpected error on '' @ url @ '': '' @ exn_str e) w1))
      else Some (JNull, log_error (''Max retries exceeded for '' @ url) w))"
  by pat_completeness auto
termination
  by (relation "measure (\<lambda>(hdrs, url, params, max_retries, retries, w). length (net w))")
     (auto dest: github_api_get_try_net)

declare github_api_get_loop.simps [simp del]

definition github_api_get ::
  "(string \<times> string) list \<Rightarrow> string \<Rightarrow> (string \<times> pval) list option \<Rightarrow> int \<Rightarrow> world
     \<Rightarrow> (json \<times> world) option" where
  "github_api_get hdrs url params max_retries w =
     github_api_get_loop hdrs url params max_retries 0 w"

text \<open>
  Each request takes one answer from \<open>net\<close>, and a value other than \<^verbatim>\<open>None\<close> is returned
  only after a request: the loops below that call \<^verbatim>\<open>github_api_get\<close> until it returns
  something falsy therefore end.
\<close>

lemma github_api_get_loop_net:
  "github_api_get_loop hdrs url params max_retries retries w = Some (v, w1) \<Longrightarrow>
     length (net w1) \<le> length (net w) \<and> (v \<noteq> JNull \<longrightarrow> length (net w1) < length (net w))"
proof (induction hdrs url params max_retries retries w rule: github_api_get_loop.induct)
  case (1 hdrs url params max_retries retries w)
  note simps = github_api_get_loop.simps [of hdrs url params max_retries retries w]
  show ?case
  proof (cases "int retries < max_retries")
    case False
    with "1.prems" show ?thesis
      by (auto simp: simps)
  next
    case True
    then obtain x w0 where t: "github_api_get_try hdrs url params w = Some (x, w0)"
      using "1.prems" by (cases "github_api_get_try hdrs url params w") (auto simp: simps)
    then have less: "length (net w0) < length (net w)"
      by (rule github_api_get_try_net)
    show ?thesis
    proof (cases x)
      case (Inl e)
      show ?thesis
      proof (cases "is_connection_error e")
        case c: True
        from "1.prems" True t Inl c have "length (net w1) \<le> length (net w0)"
          using "1.IH"(1) [OF True t refl Inl c refl refl refl]
          by (simp add: simps Let_def)
        with less show ?thesis by simp
      next
        case False
        with "1.prems" True t Inl less show ?thesis
          by (auto simp: simps)
      qed
    next
      case (Inr st)
      show ?thesis
      proof (cases st)
        case (Return v')
        with "1.prems" True t Inr less show ?thesis
          by (auto simp: simps)
      next
        case Continue
        have "length (net w1) \<le> length (net w0)"
          using "1.IH"(2) [OF True t refl Inr Continue] "1.prems" True t Inr Continue
          by (simp add: simps)
        with less show ?thesis by simp
      qed
    qed
  qed
qed

lemma github_api_get_net:
  "github_api_get hdrs url params max_retries w = Some (v, w1) \<Longrightarrow>
     length (net w1) \<le> length (net w)"
  by (simp add: github_api_get_def github_api_get_loop_net)

lemma github_api_get_net_truthy:
  "github_api_get hdrs url params max_retries w = Some (v, w1) \<Longrightarrow> truthy v \<Longrightarrow>
     length (net w1) < length (net w)"
  using github_api_get_loop_net [of hdrs url params max_retries 0 w v w1]
  by (auto simp: github_api_get_def)

text \<open>
  The URLs the f-strings build: \<^verbatim>\<open>f"https://api.github.com/orgs/{org}/repos"\<close> and
  \<^verbatim>\<open>f"https://api.github.com/repos/{org}/{repo}<path>"\<close>.
\<close>

definition org_repos_url :: "string \<Rightarrow> string" where
  "org_repos_url org = ''https://api.github.com/orgs/'' @ org @ ''/repos''"

definition repo_url :: "string \<Rightarrow> json \<Rightarrow> string \<Rightarrow> string" where
  "repo_url org repo path = ''https://api.github.com/repos/'' @ org @ ''/'' @ py_str repo @ path"

text \<open>\<^verbatim>\<open>get_repos\<close>: the \<^verbatim>\<open>while True\<close> loop, with \<open>page\<close> and \<open>repos\<close> as they stand.\<close>

function get_repos_loop ::
  "(string \<times> string) list \<Rightarrow> string \<Rightarrow> int \<Rightarrow> json list \<Rightarrow> json list py" where
  "get_repos_loop hdrs org page repos w =
     (let per_page = 100;
          url = org_repos_url org;
          params = Some [(''per_page'', PInt per_page), (''page'', PInt page), (''type'', PStr ''all'')]
      in case github_api_get hdrs url params 5 w of
           None \<Rightarrow> None
         | Some (data, w1) \<Rightarrow>
             if \<not> truthy data then Some (Inr repos, w1)
             else
               (case py_iter data of
                  Inl e \<Rightarrow> Some (Inl e, w1)
                | Inr items \<Rightarrow>
                    (case py_len data of
                       Inl e \<Rightarrow> Some (Inl e, w1)
                     | Inr n \<Rightarrow>
                         if int n < per_page then Some (Inr (repos @ items), w1)
                         else get_repos_loop hdrs org (page + 1) (repos @ items) w1)))"
  by pat_completeness auto
termination
  by (relation "measure (\<lambda>(hdrs, org, page, repos, w). length (net w))")
     (auto dest: github_api_get_net_truthy)

declare get_repos_loop.simps [simp del]

definition get_repos :: "(string \<times> string) list \<Rightarrow> string \<Rightarrow> json list py" where
  "get_repos hdrs org = get_repos_loop hdrs org 1 []"

subsection \<open>Pull requests\<close>

text \<open>
  The \<^verbatim>\<open>for pr in prs\<close> loop of \<^verbatim>\<open>get_pr_counts\<close>: one request per closed pull
  request; \<open>repo\<close> is the value of \<^verbatim>\<open>repo["name"]\<close>.
\<close>

fun get_pr_counts_for ::
  "(string \<times> string) list \<Rightarrow> string \<Rightarrow> json \<Rightarrow> json list \<Rightarrow> int \<Rightarrow> int py" where
  "get_pr_counts_for hdrs org repo [] merged_prs w = Some (Inr merged_prs, w)"
| "get_pr_counts_for hdrs org repo (pr # prs) merged_prs w =
     (case py_getitem pr ''number'' of
        Inl e \<Rightarrow> Some (Inl e, w)
      | Inr number \<Rightarrow>
          (let pr_url = repo_url org repo (''/pulls/'' @ py_str number)
           in (case github_api_get hdrs pr_url None 5 w of
                 None \<Rightarrow> None
               | Some (pr_data, w1) \<Rightarrow>
                   if \<not> truthy pr_data then get_pr_counts_for hdrs org repo prs merged_prs w1
                   else
                     (case py_get pr_data ''merged_at'' JNull of
                        Inl e \<Rightarrow> Some (Inl e, w1)
                      | Inr merged_at \<Rightarrow>
                          if truthy merged_at
                          then get_pr_counts_for hdrs org repo prs (merged_prs + 1) w1
                          else get_pr_counts_for hdrs org repo prs merged_prs w1))))"

lemma get_pr_counts_for_net:
  "get_pr_counts_for hdrs org repo prs merged_prs w = Some (x, w1) \<Longrightarrow>
     length (net w1) \<le> length (net w)"
proof (induction prs arbitrary: merged_prs w)
  case Nil
  then show ?case by simp
next
  case (Cons pr prs)
  from Cons.prems show ?case
    by (auto simp: Let_def split: sum.splits option.splits if_splits
          dest!: Cons.IH github_api_get_net)
qed

text \<open>The \<^verbatim>\<open>while True\<close> loop of \<^verbatim>\<open>get_pr_counts\<close> over the pages of closed pull requests.\<close>

function get_pr_counts_loop ::
  "(string \<times> string) list \<Rightarrow> string \<Rightarrow> json \<Rightarrow> int \<Rightarrow> int \<Rightarrow> int py" where
  "get_pr_counts_loop hdrs org repo page merged_prs w =
     (let per_page = 100;
          url = repo_url org repo ''/pulls''
      in case github_api_get hdrs url
                (Some [(''state'', PStr ''closed''), (''per_page'', PInt per_page), (''page'', PInt page)])
                5 w of
           None \<Rightarrow> None
         | Some (prs, w1) \<Rightarrow>
             if \<not> truthy prs then Some (Inr merged_prs, w1)
             else
               (case py_iter prs of
                  Inl e \<Rightarrow> Some (Inl e, w1)
                | Inr items \<Rightarrow>
                    (case get_pr_counts_for hdrs org repo items merged_prs w1 of
                       None \<Rightarrow> None
                     | Some (Inl e, w2) \<Rightarrow> Some (Inl e, w2)
                     | Some (Inr merged_prs', w2) \<Rightarrow>
                         (case py_len prs of
                            Inl e \<Rightarrow> Some (Inl e, w2)
                          | Inr n \<Rightarrow>
                              if int n < per_page then Some (Inr merged_prs', w2)
                              else get_pr_counts_loop hdrs org repo (page + 1) merged_prs' w2))))"
  by pat_completeness auto
termination
  by (relation "measure (\<lambda>(hdrs, org, repo, page, merged_prs, w). length (net w))")
     (auto dest!: github_api_get_net_truthy get_pr_counts_for_net)

declare get_pr_counts_loop.simps [simp del]

definition get_pr_counts ::
  "(string \<times> string) list \<Rightarrow> string \<Rightarrow> json \<Rightarrow> (int \<times> int \<times> int) py" where
  "get_pr_counts hdrs org repo =
     (let url = repo_url org repo ''/pulls'' in
      py_bind (py_total (github_api_get hdrs url
                 (Some [(''state'', PStr ''open''), (''per_page'', PInt 1)]) 5)) (\<lambda>open_prs.
      py_bind (py_total (github_api_get hdrs url
                 (Some [(''state'', PStr ''closed''), (''per_page'', PInt 1)]) 5)) (\<lambda>closed_prs.
      py_bind (py_lift (len_if closed_prs)) (\<lambda>closed_count.
      py_bind (if truthy closed_prs then get_pr_counts_loop hdrs org repo 1 0
               else py_return 0) (\<lambda>merged_prs.
      py_bind (py_lift (len_if open_prs)) (\<lambda>open_count.
      py_return (open_count, closed_count, merged_prs)))))))"

subsection \<open>Issues\<close>

text \<open>\<^verbatim>\<open>sum(1 for i in issues if "pull_request" not in i)\<close>\<close>

fun sum_not_pull_request :: "json list \<Rightarrow> exn + int" where
  "sum_not_pull_request [] = Inr 0"
| "sum_not_pull_request (i # issues) =
     bind_exn (py_contains ''pull_request'' i) (\<lambda>marked.
     bind_exn (sum_not_pull_request issues) (\<lambda>n.
     Inr ((if \<not> marked then 1 else 0) + n)))"

text \<open>The inner function \<^verbatim>\<open>count_issues(state)\<close> of \<^verbatim>\<open>get_issue_counts\<close>, with the \<open>url\<close>
  of the enclosing call.\<close>

function count_issues_loop ::
  "(string \<times> string) list \<Rightarrow> string \<Rightarrow> string \<Rightarrow> int \<Rightarrow> int \<Rightarrow> int py" where
  "count_issues_loop hdrs url state page count w =
     (let per_page = 100
      in case github_api_get hdrs url
                (Some [(''state'', PStr state), (''per_page'', PInt per_page), (''page'', PInt page)])
                5 w of
           None \<Rightarrow> None
         | Some (issues, w1) \<Rightarrow>
             if \<not> truthy issues then Some (Inr count, w1)
             else
               (case bind_exn (py_iter issues) sum_not_pull_request of
                  Inl e \<Rightarrow> Some (Inl e, w1)
                | Inr k \<Rightarrow>
                    (case py_len issues of
                       Inl e \<Rightarrow> Some (Inl e, w1)
                     | Inr n \<Rightarrow>
                         if int n < per_page then Some (Inr (count + k), w1)
                         else count_issues_loop hdrs url state (page + 1) (count + k) w1)))"
  by pat_completeness auto
termination
  by (relation "measure (\<lambda>(hdrs, url, state, page, count, w). length (net w))")
     (auto dest!: github_api_get_net_truthy)

declare count_issues_loop.simps [simp del]

definition count_issues :: "(string \<times> string) list \<Rightarrow> string \<Rightarrow> string \<Rightarrow> int py" where
  "count_issues hdrs url state = count_issues_loop hdrs url state 1 0"

definition get_issue_counts ::
  "(string \<times> string) list \<Rightarrow> string \<Rightarrow> json \<Rightarrow> (int \<times> int) py" where
  "get_issue_counts hdrs org repo =
     (let url = repo_url org repo ''/issues'' in
      py_bind (py_total (github_api_get hdrs url
                 (Some [(''state'', PStr ''open''), (''per_page'', PInt 1)]) 5)) (\<lambda>open_issues.
      py_bind (py_total (github_api_get hdrs url
                 (Some [(''state'', PStr ''closed''), (''per_page'', PInt 1)]) 5)) (\<lambda>closed_issues.
      py_bind (count_issues hdrs url ''open'') (\<lambda>n_open.
      py_bind (count_issues hdrs url ''closed'') (\<lambda>n_closed.
      py_return (n_open, n_closed))))))"

subsection \<open>Branches, tags, last commit\<close>

function get_branches_loop ::
  "(string \<times> string) list \<Rightarrow> string \<Rightarrow> int \<Rightarrow> json list \<Rightarrow> json list py" where
  "get_branches_loop hdrs url page branches w =
     (let per_page = 100
      in case github_api_get hdrs url (Some [(''per_page'', PInt per_page), (''page'', PInt page)]) 5 w of
           None \<Rightarrow> None
         | Some (data, w1) \<Rightarrow>
             if \<not> truthy data then Some (Inr branches, w1)
             else
               (case py_iter data of
                  Inl e \<Rightarrow> Some (Inl e, w1)
                | Inr items \<Rightarrow>
                    (case py_len data of
                       Inl e \<Rightarrow> Some (Inl e, w1)
                     | Inr n \<Rightarrow>
                         if int n < per_page then Some (Inr (branches @ items), w1)
                         else get_branches_loop hdrs url (page + 1) (branches @ items) w1)))"
  by pat_completeness auto
termination
  by (relation "measure (\<lambda>(hdrs, url, page, branches, w). length (net w))")
     (auto dest!: github_api_get_net_truthy)

declare get_branches_loop.simps [simp del]

definition get_branches :: "(string \<times> string) list \<Rightarrow> string \<Rightarrow> json \<Rightarrow> int py" where
  "get_branches hdrs org repo =
     py_bind (get_branches_loop hdrs (repo_url org repo ''/branches'') 1 []) (\<lambda>branches.
     py_return (int (length branches)))"

function get_tags_loop ::
  "(string \<times> string) list \<Rightarrow> string \<Rightarrow> int \<Rightarrow> json list \<Rightarrow> json list py" where
  "get_tags_loop hdrs url page tags w =
     (let per_page = 100
      in case github_api_get hdrs url (Some [(''per_page'', PInt per_page), (''page'', PInt page)]) 5 w of
           None \<Rightarrow> None
         | Some (data, w1) \<Rightarrow>
             if \<not> truthy data then Some (Inr tags, w1)
             else
               (case py_iter data of
                  Inl e \<Rightarrow> Some (Inl e, w1)
                | Inr items \<Rightarrow>
                    (case py_len data of
                       Inl e \<Rightarrow> Some (Inl e, w1)
                     | Inr n \<Rightarrow>
                         if int n < per_page then Some (Inr (tags @ items), w1)
                         else get_tags_loop hdrs url (page + 1) (tags @ items) w1)))"
  by pat_completeness auto
termination
  by (relation "measure (\<lambda>(hdrs, url, page, tags, w). length (net w))")
     (auto dest!: github_api_get_net_truthy)

declare get_tags_loop.simps [simp del]

definition get_tags :: "(string \<times> string) list \<Rightarrow> string \<Rightarrow> json \<Rightarrow> int py" where
  "get_tags hdrs org repo =
     py_bind (get_tags_loop hdrs (repo_url org repo ''/tags'') 1 []) (\<lambda>tags.
     py_return (int (length tags)))"

text \<open>\<^verbatim>\<open>data and len(data) > 0\<close>\<close>

definition nonempty :: "json \<Rightarrow> exn + bool" where
  "nonempty data = (if truthy data then bind_exn (py_len data) (\<lambda>n. Inr (0 < n)) else Inr False)"

definition get_last_commit ::
  "(string \<times> string) list \<Rightarrow> string \<Rightarrow> json \<Rightarrow> json \<Rightarrow> (json \<times> json) py" where
  "get_last_commit hdrs org repo default_branch =
     (let url = repo_url org repo ''/commits'' in
      py_bind (py_total (github_api_get hdrs url
                 (Some [(''sha'', PVal default_branch), (''per_page'', PInt 1)]) 5)) (\<lambda>data.
      py_lift
        (bind_exn (nonempty data) (\<lambda>found.
         if found then
           bind_exn (py_index0 data) (\<lambda>commit.
           bind_exn (py_getitem commit ''commit'') (\<lambda>c1.
           bind_exn (py_getitem c1 ''committer'') (\<lambda>c2.
           bind_exn (py_getitem c2 ''date'') (\<lambda>date.
           bind_exn (py_getitem commit ''commit'') (\<lambda>c3.
           bind_exn (py_getitem c3 ''committer'') (\<lambda>c4.
           bind_exn (py_getitem c4 ''name'') (\<lambda>user.
           Inr (date, user))))))))
         else Inr (JStr [], JStr [])))))"

definition get_primary_language :: "json \<Rightarrow> exn + json" where
  "get_primary_language repo_data = py_get repo_data ''language'' (JStr [])"

subsection \<open>The report\<close>

definition fieldnames :: "string list" where
  "fieldnames =
     [''Repo Name'', ''Visibility'', ''Created At'', ''Updated At'', ''Last Pushed Date'',
      ''Repo Size (MB)'', ''Primary Language'', ''Total Open PRs'', ''Total Closed PRs'',
      ''Total Merged PRs'', ''Total Open Issues'', ''Total Closed Issues'', ''Total Branches'',
      ''Total Releases'', ''Total Tags'', ''Last Committed Date'', ''Last Committed User'']"

text \<open>\<^verbatim>\<open>round(repo["size"] / 1024, 2)\<close>: division is defined on numbers (a boolean counts as
  0 or 1) and raises \<^verbatim>\<open>TypeError\<close> on anything else.\<close>

fun size_mb :: "json \<Rightarrow> exn + cell" where
  "size_mb (JInt n) = Inr (SizeMB n)"
| "size_mb (JBool b) = Inr (SizeMB (if b then 1 else 0))"
| "size_mb v = Inl (TypeError (''unsupported operand type(s) for /: '' @ quoted (type_name v)
                                  @ '' and '' @ quoted ''int''))"

text \<open>\<^verbatim>\<open>open(filename, "w")\<close> with \<^verbatim>\<open>writer.writeheader()\<close>, and \<^verbatim>\<open>writer.writerow(row)\<close>.\<close>

definition open_report :: "world \<Rightarrow> world" where
  "open_report w = w\<lparr>report := Some []\<rparr>"

definition writerow :: "row \<Rightarrow> world \<Rightarrow> world" where
  "writerow r w = w\<lparr>report := (case report w of None \<Rightarrow> None | Some rows \<Rightarrow> Some (rows @ [r]))\<rparr>"

text \<open>The dictionary literal \<^verbatim>\<open>row = {...}\<close>, its values evaluated in the order written.\<close>

definition make_row ::
  "json \<Rightarrow> int \<Rightarrow> int \<Rightarrow> int \<Rightarrow> int \<Rightarrow> int \<Rightarrow> int \<Rightarrow> int \<Rightarrow> json \<Rightarrow> json \<Rightarrow> exn + row" where
  "make_row repo open_prs closed_prs merged_prs open_issues closed_issues branch_count tag_count
      last_commit_date last_commit_user =
     bind_exn (py_getitem repo ''name'') (\<lambda>name.
     bind_exn (py_getitem repo ''visibility'') (\<lambda>visibility.
     bind_exn (py_getitem repo ''created_at'') (\<lambda>created_at.
     bind_exn (py_getitem repo ''updated_at'') (\<lambda>updated_at.
     bind_exn (py_getitem repo ''pushed_at'') (\<lambda>pushed_at.
     bind_exn (py_getitem repo ''size'') (\<lambda>size.
     bind_exn (size_mb size) (\<lambda>mb.
     bind_exn (get_primary_language repo) (\<lambda>language.
     bind_exn (py_getitem repo ''open_issues_count'') (\<lambda>open_issues_count.
     Inr [(''Repo Name'', Cell name),
          (''Visibility'', Cell visibility),
          (''Created At'', Cell created_at),
          (''Updated At'', Cell updated_at),
          (''Last Pushed Date'', Cell pushed_at),
          (''Repo Size (MB)'', mb),
          (''Primary Language'', Cell language),
          (''Total Open PRs'', Cell (JInt open_prs)),
          (''Total Closed PRs'', Cell (JInt closed_prs)),
          (''Total Merged PRs'', Cell (JInt merged_prs)),
          (''Total Open Issues'', Cell (JInt open_issues)),
          (''Total Closed Issues'', Cell (JInt closed_issues)),
          (''Total Branches'', Cell (JInt branch_count)),
          (''Total Releases'', Cell open_issues_count),
          (''Total Tags'', Cell (JInt tag_count)),
          (''Last Committed Date'', Cell last_commit_date),
          (''Last Committed User'', Cell last_commit_user)])))))))))"

text \<open>\<^verbatim>\<open>row[key] = value\<close> on a key the dictionary has: the entry keeps its place.\<close>

fun set_item :: "string \<Rightarrow> cell \<Rightarrow> row \<Rightarrow> row" where
  "set_item k v [] = [(k, v)]"
| "set_item k v ((k', v') # r) = (if k' = k then (k, v) # r else (k', v') # set_item k v r)"

subsection \<open>main\<close>

text \<open>
  The body of the \<^verbatim>\<open>try\<close> in the loop of \<^verbatim>\<open>main\<close>, for one repository. \<^verbatim>\<open>repo["name"]\<close> is
  evaluated anew at each use in the source, with the same result each time.
\<close>

definition process_repo :: "(string \<times> string) list \<Rightarrow> string \<Rightarrow> json \<Rightarrow> unit py" where
  "process_repo hdrs org repo =
     py_bind (py_lift (py_getitem repo ''name'')) (\<lambda>name.
     py_bind (get_pr_counts hdrs org name) (\<lambda>(open_prs, closed_prs, merged_prs).
     py_bind (get_issue_counts hdrs org name) (\<lambda>(open_issues, closed_issues).
     py_bind (get_branches hdrs org name) (\<lambda>branch_count.
     py_bind (get_tags hdrs org name) (\<lambda>tag_count.
     py_bind (py_lift (py_getitem repo ''default_branch'')) (\<lambda>default_branch.
     py_bind (get_last_commit hdrs org name default_branch) (\<lambda>(last_commit_date, last_commit_user).
     py_bind (py_lift (make_row repo open_prs closed_prs merged_prs open_issues closed_issues
                         branch_count tag_count last_commit_date last_commit_user)) (\<lambda>row.
     py_bind (py_total (github_api_get hdrs (repo_url org name ''/releases'')
                (Some [(''per_page'', PInt 1)]) 5)) (\<lambda>releases.
     py_bind (py_lift (len_if releases)) (\<lambda>n.
     py_do (writerow (set_item ''Total Releases'' (Cell (JInt n)) row))))))))))))"

text \<open>
  The \<^verbatim>\<open>for repo in repos\<close> loop of \<^verbatim>\<open>main\<close>. The \<^verbatim>\<open>print\<close> stands before the \<^verbatim>\<open>try\<close>: an
  exception of \<^verbatim>\<open>repo['name']\<close> there leaves \<^verbatim>\<open>main\<close>.
\<close>

fun main_loop :: "(string \<times> string) list \<Rightarrow> string \<Rightarrow> json list \<Rightarrow> unit py" where
  "main_loop hdrs org [] w = Some (Inr (), w)"
| "main_loop hdrs org (repo # repos) w =
     (case py_getitem repo ''name'' of
        Inl e \<Rightarrow> Some (Inl e, w)
      | Inr name \<Rightarrow>
          (case process_repo hdrs org repo (print_line (''Processing '' @ py_str name @ ''...'') w) of
             None \<Rightarrow> None
           | Some (Inr u, w1) \<Rightarrow> main_loop hdrs org repos w1
           | Some (Inl e, w1) \<Rightarrow>
               main_loop hdrs org repos
                 (log_error (''Error processing '' @ py_str name @ '': '' @ exn_str e) w1)))"

text \<open>
  \<^verbatim>\<open>main\<close>. The module constants \<^verbatim>\<open>GITHUB_TOKEN\<close> and \<^verbatim>\<open>ORG_NAME\<close> are arguments, and so
  is \<open>strftime\<close>, which stands for \<^verbatim>\<open>datetime.now().strftime('%Y%m%d_%H%M%S')\<close> as a function
  of the clock.
\<close>

definition main :: "(int \<Rightarrow> string) \<Rightarrow> string option \<Rightarrow> string option \<Rightarrow> unit py" where
  "main strftime GITHUB_TOKEN ORG_NAME w =
     (case ORG_NAME of
        None \<Rightarrow> Some (Inr (), print_line ''ORG_NAME not set in .env file.'' w)
      | Some org \<Rightarrow>
          if org = [] then Some (Inr (), print_line ''ORG_NAME not set in .env file.'' w)
          else
            (case get_repos (HEADERS GITHUB_TOKEN) org w of
               None \<Rightarrow> None
             | Some (Inl e, w1) \<Rightarrow> Some (Inl e, w1)
             | Some (Inr repos, w1) \<Rightarrow>
                 if repos = [] then
                   Some (Inr (), print_line ''No repositories found or error occurred.'' w1)
                 else
                   let filename = org @ ''_repo_details_'' @ strftime (clock w1) @ ''.csv''
                   in py_bind (main_loop (HEADERS GITHUB_TOKEN) org repos) (\<lambda>u.
                      py_do (print_line (''Done. Output written to '' @ filename)))
                        (open_report w1)))"

text \<open>
  The script run as a program: \<^verbatim>\<open>load_dotenv()\<close> adds the variables of the \<^verbatim>\<open>.env\<close> file
  that the environment does not set, \<^verbatim>\<open>os.getenv\<close> reads the two constants, and \<^verbatim>\<open>main()\<close>
  runs. The exit status is 0 when \<^verbatim>\<open>main\<close> returns and 1 when an exception leaves it.
\<close>

definition load_dotenv :: "(string \<rightharpoonup> string) \<Rightarrow> (string \<rightharpoonup> string) \<Rightarrow> (string \<rightharpoonup> string)" where
  "load_dotenv dotenv environ = (\<lambda>k. case environ k of None \<Rightarrow> dotenv k | Some v \<Rightarrow> Some v)"

definition program :: 
  "(int \<Rightarrow> string) \<Rightarrow> (string \<rightharpoonup> string) \<Rightarrow> (string \<rightharpoonup> string) \<Rightarrow> world \<Rightarrow> (int \<times> world) option" where
  "program strftime dotenv environ w =
     (let env = load_dotenv dotenv environ;
          GITHUB_TOKEN = env ''GITHUB_TOKEN'';
          ORG_NAME = env ''ORG_NAME''
      in case main strftime GITHUB_TOKEN ORG_NAME w of
           None \<Rightarrow> None
         | Some (Inl e, w1) \<Rightarrow> Some (1, w1)
         | Some (Inr u, w1) \<Rightarrow> Some (0, w1))"

section \<open>fetch\_repo\_details\_inventory.py\<close>

text \<open>
  Names of this script that the first one also has carry the suffix \<open>_inv\<close>. The
  pictographs its messages start with are written as their UTF-8 bytes.
\<close>

definition hourglass :: string where
  "hourglass = [CHR 0xE2, CHR 0x8F, CHR 0xB3]"

definition repeat_sign :: string where
  "repeat_sign = [CHR 0xF0, CHR 0x9F, CHR 0x94, CHR 0x81]"

definition cross_mark :: string where
  "cross_mark = [CHR 0xE2, CHR 0x9D, CHR 0x8C]"

definition check_mark :: string where
  "check_mark = [CHR 0xE2, CHR 0x9C, CHR 0x85]"

definition HEADERS_inv :: "string \<Rightarrow> (string \<times> string) list" where
  "HEADERS_inv GH_PAT =
     [(''Authorization'', ''token '' @ GH_PAT),
      (''Accept'', ''application/vnd.github+json'')]"

text \<open>\<^verbatim>\<open>os.makedirs("logs", exist_ok=True)\<close> and an append to \<^verbatim>\<open>logs/error_log.txt\<close>.\<close>

definition log_error_inv :: "string \<Rightarrow> world \<Rightarrow> world" where
  "log_error_inv msg w = w\<lparr>error_log := error_log w @ [(clock w, msg)]\<rparr>"

text \<open>\<^verbatim>\<open>response.raise_for_status()\<close>: \<^verbatim>\<open>HTTPError\<close> for a status from 400 to 599.\<close>

definition raise_for_status :: "response \<Rightarrow> exn + unit" where
  "raise_for_status r =
     (if 400 \<le> status_code r \<and> status_code r < 500 then
        Inl (HTTPError (str_int (status_code r) @ '' Client Error: '' @ reason r
                          @ '' for url: '' @ resp_url r))
      else if 500 \<le> status_code r \<and> status_code r < 600 then
        Inl (HTTPError (str_int (status_code r) @ '' Server Error: '' @ reason r
                          @ '' for url: '' @ resp_url r))
      else Inr ())"

text \<open>\<^verbatim>\<open>response.status_code == 403 and "X-RateLimit-Remaining" in response.headers and
  response.headers["X-RateLimit-Remaining"] == "0"\<close>\<close>

definition rate_limited_inv :: "response \<Rightarrow> bool" where
  "rate_limited_inv r =
     (status_code r = 403
      \<and> header_in ''X-RateLimit-Remaining'' (resp_headers r)
      \<and> header_get (resp_headers r) ''X-RateLimit-Remaining'' = Some ''0'')"

text \<open>The body of the \<^verbatim>\<open>try\<close> in this script's \<^verbatim>\<open>github_api_get\<close>.\<close>

definition github_api_get_inv_try ::
  "(string \<times> string) list \<Rightarrow> string \<Rightarrow> (string \<times> pval) list option \<Rightarrow> world
     \<Rightarrow> ((exn + json step) \<times> world) option" where
  "github_api_get_inv_try hdrs url params w =
     (case requests_get \<lparr>req_url = url, req_params = params, req_headers = hdrs\<rparr> w of
        None \<Rightarrow> None
      | Some (Raised e, w1) \<Rightarrow> Some (Inl e, w1)
      | Some (Responded r, w1) \<Rightarrow>
          if rate_limited_inv r then
            (case reset_time_of r (clock w1) of
               Inl e \<Rightarrow> Some (Inl e, w1)
             | Inr reset_time \<Rightarrow>
                 let sleep_time = reset_time - clock w1;
                     w2 = print_line (hourglass @ '' Rate limit hit. Sleeping for ''
                                        @ str_int sleep_time @ '' seconds...'') w1
                 in (case time_sleep sleep_time w2 of
                       Inl e \<Rightarrow> Some (Inl e, w2)
                     | Inr w3 \<Rightarrow> Some (Inr Continue, w3)))
          else
            (case raise_for_status r of
               Inl e \<Rightarrow> Some (Inl e, w1)
             | Inr u \<Rightarrow>
                 (case resp_json r of
                    Inl e \<Rightarrow> Some (Inl e, w1)
                  | Inr v \<Rightarrow> Some (Inr (Return v), w1))))"

text \<open>
  \<^verbatim>\<open>for attempt in range(retries)\<close> with its two handlers; an exception neither handler
  names leaves the function. \<^verbatim>\<open>break\<close> and the end of the loop both reach \<^verbatim>\<open>return []\<close>.
  \<^verbatim>\<open>time.sleep(2 ** attempt)\<close> has a positive argument and cannot raise.
\<close>

function github_api_get_inv_loop ::
  "(string \<times> string) list \<Rightarrow> string \<Rightarrow> (string \<times> pval) list option \<Rightarrow> int \<Rightarrow> nat \<Rightarrow> world
     \<Rightarrow> ((exn + json) \<times> world) option" where
  "github_api_get_inv_loop hdrs url params retries attempt w =
     (if int attempt < retries then
        (case github_api_get_inv_try hdrs url params w of
           None \<Rightarrow> None
         | Some (Inr (Return v), w1) \<Rightarrow> Some (Inr v, w1)
         | Some (Inr Continue, w1) \<Rightarrow>
             github_api_get_inv_loop hdrs url params retries (attempt + 1) w1
         | Some (Inl e, w1) \<Rightarrow>
             if is_connection_error e then
               let w2 = print_line (repeat_sign @ '' Network error on attempt ''
                          @ str_int (int attempt + 1) @ '': '' @ exn_str e) w1;
                   w3 = advance (2 ^ attempt) w2
               in github_api_get_inv_loop hdrs url params retries (attempt + 1) w3
             else if is_request_exception e then
               Some (Inr (JList []), print_line (cross_mark @ '' Request failed: '' @ exn_str e) w1)
             else Some (Inl e, w1))
      else Some (Inr (JList []), w))"
  by pat_completeness auto
termination
  by (relation "measure (\<lambda>(hdrs, url, params, retries, attempt, w). nat (retries - int attempt))")
     auto

declare github_api_get_inv_loop.simps [simp del]

definition github_api_get_inv ::
  "(string \<times> string) list \<Rightarrow> string \<Rightarrow> (string \<times> pval) list option \<Rightarrow> int \<Rightarrow> world
     \<Rightarrow> ((exn + json) \<times> world) option" where
  "github_api_get_inv hdrs url params retries w =
     github_api_get_inv_loop hdrs url params retries 0 w"

text \<open>Each attempt that is answered takes its answer from \<open>net\<close>.\<close>

lemma github_api_get_inv_try_net:
  "github_api_get_inv_try hdrs url params w = Some (x, w1) \<Longrightarrow> length (net w1) < length (net w)"
  by (auto simp: github_api_get_inv_try_def time_sleep_def Let_def
      dest!: requests_get_Some
      split: option.splits prod.splits outcome.splits sum.splits if_splits)

lemma github_api_get_inv_loop_net:
  "github_api_get_inv_loop hdrs url params retries attempt w = Some (x, w1) \<Longrightarrow>
     length (net w1) \<le> length (net w)
     \<and> ((\<exists>v. x = Inr v \<and> truthy v) \<longrightarrow> length (net w1) < length (net w))"
proof (induction hdrs url params retries attempt w rule: github_api_get_inv_loop.induct)
  case (1 hdrs url params retries attempt w)
  note simps = github_api_get_inv_loop.simps [of hdrs url params retries attempt w]
  show ?case
  proof (cases "int attempt < retries")
    case False
    with "1.prems" show ?thesis
      by (auto simp: simps)
  next
    case True
    then obtain y w0 where t: "github_api_get_inv_try hdrs url params w = Some (y, w0)"
      using "1.prems" by (cases "github_api_get_inv_try hdrs url params w") (auto simp: simps)
    then have less: "length (net w0) < length (net w)"
      by (rule github_api_get_inv_try_net)
    show ?thesis
    proof (cases y)
      case (Inl e)
      show ?thesis
      proof (cases "is_connection_error e")
        case c: True
        from "1.prems" True t Inl c have "length (net w1) \<le> length (net w0)"
          using "1.IH"(1) [OF True t refl Inl c refl refl]
          by (simp add: simps Let_def)
        with less show ?thesis by simp
      next
        case False
        with "1.prems" True t Inl less show ?thesis
          by (auto simp: simps split: if_splits)
      qed
    next
      case (Inr st)
      show ?thesis
      proof (cases st)
        case (Return v')
        with "1.prems" True t Inr less show ?thesis
          by (auto simp: simps)
      next
        case Continue
        have "length (net w1) \<le> length (net w0)"
          using "1.IH"(2) [OF True t refl Inr Continue] "1.prems" True t Inr Continue
          by (simp add: simps)
        with less show ?thesis by simp
      qed
    qed
  qed
qed

lemma github_api_get_inv_net_truthy:
  "github_api_get_inv hdrs url params retries w = Some (Inr v, w1) \<Longrightarrow> truthy v \<Longrightarrow>
     length (net w1) < length (net w)"
  using github_api_get_inv_loop_net [of hdrs url params retries 0 w "Inr v" w1]
  by (auto simp: github_api_get_inv_def)

function get_repos_inv_loop ::
  "(string \<times> string) list \<Rightarrow> string \<Rightarrow> int \<Rightarrow> json list \<Rightarrow> json list py" where
  "get_repos_inv_loop hdrs org page repos w =
     (let url = org_repos_url org;
          params = Some [(''per_page'', PInt 100), (''page'', PInt page)]
      in case github_api_get_inv hdrs url params 3 w of
           None \<Rightarrow> None
         | Some (Inl e, w1) \<Rightarrow> Some (Inl e, w1)
         | Some (Inr data, w1) \<Rightarrow>
             if \<not> truthy data then Some (Inr repos, w1)
             else
               (case py_iter data of
                  Inl e \<Rightarrow> Some (Inl e, w1)
                | Inr items \<Rightarrow>
                    (case py_len data of
                       Inl e \<Rightarrow> Some (Inl e, w1)
                     | Inr n \<Rightarrow>
                         if int n < 100 then Some (Inr (repos @ items), w1)
                         else get_repos_inv_loop hdrs org (page + 1) (repos @ items) w1)))"
  by pat_completeness auto
termination
  by (relation "measure (\<lambda>(hdrs, org, page, repos, w). length (net w))")
     (auto dest!: github_api_get_inv_net_truthy)

declare get_repos_inv_loop.simps [simp del]

definition get_repos_inv :: "(string \<times> string) list \<Rightarrow> string \<Rightarrow> json list py" where
  "get_repos_inv hdrs org = get_repos_inv_loop hdrs org 1 []"

text \<open>\<^verbatim>\<open>sum(1 for pr in closed_prs if pr.get("merged_at"))\<close>\<close>

fun sum_merged :: "json list \<Rightarrow> exn + int" where
  "sum_merged [] = Inr 0"
| "sum_merged (pr # prs) =
     bind_exn (py_get pr ''merged_at'' JNull) (\<lambda>merged_at.
     bind_exn (sum_merged prs) (\<lambda>n.
     Inr ((if truthy merged_at then 1 else 0) + n)))"

definition get_pr_counts_inv ::
  "(string \<times> string) list \<Rightarrow> string \<Rightarrow> json \<Rightarrow> (int \<times> int \<times> int) py" where
  "get_pr_counts_inv hdrs org repo =
     (let url = repo_url org repo ''/pulls'' in
      py_bind (github_api_get_inv hdrs url (Some [(''state'', PStr ''open'')]) 3) (\<lambda>open_prs.
      py_bind (github_api_get_inv hdrs url (Some [(''state'', PStr ''closed'')]) 3) (\<lambda>closed_prs.
      py_lift
        (bind_exn (bind_exn (py_iter closed_prs) sum_merged) (\<lambda>merged_count.
         bind_exn (py_len open_prs) (\<lambda>n_open.
         bind_exn (py_len closed_prs) (\<lambda>n_closed.
         Inr (int n_open, int n_closed, merged_count))))))))"

text \<open>\<^verbatim>\<open>[i for i in issues if "pull_request" not in i]\<close>\<close>

fun not_pull_request :: "json list \<Rightarrow> exn + json list" where
  "not_pull_request [] = Inr []"
| "not_pull_request (i # issues) =
     bind_exn (py_contains ''pull_request'' i) (\<lambda>marked.
     bind_exn (not_pull_request issues) (\<lambda>kept.
     Inr (if \<not> marked then i # kept else kept)))"

definition get_issue_counts_inv ::
  "(string \<times> string) list \<Rightarrow> string \<Rightarrow> json \<Rightarrow> (int \<times> int) py" where
  "get_issue_counts_inv hdrs org repo =
     (let issues_url = repo_url org repo ''/issues'' in
      py_bind (github_api_get_inv hdrs issues_url (Some [(''state'', PStr ''open'')]) 3) (\<lambda>open_issues.
      py_bind (github_api_get_inv hdrs issues_url (Some [(''state'', PStr ''closed'')]) 3) (\<lambda>closed_issues.
      py_lift
        (bind_exn (bind_exn (py_iter open_issues) not_pull_request) (\<lambda>open_issues'.
         bind_exn (bind_exn (py_iter closed_issues) not_pull_request) (\<lambda>closed_issues'.
         Inr (int (length open_issues'), int (length closed_issues'))))))))"

definition get_branches_inv :: "(string \<times> string) list \<Rightarrow> string \<Rightarrow> json \<Rightarrow> int py" where
  "get_branches_inv hdrs org repo =
     py_bind (github_api_get_inv hdrs (repo_url org repo ''/branches'') None 3) (\<lambda>branches.
     py_lift (bind_exn (py_len branches) (\<lambda>n. Inr (int n))))"

definition get_tags_inv :: "(string \<times> string) list \<Rightarrow> string \<Rightarrow> json \<Rightarrow> int py" where
  "get_tags_inv hdrs org repo =
     py_bind (github_api_get_inv hdrs (repo_url org repo ''/tags'') None 3) (\<lambda>tags.
     py_lift (bind_exn (py_len tags) (\<lambda>n. Inr (int n))))"

definition get_last_commit_inv ::
  "(string \<times> string) list \<Rightarrow> string \<Rightarrow> json \<Rightarrow> json \<Rightarrow> (json \<times> json) py" where
  "get_last_commit_inv hdrs org repo default_branch =
     (let url = repo_url org repo (''/commits/'' @ py_str default_branch) in
      py_bind (github_api_get_inv hdrs url None 3) (\<lambda>commit.
      py_lift
        (if truthy commit then
           bind_exn (py_getitem commit ''commit'') (\<lambda>c1.
           bind_exn (py_getitem c1 ''committer'') (\<lambda>c2.
           bind_exn (py_getitem c2 ''date'') (\<lambda>date.
           bind_exn (py_getitem commit ''commit'') (\<lambda>c3.
           bind_exn (py_getitem c3 ''committer'') (\<lambda>c4.
           bind_exn (py_getitem c4 ''name'') (\<lambda>author.
           Inr (date, author)))))))
         else Inr (JStr [], JStr []))))"

definition get_primary_language_inv :: "json \<Rightarrow> exn + json" where
  "get_primary_language_inv repo = py_get repo ''language'' (JStr ''N/A'')"

definition make_row_inv ::
  "json \<Rightarrow> int \<Rightarrow> int \<Rightarrow> int \<Rightarrow> int \<Rightarrow> int \<Rightarrow> int \<Rightarrow> json \<Rightarrow> int \<Rightarrow> json \<Rightarrow> json \<Rightarrow> exn + row" where
  "make_row_inv repo open_prs closed_prs merged_prs open_issues closed_issues branch_count
      releases tag_count last_commit_date last_commit_user =
     bind_exn (py_getitem repo ''name'') (\<lambda>name.
     bind_exn (py_getitem repo ''visibility'') (\<lambda>visibility.
     bind_exn (py_getitem repo ''created_at'') (\<lambda>created_at.
     bind_exn (py_getitem repo ''updated_at'') (\<lambda>updated_at.
     bind_exn (py_getitem repo ''pushed_at'') (\<lambda>pushed_at.
     bind_exn (py_getitem repo ''size'') (\<lambda>size.
     bind_exn (size_mb size) (\<lambda>mb.
     bind_exn (get_primary_language_inv repo) (\<lambda>language.
     bind_exn (len_if releases) (\<lambda>n_releases.
     Inr [(''Repo Name'', Cell name),
          (''Visibility'', Cell visibility),
          (''Created At'', Cell created_at),
          (''Updated At'', Cell updated_at),
          (''Last Pushed Date'', Cell pushed_at),
          (''Repo Size (MB)'', mb),
          (''Primary Language'', Cell language),
          (''Total Open PRs'', Cell (JInt open_prs)),
          (''Total Closed PRs'', Cell (JInt closed_prs)),
          (''Total Merged PRs'', Cell (JInt merged_prs)),
          (''Total Open Issues'', Cell (JInt open_issues)),
          (''Total Closed Issues'', Cell (JInt closed_issues)),
          (''Total Branches'', Cell (JInt branch_count)),
          (''Total Releases'', Cell (JInt n_releases)),
          (''Total Tags'', Cell (JInt tag_count)),
          (''Last Committed Date'', Cell last_commit_date),
          (''Last Committed User'', Cell last_commit_user)])))))))))"

definition process_repo_inv :: "(string \<times> string) list \<Rightarrow> string \<Rightarrow> json \<Rightarrow> unit py" where
  "process_repo_inv hdrs org repo =
     py_bind (py_lift (py_getitem repo ''name'')) (\<lambda>name.
     py_bind (get_pr_counts_inv hdrs org name) (\<lambda>(open_prs, closed_prs, merged_prs).
     py_bind (get_issue_counts_inv hdrs org name) (\<lambda>(open_issues, closed_issues).
     py_bind (get_branches_inv hdrs org name) (\<lambda>branch_count.
     py_bind (get_tags_inv hdrs org name) (\<lambda>tag_count.
     py_bind (py_lift (py_getitem repo ''default_branch'')) (\<lambda>default_branch.
     py_bind (get_last_commit_inv hdrs org name default_branch) (\<lambda>(last_commit_date, last_commit_user).
     py_bind (github_api_get_inv hdrs (repo_url org name ''/releases'')
                (Some [(''per_page'', PInt 1)]) 3) (\<lambda>releases.
     py_bind (py_lift (make_row_inv repo open_prs closed_prs merged_prs open_issues closed_issues
                         branch_count releases tag_count last_commit_date last_commit_user)) (\<lambda>row.
     py_do (writerow row))))))))))"

fun main_inv_loop :: "(string \<times> string) list \<Rightarrow> string \<Rightarrow> json list \<Rightarrow> unit py" where
  "main_inv_loop hdrs org [] w = Some (Inr (), w)"
| "main_inv_loop hdrs org (repo # repos) w =
     (case py_getitem repo ''name'' of
        Inl e \<Rightarrow> Some (Inl e, w)
      | Inr name \<Rightarrow>
          (case process_repo_inv hdrs org repo (print_line (''Processing '' @ py_str name @ ''...'') w) of
             None \<Rightarrow> None
           | Some (Inr u, w1) \<Rightarrow> main_inv_loop hdrs org repos w1
           | Some (Inl e, w1) \<Rightarrow>
               main_inv_loop hdrs org repos
                 (log_error_inv (''Error processing '' @ py_str name @ '': '' @ exn_str e) w1)))"

definition main_inv :: "string \<Rightarrow> string \<Rightarrow> unit py" where
  "main_inv GH_PAT GH_ORG w =
     (case get_repos_inv (HEADERS_inv GH_PAT) GH_ORG w of
        None \<Rightarrow> None
      | Some (Inl e, w1) \<Rightarrow> Some (Inl e, w1)
      | Some (Inr repos, w1) \<Rightarrow>
          if repos = [] then
            Some (Inr (), print_line ''No repositories found or error occurred.'' w1)
          else
            let filename = ''output/'' @ GH_ORG @ ''_repo_details.csv''
            in py_bind (main_inv_loop (HEADERS_inv GH_PAT) GH_ORG repos) (\<lambda>u.
               py_do (print_line (check_mark @ '' Done. Output written to '' @ filename)))
                 (open_report w1))"

text \<open>
  The script run as a program. The check of \<^verbatim>\<open>GH_PAT\<close> and \<^verbatim>\<open>GH_ORG\<close> stands at module
  level, before anything else: \<^verbatim>\<open>not x\<close> holds for a variable that is unset or empty, and
  \<^verbatim>\<open>exit(1)\<close> ends the program with status 1.
\<close>

fun unset :: "string option \<Rightarrow> bool" where
  "unset None = True"
| "unset (Some s) = (s = [])"

definition program_inv ::
  "(string \<rightharpoonup> string) \<Rightarrow> (string \<rightharpoonup> string) \<Rightarrow> world \<Rightarrow> (int \<times> world) option" where
  "program_inv dotenv environ w =
     (let env = load_dotenv dotenv environ;
          GH_PAT = env ''GH_PAT'';
          GH_ORG = env ''GH_ORG''
      in if unset GH_PAT \<or> unset GH_ORG then
           Some (1, print_line (cross_mark @ '' GH_PAT or GH_ORG not set. Please provide them in GitHub Secrets or a .env file.'') w)
         else
           (case main_inv (the GH_PAT) (the GH_ORG) w of
              None \<Rightarrow> None
            | Some (Inl e, w1) \<Rightarrow> Some (1, w1)
            | Some (Inr u, w1) \<Rightarrow> Some (0, w1)))"

section \<open>fetch\_repo\_list.py\<close>

definition warning_sign :: string where
  "warning_sign = [CHR 0xE2, CHR 0x9A, CHR 0xA0, CHR 0xEF, CHR 0xB8, CHR 0x8F]"

definition magnifier :: string where
  "magnifier = [CHR 0xF0, CHR 0x9F, CHR 0x94, CHR 0x8D]"

text \<open>\<^verbatim>\<open>logging.warning\<close>, \<^verbatim>\<open>logging.error\<close>, \<^verbatim>\<open>logging.info\<close>, \<^verbatim>\<open>logging.exception\<close>: a record with
  its level in \<^verbatim>\<open>logs/fetch_repos.log\<close>.\<close>

definition logging :: "string \<Rightarrow> string \<Rightarrow> world \<Rightarrow> world" where
  "logging level msg w = w\<lparr>app_log := app_log w @ [(level, msg)]\<rparr>"

lemma logging_fields [simp]:
  "net (logging l m w) = net w"
  "clock (logging l m w) = clock w"
  "slept (logging l m w) = slept w"
  "error_log (logging l m w) = error_log w"
  "app_log (logging l m w) = app_log w @ [(l, m)]"
  "stdout (logging l m w) = stdout w"
  "sent (logging l m w) = sent w"
  "report (logging l m w) = report w"
  by (simp_all add: logging_def)

text \<open>\<^verbatim>\<open>response.status_code == 403 and "X-RateLimit-Remaining" in response.headers\<close>\<close>

definition rate_limited_list :: "response \<Rightarrow> bool" where
  "rate_limited_list r =
     (status_code r = 403 \<and> header_in ''X-RateLimit-Remaining'' (resp_headers r))"

text \<open>\<^verbatim>\<open>int(response.headers.get("X-RateLimit-Reset", 0))\<close>\<close>

definition reset_time_or_0 :: "response \<Rightarrow> exn + int" where
  "reset_time_or_0 r =
     (case header_get (resp_headers r) ''X-RateLimit-Reset'' of
        None \<Rightarrow> Inr 0
      | Some s \<Rightarrow> py_int s)"

text \<open>
  The \<^verbatim>\<open>while True\<close> loop of \<^verbatim>\<open>get_github_repos\<close>, with \<^verbatim>\<open>params["page"]\<close> and \<open>repos\<close> as
  they stand. No exception is handled here. \<^verbatim>\<open>time.sleep(wait_seconds)\<close> has a positive
  argument and cannot raise.
\<close>

function get_github_repos_loop ::
  "string \<Rightarrow> string \<Rightarrow> int \<Rightarrow> int \<Rightarrow> json list \<Rightarrow> json list py" where
  "get_github_repos_loop org token per_page page repos w =
     (let url = org_repos_url org;
          headers = [(''Authorization'', ''token '' @ token)];
          params = Some [(''per_page'', PInt per_page), (''page'', PInt page)]
      in case requests_get \<lparr>req_url = url, req_params = params, req_headers = headers\<rparr> w of
           None \<Rightarrow> None
         | Some (Raised e, w1) \<Rightarrow> Some (Inl e, w1)
         | Some (Responded r, w1) \<Rightarrow>
             if rate_limited_list r then
               (case reset_time_or_0 r of
                  Inl e \<Rightarrow> Some (Inl e, w1)
                | Inr reset_time \<Rightarrow>
                    let wait_seconds = max (reset_time - clock w1) 1;
                        msg = warning_sign @ '' Rate limit exceeded. Waiting for ''
                                @ str_int wait_seconds @ '' seconds...'';
                        w2 = logging ''WARNING'' msg (print_line msg w1);
                        w3 = advance wait_seconds w2
                    in get_github_repos_loop org token per_page page repos w3)
             else if status_code r \<noteq> 200 then
               (case bind_exn (resp_json r) (\<lambda>j. py_get j ''message'' (JStr ''Unknown error'')) of
                  Inl e \<Rightarrow> Some (Inl e, w1)
                | Inr message \<Rightarrow>
                    let error_msg = cross_mark @ '' Error: '' @ str_int (status_code r) @ '' - ''
                                      @ py_str message
                    in Some (Inr repos, logging ''ERROR'' error_msg (print_line error_msg w1)))
             else
               (case resp_json r of
                  Inl e \<Rightarrow> Some (Inl e, w1)
                | Inr data \<Rightarrow>
                    if \<not> truthy data then Some (Inr repos, w1)
                    else
                      (case py_iter data of
                         Inl e \<Rightarrow> Some (Inl e, w1)
                       | Inr items \<Rightarrow>
                           get_github_repos_loop org token per_page (page + 1) (repos @ items) w1)))"
  by pat_completeness auto
termination
  by (relation "measure (\<lambda>(org, token, per_page, page, repos, w). length (net w))")
     (auto dest!: requests_get_Some)

declare get_github_repos_loop.simps [simp del]

definition get_github_repos :: "string \<Rightarrow> string \<Rightarrow> int \<Rightarrow> json list py" where
  "get_github_repos org token per_page = get_github_repos_loop org token per_page 1 []"

text \<open>\<^verbatim>\<open>save_to_csv\<close>: the file is opened and the header written, then one row per
  repository; an exception leaves the rows written so far.\<close>

fun save_rows :: "json list \<Rightarrow> unit py" where
  "save_rows [] w = Some (Inr (), w)"
| "save_rows (repo # repositories) w =
     (case bind_exn (py_getitem repo ''name'') (\<lambda>name.
           bind_exn (py_get repo ''visibility'' (JStr ''N/A'')) (\<lambda>visibility.
           Inr [(''Repository Name'', Cell name), (''Visibility'', Cell visibility)])) of
        Inl e \<Rightarrow> Some (Inl e, w)
      | Inr r \<Rightarrow> save_rows repositories (writerow r w))"

definition save_to_csv :: "json list \<Rightarrow> unit py" where
  "save_to_csv repositories w = save_rows repositories (open_report w)"

text \<open>
  The script run as a program: the two variables are read from the environment, then
  from the \<^verbatim>\<open>.env\<close> file where one is unset; if one is still unset the program prints,
  logs and ends with \<^verbatim>\<open>exit(1)\<close>. The main block catches every exception, so the status
  is 0 from there on.
\<close>

definition or_else :: "string option \<Rightarrow> string option \<Rightarrow> string option" where
  "or_else a b = (if unset a then b else a)"

definition load_credentials ::
  "(string \<rightharpoonup> string) \<Rightarrow> (string \<rightharpoonup> string) \<Rightarrow> string option \<times> string option" where
  "load_credentials dotenv environ =
     (let GH_ORG = environ ''GH_ORG'';
          GH_PAT = environ ''GH_PAT''
      in if unset GH_ORG \<or> unset GH_PAT then
           let env = load_dotenv dotenv environ
           in (or_else GH_ORG (env ''GH_ORG''), or_else GH_PAT (env ''GH_PAT''))
         else (GH_ORG, GH_PAT))"

definition program_list ::
  "(string \<rightharpoonup> string) \<Rightarrow> (string \<rightharpoonup> string) \<Rightarrow> world \<Rightarrow> (int \<times> world) option" where
  "program_list dotenv environ w =
     (case load_credentials dotenv environ of (GH_ORG, GH_PAT) \<Rightarrow>
        if unset GH_ORG \<or> unset GH_PAT then
          Some (1, logging ''ERROR'' ''Missing GH_ORG or GH_PAT environment variables.''
                     (print_line (cross_mark @ '' Error: Please set GH_ORG and GH_PAT as GitHub Secrets or in your .env file.'') w))
        else
          (case py_bind (py_do (print_line (magnifier @ '' Fetching repositories for org: '' @ the GH_ORG))) (\<lambda>u.
                py_bind (get_github_repos (the GH_ORG) (the GH_PAT) 100) (\<lambda>repositories.
                py_bind (save_to_csv repositories) (\<lambda>u.
                py_bind (py_do (print_line (check_mark @ '' CSV file saved successfully!''))) (\<lambda>u.
                py_do (logging ''INFO'' ''CSV file saved successfully.''))))) w of
             None \<Rightarrow> None
           | Some (Inr u, w1) \<Rightarrow> Some (0, w1)
           | Some (Inl e, w1) \<Rightarrow>
               Some (0, print_line (cross_mark @ '' An error occurred. Check logs/fetch_repos.log for details.'')
                          (logging ''ERROR'' (''Unhandled exception: '' @ exn_str e) w1))))"

section \<open>Concrete worlds\<close>

text \<open>
  The inputs at which the theorems below are instantiated: an empty world at time 1000,
  answers of the network that do not depend on the request, and a few responses.
\<close>

definition world0 :: world where
  "world0 = \<lparr>net = [], clock = 1000, slept = [], error_log = [], app_log = [], stdout = [],
              sent = [], report = None\<rparr>"

definition always :: "outcome \<Rightarrow> request \<Rightarrow> outcome" where
  "always x = (\<lambda>req. x)"

definition response200 :: "json \<Rightarrow> response" where
  "response200 v = \<lparr>status_code = 200, reason = ''OK'', resp_url = ''https://api.github.com/x'',
                     resp_text = [], resp_headers = [], resp_json = Inr v\<rparr>"

definition response404 :: response where
  "response404 = \<lparr>status_code = 404, reason = ''Not Found'', resp_url = ''https://api.github.com/x'',
                    resp_text = ''gone'', resp_headers = [],
                    resp_json = Inr (JObj [(''message'', JStr ''Not Found'')])\<rparr>"

text \<open>A rate-limit response whose reset time is the header value \<open>reset\<close>.\<close>

definition response403 :: "string \<Rightarrow> response" where
  "response403 reset =
     \<lparr>status_code = 403, reason = ''Forbidden'', resp_url = ''https://api.github.com/x'',
      resp_text = ''API rate limit exceeded'',
      resp_headers = [(''X-RateLimit-Remaining'', ''0''), (''X-RateLimit-Reset'', reset)],
      resp_json = Inr (JObj [(''message'', JStr ''API rate limit exceeded'')])\<rparr>"

definition page :: "json list \<Rightarrow> request \<Rightarrow> outcome" where
  "page items = always (Responded (response200 (JList items)))"

text \<open>The spelling of a header name does not matter to the tests the clients make.\<close>

lemma headers_any_case:
  "rate_limited_inv (response403 ''1010''\<lparr>resp_headers := [(''x-ratelimit-remaining'', ''0'')]\<rparr>)"
  "rate_limited_list (response403 ''1010''\<lparr>resp_headers := [(''x-ratelimit-remaining'', ''0'')]\<rparr>)"
  "reset_time_of (response403 ''1010''\<lparr>resp_headers := [(''x-ratelimit-reset'', ''1010'')]\<rparr>) now = Inr 1010"
  "reset_time_or_0 (response403 ''1010''\<lparr>resp_headers := [(''x-ratelimit-reset'', ''1010'')]\<rparr>) = Inr 1010"
  by (simp_all add: rate_limited_inv_def rate_limited_list_def reset_time_of_def reset_time_or_0_def
        header_get_def header_in_def lower_def lower_char_def response403_def digit_val_def)

section \<open>The API client\<close>

abbreviation mk_req ::
  "(string \<times> string) list \<Rightarrow> string \<Rightarrow> (string \<times> pval) list option \<Rightarrow> request" where
  "mk_req hdrs url params \<equiv> \<lparr>req_url = url, req_params = params, req_headers = hdrs\<rparr>"

subsection \<open>fetch\_repo\_details.py: how one pass of the loop ends\<close>

lemma try_raised:
  assumes "net w = f # rest" and "f (mk_req hdrs url params) = Raised e"
  shows "github_api_get_try hdrs url params w = Some (Inl e, answered (mk_req hdrs url params) w)"
  using assms by (simp add: github_api_get_try_def requests_get_Cons)

lemma try_rate_limit:
  assumes "net w = f # rest" and "f (mk_req hdrs url params) = Responded r"
    and "rate_limited r"
    and "reset_time_of r (clock w) = Inr R"
  shows "github_api_get_try hdrs url params w =
           Some (Inr Continue,
                 advance (max (R - clock w) 1)
                   (print_line (''Rate limit hit. Sleeping for '' @ str_int (max (R - clock w) 1)
                                  @ '' seconds...'')
                      (answered (mk_req hdrs url params) w)))"
  using assms by (simp add: github_api_get_try_def requests_get_Cons Let_def time_sleep_def)

lemma try_failed:
  assumes "net w = f # rest" and "f (mk_req hdrs url params) = Responded r"
    and "\<not> rate_limited r"
    and "status_code r \<noteq> 200" and "status_code r \<noteq> 201"
  shows "github_api_get_try hdrs url params w =
           Some (Inr (Return JNull),
                 log_error (''Failed GET '' @ url @ '': '' @ str_int (status_code r) @ '' ''
                              @ resp_text r)
                   (answered (mk_req hdrs url params) w))"
  using assms by (auto simp add: github_api_get_try_def requests_get_Cons)

lemma try_ok:
  assumes "net w = f # rest" and "f (mk_req hdrs url params) = Responded r"
    and "status_code r = 200 \<or> status_code r = 201" and "resp_json r = Inr v"
  shows "github_api_get_try hdrs url params w =
           Some (Inr (Return v), answered (mk_req hdrs url params) w)"
  using assms by (auto simp add: github_api_get_try_def requests_get_Cons rate_limited_def)

lemma loop_rate_limit:
  assumes "int retries < max_retries"
    and "net w = f # rest" and "f (mk_req hdrs url params) = Responded r"
    and "rate_limited r"
    and "reset_time_of r (clock w) = Inr R"
  shows "github_api_get_loop hdrs url params max_retries retries w =
           github_api_get_loop hdrs url params max_retries retries
             (advance (max (R - clock w) 1)
                (print_line (''Rate limit hit. Sleeping for '' @ str_int (max (R - clock w) 1)
                               @ '' seconds...'')
                   (answered (mk_req hdrs url params) w)))"
  using assms(1) try_rate_limit [OF assms(2-5)]
  by (subst github_api_get_loop.simps) simp

lemma loop_failed:
  assumes "int retries < max_retries"
    and "net w = f # rest" and "f (mk_req hdrs url params) = Responded r"
    and "\<not> rate_limited r"
    and "status_code r \<noteq> 200" and "status_code r \<noteq> 201"
  shows "github_api_get_loop hdrs url params max_retries retries w =
           Some (JNull,
                 log_error (''Failed GET '' @ url @ '': '' @ str_int (status_code r) @ '' ''
                              @ resp_text r)
                   (answered (mk_req hdrs url params) w))"
  using assms(1) try_failed [OF assms(2-6)]
  by (subst github_api_get_loop.simps) simp

lemma loop_ok:
  assumes "int retries < max_retries"
    and "net w = f # rest" and "f (mk_req hdrs url params) = Responded r"
    and "status_code r = 200 \<or> status_code r = 201" and "resp_json r = Inr v"
  shows "github_api_get_loop hdrs url params max_retries retries w =
           Some (v, answered (mk_req hdrs url params) w)"
  using assms(1) try_ok [OF assms(2-5)]
  by (subst github_api_get_loop.simps) simp

lemma loop_connection_error:
  assumes "int retries < max_retries"
    and "net w = f # rest" and "f (mk_req hdrs url params) = Raised e"
    and "is_connection_error e"
  shows "github_api_get_loop hdrs url params max_retries retries w =
           github_api_get_loop hdrs url params max_retries (retries + 1)
             (advance (5 * int (retries + 1))
                (log_error (''Connection error on '' @ url @ '': '' @ exn_str e @ ''. Retry ''
                              @ str_int (int (retries + 1)) @ ''/'' @ str_int max_retries)
                   (answered (mk_req hdrs url params) w)))"
  using assms(1,4) try_raised [OF assms(2,3)]
  by (subst github_api_get_loop.simps) (simp add: Let_def)

lemma loop_exhausted:
  assumes "\<not> int retries < max_retries"
  shows "github_api_get_loop hdrs url params max_retries retries w =
           Some (JNull, log_error (''Max retries exceeded for '' @ url) w)"
  using assms by (subst github_api_get_loop.simps) simp

text \<open>Connection errors on every attempt from \<open>retries\<close> on, up to the bound.\<close>

lemma loop_all_connection_errors:
  assumes "list_all2 (\<lambda>f e. f (mk_req hdrs url params) = Raised e \<and> is_connection_error e) fs es"
    and "int retries + int (length fs) = max_retries"
    and "net w = fs @ rest"
  shows "\<exists>w'. github_api_get_loop hdrs url params max_retries retries w = Some (JNull, w')
           \<and> net w' = rest
           \<and> sent w' = sent w @ replicate (length fs) (mk_req hdrs url params)
           \<and> slept w' = slept w @ map (\<lambda>(k, e). 5 * int k) (enumerate (retries + 1) es)
           \<and> map snd (error_log w') =
                map snd (error_log w)
                @ map (\<lambda>(k, e). ''Connection error on '' @ url @ '': '' @ exn_str e @ ''. Retry ''
                                  @ str_int (int k) @ ''/'' @ str_int max_retries)
                    (enumerate (retries + 1) es)
                @ [''Max retries exceeded for '' @ url]
           \<and> stdout w' = stdout w \<and> report w' = report w"
  using assms
proof (induction fs es arbitrary: retries w rule: list_all2_induct)
  case Nil
  then show ?case by (simp add: loop_exhausted)
next
  case (Cons f fs e es)
  let ?w2 = "advance (5 * int (retries + 1))
               (log_error (''Connection error on '' @ url @ '': '' @ exn_str e @ ''. Retry ''
                             @ str_int (int (retries + 1)) @ ''/'' @ str_int max_retries)
                  (answered (mk_req hdrs url params) w))"
  from Cons.prems Cons.hyps have step:
    "github_api_get_loop hdrs url params max_retries retries w =
       github_api_get_loop hdrs url params max_retries (retries + 1) ?w2"
    by (intro loop_connection_error [where f = f and rest = "fs @ rest"]) auto
  from Cons.prems have "int (retries + 1) + int (length fs) = max_retries" "net ?w2 = fs @ rest"
    by auto
  from Cons.IH [OF this] obtain w' where
    "github_api_get_loop hdrs url params max_retries (retries + 1) ?w2 = Some (JNull, w')"
    "net w' = rest"
    "sent w' = sent ?w2 @ replicate (length fs) (mk_req hdrs url params)"
    "slept w' = slept ?w2 @ map (\<lambda>(k, e). 5 * int k) (enumerate (retries + 1 + 1) es)"
    "map snd (error_log w') =
       map snd (error_log ?w2)
       @ map (\<lambda>(k, e). ''Connection error on '' @ url @ '': '' @ exn_str e @ ''. Retry ''
                         @ str_int (int k) @ ''/'' @ str_int max_retries)
           (enumerate (retries + 1 + 1) es)
       @ [''Max retries exceeded for '' @ url]"
    "stdout w' = stdout ?w2" "report w' = report ?w2"
    by blast
  with step show ?case
    by (intro exI [of _ w']) (simp add: replicate_app_Cons_same)
qed

subsection \<open>fetch\_repo\_details\_inventory.py: how one pass of the loop ends\<close>

lemma inv_try_raised:
  assumes "net w = f # rest" and "f (mk_req hdrs url params) = Raised e"
  shows "github_api_get_inv_try hdrs url params w =
           Some (Inl e, answered (mk_req hdrs url params) w)"
  using assms by (simp add: github_api_get_inv_try_def requests_get_Cons)

lemma inv_loop_rate_limit:
  assumes "int attempt < retries"
    and "net w = f # rest" and "f (mk_req hdrs url params) = Responded r"
    and "rate_limited_inv r"
    and "reset_time_of r (clock w) = Inr R" and "clock w \<le> R"
  shows "github_api_get_inv_loop hdrs url params retries attempt w =
           github_api_get_inv_loop hdrs url params retries (attempt + 1)
             (advance (R - clock w)
                (print_line (hourglass @ '' Rate limit hit. Sleeping for '' @ str_int (R - clock w)
                               @ '' seconds...'')
                   (answered (mk_req hdrs url params) w)))"
  using assms
  by (subst github_api_get_inv_loop.simps)
     (simp add: github_api_get_inv_try_def requests_get_Cons Let_def time_sleep_def)

lemma inv_loop_rate_limit_raises:
  assumes "int attempt < retries"
    and "net w = f # rest" and "f (mk_req hdrs url params) = Responded r"
    and "rate_limited_inv r"
    and "reset_time_of r (clock w) = Inr R" and "R < clock w"
  shows "github_api_get_inv_loop hdrs url params retries attempt w =
           Some (Inl (ValueError ''sleep length must be non-negative''),
                 print_line (hourglass @ '' Rate limit hit. Sleeping for '' @ str_int (R - clock w)
                               @ '' seconds...'')
                   (answered (mk_req hdrs url params) w))"
  using assms
  by (subst github_api_get_inv_loop.simps)
     (simp add: github_api_get_inv_try_def requests_get_Cons Let_def time_sleep_def)

lemma inv_loop_http_error:
  assumes "int attempt < retries"
    and "net w = f # rest" and "f (mk_req hdrs url params) = Responded r"
    and "\<not> rate_limited_inv r"
    and "raise_for_status r = Inl e" 
  shows "github_api_get_inv_loop hdrs url params retries attempt w =
           Some (Inr (JList []),
                 print_line (cross_mark @ '' Request failed: '' @ exn_str e)
                   (answered (mk_req hdrs url params) w))"
proof -
  from assms(5) have "is_request_exception e" "\<not> is_connection_error e"
    by (auto simp: raise_for_status_def split: if_splits)
  with assms show ?thesis
    by (subst github_api_get_inv_loop.simps)
       (simp add: github_api_get_inv_try_def requests_get_Cons)
qed

lemma inv_loop_ok:
  assumes "int attempt < retries"
    and "net w = f # rest" and "f (mk_req hdrs url params) = Responded r"
    and "\<not> rate_limited_inv r"
    and "raise_for_status r = Inr ()" and "resp_json r = Inr v"
  shows "github_api_get_inv_loop hdrs url params retries attempt w =
           Some (Inr v, answered (mk_req hdrs url params) w)"
  using assms
  by (subst github_api_get_inv_loop.simps)
     (simp add: github_api_get_inv_try_def requests_get_Cons)

lemma inv_loop_connection_error:
  assumes "int attempt < retries"
    and "net w = f # rest" and "f (mk_req hdrs url params) = Raised e"
    and "is_connection_error e"
  shows "github_api_get_inv_loop hdrs url params retries attempt w =
           github_api_get_inv_loop hdrs url params retries (attempt + 1)
             (advance (2 ^ attempt)
                (print_line (repeat_sign @ '' Network error on attempt '' @ str_int (int attempt + 1)
                               @ '': '' @ exn_str e)
                   (answered (mk_req hdrs url params) w)))"
  using assms(1,4) inv_try_raised [OF assms(2,3)]
  by (subst github_api_get_inv_loop.simps) (simp add: Let_def)

lemma inv_loop_end:
  assumes "\<not> int attempt < retries"
  shows "github_api_get_inv_loop hdrs url params retries attempt w = Some (Inr (JList []), w)"
  using assms by (subst github_api_get_inv_loop.simps) simp

lemma inv_loop_all_connection_errors:
  assumes "list_all2 (\<lambda>f e. f (mk_req hdrs url params) = Raised e \<and> is_connection_error e) fs es"
    and "int attempt + int (length fs) = retries"
    and "net w = fs @ rest"
  shows "\<exists>w'. github_api_get_inv_loop hdrs url params retries attempt w = Some (Inr (JList []), w')
           \<and> net w' = rest
           \<and> sent w' = sent w @ replicate (length fs) (mk_req hdrs url params)
           \<and> slept w' = slept w @ map (\<lambda>(k, e). 2 ^ k) (enumerate attempt es)
           \<and> stdout w' =
                stdout w
                @ map (\<lambda>(k, e). repeat_sign @ '' Network error on attempt '' @ str_int (int k + 1)
                                  @ '': '' @ exn_str e)
                    (enumerate attempt es)
           \<and> error_log w' = error_log w \<and> report w' = report w"
  using assms
proof (induction fs es arbitrary: attempt w rule: list_all2_induct)
  case Nil
  then show ?case by (simp add: inv_loop_end)
next
  case (Cons f fs e es)
  let ?w2 = "advance (2 ^ attempt)
               (print_line (repeat_sign @ '' Network error on attempt '' @ str_int (int attempt + 1)
                              @ '': '' @ exn_str e)
                  (answered (mk_req hdrs url params) w))"
  from Cons.prems Cons.hyps have step:
    "github_api_get_inv_loop hdrs url params retries attempt w =
       github_api_get_inv_loop hdrs url params retries (attempt + 1) ?w2"
    by (intro inv_loop_connection_error [where f = f and rest = "fs @ rest"]) auto
  from Cons.prems have "int (attempt + 1) + int (length fs) = retries" "net ?w2 = fs @ rest"
    by auto
  from Cons.IH [OF this] obtain w' where
    "github_api_get_inv_loop hdrs url params retries (attempt + 1) ?w2 = Some (Inr (JList []), w')"
    "net w' = rest"
    "sent w' = sent ?w2 @ replicate (length fs) (mk_req hdrs url params)"
    "slept w' = slept ?w2 @ map (\<lambda>(k, e). 2 ^ k) (enumerate (attempt + 1) es)"
    "stdout w' =
       stdout ?w2
       @ map (\<lambda>(k, e). repeat_sign @ '' Network error on attempt '' @ str_int (int k + 1)
                         @ '': '' @ exn_str e)
           (enumerate (attempt + 1) es)"
    "error_log w' = error_log ?w2" "report w' = report ?w2"
    by blast
  with step show ?case
    by (intro exI [of _ w']) (simp add: replicate_app_Cons_same)
qed

subsection \<open>Running the client on a concrete world\<close>

lemmas run_defs =
  github_api_get_def github_api_get_loop.simps github_api_get_try_def
  github_api_get_inv_def github_api_get_inv_loop.simps github_api_get_inv_try_def
  requests_get_def rate_limited_def rate_limited_inv_def raise_for_status_def
  header_get_def header_in_def
  reset_time_of_def time_sleep_def advance_def print_line_def log_error_def answered_def
  lower_def lower_char_def str_int_def str_nat.simps digit_val_def sublist_code Let_def
  world0_def always_def page_def response200_def response403_def response404_def

subsection \<open>Claims about the API client\<close>

text \<open>
  C2. A rate-limit response causes a sleep and a retry of the same request, and these
  retries are not counted against the retry budget.

  \<^verbatim>\<open>fetch_repo_details.py\<close> does so: \<open>loop_rate_limit\<close> above goes on with \<open>retries\<close> as it
  was. \<^verbatim>\<open>fetch_repo_details_inventory.py\<close> does not: its \<^verbatim>\<open>continue\<close> moves the
  \<^verbatim>\<open>for attempt in range(retries)\<close> loop to the next attempt. With three rate-limit
  responses followed by a page, the first script returns the page after three sleeps;
  the second sleeps three times, never sends the fourth request and returns \<^verbatim>\<open>[]\<close>.
\<close>

theorem rate_limit_retries_counted_inv:
  "github_api_get [] ''u'' None 5
     (world0\<lparr>net := [always (Responded (response403 ''1010'')),
                      always (Responded (response403 ''1020'')),
                      always (Responded (response403 ''1030'')),
                      page [JInt 7]]\<rparr>)
   = Some (JList [JInt 7],
           world0\<lparr>net := [], clock := 1030, slept := [10, 10, 10],
                   stdout := [''Rate limit hit. Sleeping for 10 seconds...'',
                              ''Rate limit hit. Sleeping for 10 seconds...'',
                              ''Rate limit hit. Sleeping for 10 seconds...''],
                   sent := [mk_req [] ''u'' None, mk_req [] ''u'' None, mk_req [] ''u'' None,
                            mk_req [] ''u'' None]\<rparr>)
   \<and> github_api_get_inv [] ''u'' None 3
     (world0\<lparr>net := [always (Responded (response403 ''1010'')),
                      always (Responded (response403 ''1020'')),
                      always (Responded (response403 ''1030'')),
                      page [JInt 7]]\<rparr>)
   = Some (Inr (JList []),
           world0\<lparr>net := [page [JInt 7]], clock := 1030, slept := [10, 10, 10],
                   stdout := [hourglass @ '' Rate limit hit. Sleeping for 10 seconds...'',
                              hourglass @ '' Rate limit hit. Sleeping for 10 seconds...'',
                              hourglass @ '' Rate limit hit. Sleeping for 10 seconds...''],
                   sent := [mk_req [] ''u'' None, mk_req [] ''u'' None, mk_req [] ''u'' None]\<rparr>)"
  by (simp add: run_defs)

text \<open>
  C3. On a rate-limit response with reset time \<open>R\<close> the client sleeps \<open>max (R - now) 1\<close>.

  \<^verbatim>\<open>fetch_repo_details.py\<close> does so (\<open>loop_rate_limit\<close>), and so does \<^verbatim>\<open>fetch_repo_list.py\<close>.
  \<^verbatim>\<open>fetch_repo_details_inventory.py\<close> computes \<open>R - now\<close> with no lower bound: with a reset
  time five seconds in the past the first script sleeps one second and retries, the
  second passes \<open>-5\<close> to \<^verbatim>\<open>time.sleep\<close>, whose \<^verbatim>\<open>ValueError\<close> leaves \<^verbatim>\<open>github_api_get\<close>.
\<close>

theorem sleep_not_floored_inv:
  "github_api_get [] ''u'' None 5
     (world0\<lparr>net := [always (Responded (response403 ''995'')), page [JInt 7]]\<rparr>)
   = Some (JList [JInt 7],
           world0\<lparr>net := [], clock := 1001, slept := [1],
                   stdout := [''Rate limit hit. Sleeping for 1 seconds...''],
                   sent := [mk_req [] ''u'' None, mk_req [] ''u'' None]\<rparr>)
   \<and> github_api_get_inv [] ''u'' None 3
     (world0\<lparr>net := [always (Responded (response403 ''995'')), page [JInt 7]]\<rparr>)
   = Some (Inl (ValueError ''sleep length must be non-negative''),
           world0\<lparr>net := [page [JInt 7]],
                   stdout := [hourglass @ '' Rate limit hit. Sleeping for -5 seconds...''],
                   sent := [mk_req [] ''u'' None]\<rparr>)"
  by (simp add: run_defs)

text \<open>
  C4. A response whose status is neither a success nor a rate-limit condition: the client
  appends one entry with the status and the body to the error log, returns the failure
  value and does not retry.

  As stated this fails for \<^verbatim>\<open>fetch_repo_details_inventory.py\<close>, whose client never writes
  the error log: on a 404 it prints one line, returns \<^verbatim>\<open>[]\<close> after the one request, and
  the error log stays empty.
\<close>

theorem other_status_inv_counterexample:
  "github_api_get_inv [] ''u'' None 3 (world0\<lparr>net := [always (Responded response404)]\<rparr>)
   = Some (Inr (JList []),
           world0\<lparr>net := [], error_log := [],
                   stdout := [cross_mark @ '' Request failed: 404 Client Error: Not Found for url: https://api.github.com/x''],
                   sent := [mk_req [] ''u'' None]\<rparr>)"
  by (simp add: run_defs)

text \<open>
  C4 as amended. In \<^verbatim>\<open>fetch_repo_details.py\<close>, a response that is not rate-limited and
  whose status is neither 200 nor 201 ends \<^verbatim>\<open>github_api_get\<close> at once: the result is
  \<^verbatim>\<open>None\<close>, one entry \<^verbatim>\<open>Failed GET <url>: <status> <body>\<close> is appended to the error log, and
  the request is not sent again. In \<^verbatim>\<open>fetch_repo_details_inventory.py\<close>, a response that
  is not rate-limited and whose status lies in 400..599 ends \<^verbatim>\<open>github_api_get\<close> at once:
  the result is \<^verbatim>\<open>[]\<close>, one line \<^verbatim>\<open>Request failed: ...\<close> is printed, the error log is left
  as it is, and the request is not sent again. (\<open>answered\<close> is the world after exactly one
  request: one answer taken from \<open>net\<close>, one request added to \<open>sent\<close>.)
\<close>

theorem other_status_not_retried:
  assumes "net w = f # rest" and "f (mk_req hdrs url params) = Responded r"
  shows "(int retries < max_retries \<and> \<not> rate_limited r
            \<and> status_code r \<noteq> 200 \<and> status_code r \<noteq> 201 \<longrightarrow>
          github_api_get_loop hdrs url params max_retries retries w =
            Some (JNull,
                  log_error (''Failed GET '' @ url @ '': '' @ str_int (status_code r) @ '' ''
                               @ resp_text r)
                    (answered (mk_req hdrs url params) w)))
       \<and> (int attempt < n \<and> \<not> rate_limited_inv r
            \<and> 400 \<le> status_code r \<and> status_code r < 600 \<longrightarrow>
          github_api_get_inv_loop hdrs url params n attempt w =
            Some (Inr (JList []),
                  print_line (cross_mark @ '' Request failed: '' @ str_int (status_code r)
                                @ (if status_code r < 500 then '' Client Error: ''
                                   else '' Server Error: '')
                                @ reason r @ '' for url: '' @ resp_url r)
                    (answered (mk_req hdrs url params) w))
          \<and> error_log (answered (mk_req hdrs url params) w) = error_log w)"
proof (intro conjI impI)
  assume "int retries < max_retries \<and> \<not> rate_limited r
            \<and> status_code r \<noteq> 200 \<and> status_code r \<noteq> 201"
  then show "github_api_get_loop hdrs url params max_retries retries w =
            Some (JNull,
                  log_error (''Failed GET '' @ url @ '': '' @ str_int (status_code r) @ '' ''
                               @ resp_text r)
                    (answered (mk_req hdrs url params) w))"
    using loop_failed [OF _ assms] by blast
next
  assume a: "int attempt < n \<and> \<not> rate_limited_inv r
            \<and> 400 \<le> status_code r \<and> status_code r < 600"
  then have "raise_for_status r =
      Inl (HTTPError (str_int (status_code r)
             @ (if status_code r < 500 then '' Client Error: '' else '' Server Error: '')
             @ reason r @ '' for url: '' @ resp_url r))"
    by (simp add: raise_for_status_def)
  from inv_loop_http_error [OF _ assms _ this] a
  show "github_api_get_inv_loop hdrs url params n attempt w =
            Some (Inr (JList []),
                  print_line (cross_mark @ '' Request failed: '' @ str_int (status_code r)
                                @ (if status_code r < 500 then '' Client Error: ''
                                   else '' Server Error: '')
                                @ reason r @ '' for url: '' @ resp_url r)
                    (answered (mk_req hdrs url params) w))"
    by simp
next
  show "error_log (answered (mk_req hdrs url params) w) = error_log w"
    by simp
qed

theorem other_status_not_retried_witness:
  "github_api_get_loop [] ''u'' None 5 0 (world0\<lparr>net := [always (Responded response404)]\<rparr>)
     = Some (JNull,
             world0\<lparr>net := [], error_log := [(1000, ''Failed GET u: 404 gone'')],
                     sent := [mk_req [] ''u'' None]\<rparr>)
   \<and> github_api_get_inv_loop [] ''u'' None 3 0 (world0\<lparr>net := [always (Responded response404)]\<rparr>)
     = Some (Inr (JList []),
             world0\<lparr>net := [], error_log := [],
                     stdout := [cross_mark @ '' Request failed: 404 Client Error: Not Found for url: https://api.github.com/x''],
                     sent := [mk_req [] ''u'' None]\<rparr>)"
  using other_status_not_retried
    [where w = "world0\<lparr>net := [always (Responded response404)]\<rparr>"
       and f = "always (Responded response404)" and rest = "[]" and hdrs = "[]" and url = "''u''"
       and params = None and r = response404 and retries = 0 and max_retries = 5
       and attempt = 0 and n = 3]
  by (simp add: world0_def always_def response404_def rate_limited_def rate_limited_inv_def
        log_error_def print_line_def answered_def str_int_def str_nat.simps)

text \<open>
  C5. A request that meets a connection error on every attempt: the client retries up to
  its bound with a delay that grows per attempt, appends one error-log entry per failed
  attempt, and returns the failure value.

  As stated this fails for \<^verbatim>\<open>fetch_repo_details_inventory.py\<close>: after three connection
  errors it has slept 1, 2 and 4 seconds and printed three lines, and the error log is
  still empty.
\<close>

theorem connection_errors_inv_counterexample:
  "github_api_get_inv [] ''u'' None 3
     (world0\<lparr>net := [always (Raised (ConnectionError ''down'')),
                      always (Raised (ConnectionError ''down'')),
                      always (Raised (ConnectionError ''down''))]\<rparr>)
   = Some (Inr (JList []),
           world0\<lparr>net := [], clock := 1007, slept := [1, 2, 4], error_log := [],
                   stdout := [repeat_sign @ '' Network error on attempt 1: down'',
                              repeat_sign @ '' Network error on attempt 2: down'',
                              repeat_sign @ '' Network error on attempt 3: down''],
                   sent := [mk_req [] ''u'' None, mk_req [] ''u'' None, mk_req [] ''u'' None]\<rparr>)"
  by (simp add: run_defs)

text \<open>
  C5 as amended. Let every one of the next answers raise a connection error, as many as
  the bound allows. \<^verbatim>\<open>github_api_get\<close> of \<^verbatim>\<open>fetch_repo_details.py\<close> then sends the request
  \<open>max_retries\<close> times, sleeps \<open>5 * k\<close> seconds after the \<open>k\<close>-th failure, appends one
  \<^verbatim>\<open>Connection error\<close> entry per failed attempt and a last entry \<^verbatim>\<open>Max retries exceeded\<close> to
  the error log, and returns \<^verbatim>\<open>None\<close>. \<^verbatim>\<open>github_api_get\<close> of
  \<^verbatim>\<open>fetch_repo_details_inventory.py\<close> sends the request \<open>retries\<close> times, sleeps \<open>2 ^ k\<close>
  seconds after the failure of attempt \<open>k\<close> (counted from 0), prints one line per failed
  attempt, leaves the error log as it is, and returns \<^verbatim>\<open>[]\<close>. Neither raises.
\<close>

theorem connection_errors_exhaust:
  assumes "list_all2 (\<lambda>f e. f (mk_req hdrs url params) = Raised e \<and> is_connection_error e) fs es"
    and "net w = fs @ rest"
  shows "(int (length fs) = max_retries \<longrightarrow>
          (\<exists>w'. github_api_get hdrs url params max_retries w = Some (JNull, w')
             \<and> net w' = rest
             \<and> sent w' = sent w @ replicate (length fs) (mk_req hdrs url params)
             \<and> slept w' = slept w @ map (\<lambda>(k, e). 5 * int k) (enumerate 1 es)
             \<and> map snd (error_log w') =
                  map snd (error_log w)
                  @ map (\<lambda>(k, e). ''Connection error on '' @ url @ '': '' @ exn_str e
                                    @ ''. Retry '' @ str_int (int k) @ ''/'' @ str_int max_retries)
                      (enumerate 1 es)
                  @ [''Max retries exceeded for '' @ url]
             \<and> stdout w' = stdout w))
       \<and> (int (length fs) = retries \<longrightarrow>
          (\<exists>w'. github_api_get_inv hdrs url params retries w = Some (Inr (JList []), w')
             \<and> net w' = rest
             \<and> sent w' = sent w @ replicate (length fs) (mk_req hdrs url params)
             \<and> slept w' = slept w @ map (\<lambda>(k, e). 2 ^ k) (enumerate 0 es)
             \<and> stdout w' =
                  stdout w
                  @ map (\<lambda>(k, e). repeat_sign @ '' Network error on attempt ''
                                    @ str_int (int k + 1) @ '': '' @ exn_str e)
                      (enumerate 0 es)
             \<and> error_log w' = error_log w))"
proof (intro conjI impI)
  assume "int (length fs) = max_retries"
  then have "int 0 + int (length fs) = max_retries" by simp
  from loop_all_connection_errors [OF assms(1) this assms(2)]
  show "\<exists>w'. github_api_get hdrs url params max_retries w = Some (JNull, w')
             \<and> net w' = rest
             \<and> sent w' = sent w @ replicate (length fs) (mk_req hdrs url params)
             \<and> slept w' = slept w @ map (\<lambda>(k, e). 5 * int k) (enumerate 1 es)
             \<and> map snd (error_log w') =
                  map snd (error_log w)
                  @ map (\<lambda>(k, e). ''Connection error on '' @ url @ '': '' @ exn_str e
                                    @ ''. Retry '' @ str_int (int k) @ ''/'' @ str_int max_retries)
                      (enumerate 1 es)
                  @ [''Max retries exceeded for '' @ url]
             \<and> stdout w' = stdout w"
    by (auto simp: github_api_get_def)
next
  assume "int (length fs) = retries"
  then have "int 0 + int (length fs) = retries" by simp
  from inv_loop_all_connection_errors [OF assms(1) this assms(2)]
  show "\<exists>w'. github_api_get_inv hdrs url params retries w = Some (Inr (JList []), w')
             \<and> net w' = rest
             \<and> sent w' = sent w @ replicate (length fs) (mk_req hdrs url params)
             \<and> slept w' = slept w @ map (\<lambda>(k, e). 2 ^ k) (enumerate 0 es)
             \<and> stdout w' =
                  stdout w
                  @ map (\<lambda>(k, e). repeat_sign @ '' Network error on attempt ''
                                    @ str_int (int k + 1) @ '': '' @ exn_str e)
                      (enumerate 0 es)
             \<and> error_log w' = error_log w"
    by (auto simp: github_api_get_inv_def)
qed

theorem connection_errors_exhaust_witness:
  "(\<exists>w'. github_api_get [] ''u'' None 2
            (world0\<lparr>net := [always (Raised (ConnectionError ''down'')),
                             always (Raised (ChunkedEncodingError ''cut''))]\<rparr>) = Some (JNull, w')
        \<and> net w' = []
        \<and> sent w' = [mk_req [] ''u'' None, mk_req [] ''u'' None]
        \<and> slept w' = [5, 10]
        \<and> map snd (error_log w') =
             [''Connection error on u: down. Retry 1/2'',
              ''Connection error on u: cut. Retry 2/2'',
              ''Max retries exceeded for u'']
        \<and> stdout w' = [])
   \<and> (\<exists>w'. github_api_get_inv [] ''u'' None 2
            (world0\<lparr>net := [always (Raised (ConnectionError ''down'')),
                             always (Raised (ChunkedEncodingError ''cut''))]\<rparr>) = Some (Inr (JList []), w')
        \<and> net w' = []
        \<and> sent w' = [mk_req [] ''u'' None, mk_req [] ''u'' None]
        \<and> slept w' = [1, 2]
        \<and> stdout w' = [repeat_sign @ '' Network error on attempt 1: down'',
                        repeat_sign @ '' Network error on attempt 2: cut'']
        \<and> error_log w' = [])"
  using connection_errors_exhaust
    [where hdrs = "[]" and url = "''u''" and params = None
       and fs = "[always (Raised (ConnectionError ''down'')),
                  always (Raised (ChunkedEncodingError ''cut''))]"
       and es = "[ConnectionError ''down'', ChunkedEncodingError ''cut'']"
       and w = "world0\<lparr>net := [always (Raised (ConnectionError ''down'')),
                               always (Raised (ChunkedEncodingError ''cut''))]\<rparr>"
       and rest = "[]" and max_retries = 2 and retries = 2]
  by (simp add: world0_def always_def str_int_def str_nat.simps enumerate_simps)

section \<open>The paginators\<close>

text \<open>
  An answer of the network \<open>serves\<close> the page \<open>items\<close> when, whatever the request, it is a
  response with status 200 whose body decodes to the list \<open>items\<close>.
\<close>

definition serves :: "(request \<Rightarrow> outcome) \<Rightarrow> json list \<Rightarrow> bool" where
  "serves f items =
     (\<forall>req. \<exists>r. f req = Responded r \<and> status_code r = 200 \<and> resp_json r = Inr (JList items))"

lemma serves_page [simp]: "serves (page items) items"
  by (simp add: serves_def page_def always_def response200_def)

text \<open>The requests of the three paginators for page \<open>k\<close>.\<close>

definition repos_request :: "(string \<times> string) list \<Rightarrow> string \<Rightarrow> int \<Rightarrow> request" where
  "repos_request hdrs org k =
     mk_req hdrs (org_repos_url org)
       (Some [(''per_page'', PInt 100), (''page'', PInt k), (''type'', PStr ''all'')])"

definition repos_request_inv :: "(string \<times> string) list \<Rightarrow> string \<Rightarrow> int \<Rightarrow> request" where
  "repos_request_inv hdrs org k =
     mk_req hdrs (org_repos_url org) (Some [(''per_page'', PInt 100), (''page'', PInt k)])"

definition repos_request_list :: "string \<Rightarrow> string \<Rightarrow> int \<Rightarrow> int \<Rightarrow> request" where
  "repos_request_list org token per_page k =
     mk_req [(''Authorization'', ''token '' @ token)] (org_repos_url org)
       (Some [(''per_page'', PInt per_page), (''page'', PInt k)])"

text \<open>The world after the requests \<open>reqs\<close> have been answered, with \<open>rest\<close> left in \<open>net\<close>.\<close>

definition requested :: "request list \<Rightarrow> (request \<Rightarrow> outcome) list \<Rightarrow> world \<Rightarrow> world" where
  "requested reqs rest w = w\<lparr>net := rest, sent := sent w @ reqs\<rparr>"

lemma requested_fields [simp]:
  "net (requested reqs rest w) = rest"
  "clock (requested reqs rest w) = clock w"
  "slept (requested reqs rest w) = slept w"
  "error_log (requested reqs rest w) = error_log w"
  "app_log (requested reqs rest w) = app_log w"
  "stdout (requested reqs rest w) = stdout w"
  "sent (requested reqs rest w) = sent w @ reqs"
  "report (requested reqs rest w) = report w"
  by (simp_all add: requested_def)

lemma requested_Nil: "net w = rest \<Longrightarrow> requested [] rest w = w"
  by (auto simp: requested_def)

lemma answered_requested:
  "net w = f # rest \<Longrightarrow> answered req w = requested [req] rest w"
  by (simp add: answered_def requested_def)

lemma requested_requested [simp]:
  "requested reqs' rest' (requested reqs rest w) = requested (reqs @ reqs') rest' w"
  by (simp add: requested_def)

lemma map_upt_shift:
  "map (\<lambda>i. g (k + int i)) [0..<Suc n] = g k # map (\<lambda>i. g (k + 1 + int i)) [0..<n]"
  by (simp add: map_upt_Suc ac_simps del: upt_Suc)

subsection \<open>fetch\_repo\_details.py\<close>

lemma api_serves:
  assumes "net w = f # rest" and "serves f items"
  shows "github_api_get hdrs url params 5 w =
           Some (JList items, requested [mk_req hdrs url params] rest w)"
proof -
  from assms(2) obtain r where r: "f (mk_req hdrs url params) = Responded r"
    "status_code r = 200" "resp_json r = Inr (JList items)"
    unfolding serves_def by blast
  then show ?thesis
    using loop_ok [where retries = 0 and max_retries = 5 and w = w and f = f and rest = rest
        and hdrs = hdrs and url = url and params = params and r = r and v = "JList items"] assms(1)
    by (simp add: github_api_get_def answered_requested)
qed

lemma get_repos_loop_full_pages:
  assumes "list_all2 serves fs pages" and "\<forall>p\<in>set pages. length p = 100"
    and "net w = fs @ rest"
  shows "get_repos_loop hdrs org k repos w =
           get_repos_loop hdrs org (k + int (length fs)) (repos @ concat pages)
             (requested (map (\<lambda>i. repos_request hdrs org (k + int i)) [0..<length fs]) rest w)"
  using assms
proof (induction fs pages arbitrary: k repos w rule: list_all2_induct)
  case Nil
  then show ?case by (simp add: requested_Nil)
next
  case (Cons f fs p pages)
  from Cons.prems have net: "net w = f # (fs @ rest)" and len: "length p = 100"
    and all: "\<forall>p\<in>set pages. length p = 100"
    by auto
  let ?w1 = "requested [repos_request hdrs org k] (fs @ rest) w"
  have "get_repos_loop hdrs org k repos w = get_repos_loop hdrs org (k + 1) (repos @ p) ?w1"
    using api_serves [OF net Cons.hyps(1)] len
    by (subst get_repos_loop.simps) (auto simp: Let_def repos_request_def)
  also have "\<dots> = get_repos_loop hdrs org (k + 1 + int (length fs)) ((repos @ p) @ concat pages)
       (requested (map (\<lambda>i. repos_request hdrs org (k + 1 + int i)) [0..<length fs]) rest ?w1)"
    by (rule Cons.IH [OF all]) simp
  finally show ?case
    by (simp add: map_upt_shift ac_simps del: upt_Suc)
qed

lemma get_repos_loop_short_page:
  assumes "net w = f # rest" and "serves f p" and "length p < 100"
  shows "get_repos_loop hdrs org k repos w =
           Some (Inr (repos @ p), requested [repos_request hdrs org k] rest w)"
  using api_serves [OF assms(1,2)] assms(3)
  by (subst get_repos_loop.simps) (auto simp: Let_def repos_request_def)

lemma get_repos_loop_falsy:
  assumes "github_api_get hdrs (org_repos_url org)
             (Some [(''per_page'', PInt 100), (''page'', PInt k), (''type'', PStr ''all'')]) 5 w
           = Some (v, w')"
    and "\<not> truthy v"
  shows "get_repos_loop hdrs org k repos w = Some (Inr repos, w')"
  using assms by (subst get_repos_loop.simps) (simp add: Let_def)

subsection \<open>fetch\_repo\_details\_inventory.py\<close>

lemma api_inv_serves:
  assumes "net w = f # rest" and "serves f items"
  shows "github_api_get_inv hdrs url params 3 w =
           Some (Inr (JList items), requested [mk_req hdrs url params] rest w)"
proof -
  from assms(2) obtain r where r: "f (mk_req hdrs url params) = Responded r"
    "status_code r = 200" "resp_json r = Inr (JList items)"
    unfolding serves_def by blast
  then have "\<not> rate_limited_inv r" "raise_for_status r = Inr ()"
    by (simp_all add: rate_limited_inv_def raise_for_status_def)
  with r show ?thesis
    using inv_loop_ok [where attempt = 0 and retries = 3 and w = w and f = f and rest = rest
        and hdrs = hdrs and url = url and params = params and r = r and v = "JList items"] assms(1)
    by (simp add: github_api_get_inv_def answered_requested)
qed

lemma get_repos_inv_loop_full_pages:
  assumes "list_all2 serves fs pages" and "\<forall>p\<in>set pages. length p = 100"
    and "net w = fs @ rest"
  shows "get_repos_inv_loop hdrs org k repos w =
           get_repos_inv_loop hdrs org (k + int (length fs)) (repos @ concat pages)
             (requested (map (\<lambda>i. repos_request_inv hdrs org (k + int i)) [0..<length fs]) rest w)"
  using assms
proof (induction fs pages arbitrary: k repos w rule: list_all2_induct)
  case Nil
  then show ?case by (simp add: requested_Nil)
next
  case (Cons f fs p pages)
  from Cons.prems have net: "net w = f # (fs @ rest)" and len: "length p = 100"
    and all: "\<forall>p\<in>set pages. length p = 100"
    by auto
  let ?w1 = "requested [repos_request_inv hdrs org k] (fs @ rest) w"
  have "get_repos_inv_loop hdrs org k repos w =
          get_repos_inv_loop hdrs org (k + 1) (repos @ p) ?w1"
    using api_inv_serves [OF net Cons.hyps(1)] len
    by (subst get_repos_inv_loop.simps) (auto simp: Let_def repos_request_inv_def)
  also have "\<dots> = get_repos_inv_loop hdrs org (k + 1 + int (length fs)) ((repos @ p) @ concat pages)
       (requested (map (\<lambda>i. repos_request_inv hdrs org (k + 1 + int i)) [0..<length fs]) rest ?w1)"
    by (rule Cons.IH [OF all]) simp
  finally show ?case
    by (simp add: map_upt_shift ac_simps del: upt_Suc)
qed

lemma get_repos_inv_loop_short_page:
  assumes "net w = f # rest" and "serves f p" and "length p < 100"
  shows "get_repos_inv_loop hdrs org k repos w =
           Some (Inr (repos @ p), requested [repos_request_inv hdrs org k] rest w)"
  using api_inv_serves [OF assms(1,2)] assms(3)
  by (subst get_repos_inv_loop.simps) (auto simp: Let_def repos_request_inv_def)

lemma get_repos_inv_loop_falsy:
  assumes "github_api_get_inv hdrs (org_repos_url org)
             (Some [(''per_page'', PInt 100), (''page'', PInt k)]) 3 w
           = Some (Inr v, w')"
    and "\<not> truthy v"
  shows "get_repos_inv_loop hdrs org k repos w = Some (Inr repos, w')"
  using assms by (subst get_repos_inv_loop.simps) (simp add: Let_def)

subsection \<open>fetch\_repo\_list.py\<close>

lemma get_github_repos_loop_pages:
  assumes "list_all2 serves fs pages" and "\<forall>p\<in>set pages. p \<noteq> []"
    and "net w = fs @ rest"
  shows "get_github_repos_loop org token per_page k repos w =
           get_github_repos_loop org token per_page (k + int (length fs)) (repos @ concat pages)
             (requested (map (\<lambda>i. repos_request_list org token per_page (k + int i)) [0..<length fs])
                rest w)"
  using assms
proof (induction fs pages arbitrary: k repos w rule: list_all2_induct)
  case Nil
  then show ?case by (simp add: requested_Nil)
next
  case (Cons f fs p pages)
  from Cons.prems have net: "net w = f # (fs @ rest)" and ne: "p \<noteq> []"
    and all: "\<forall>p\<in>set pages. p \<noteq> []"
    by auto
  from Cons.hyps(1) obtain r where r: "f (repos_request_list org token per_page k) = Responded r"
    "status_code r = 200" "resp_json r = Inr (JList p)"
    unfolding serves_def by blast
  then have nrl: "\<not> rate_limited_list r"
    by (simp add: rate_limited_list_def)
  let ?w1 = "requested [repos_request_list org token per_page k] (fs @ rest) w"
  have "get_github_repos_loop org token per_page k repos w =
          get_github_repos_loop org token per_page (k + 1) (repos @ p) ?w1"
    using r nrl ne net
    by (subst get_github_repos_loop.simps)
       (simp add: Let_def repos_request_list_def requests_get_Cons answered_requested)
  also have "\<dots> = get_github_repos_loop org token per_page (k + 1 + int (length fs))
       ((repos @ p) @ concat pages)
       (requested (map (\<lambda>i. repos_request_list org token per_page (k + 1 + int i)) [0..<length fs])
          rest ?w1)"
    by (rule Cons.IH [OF all]) simp
  finally show ?case
    by (simp add: map_upt_shift ac_simps del: upt_Suc)
qed

lemma get_github_repos_loop_empty_page:
  assumes "net w = f # rest" and "serves f []"
  shows "get_github_repos_loop org token per_page k repos w =
           Some (Inr repos, requested [repos_request_list org token per_page k] rest w)"
proof -
  from assms(2) obtain r where r: "f (repos_request_list org token per_page k) = Responded r"
    "status_code r = 200" "resp_json r = Inr (JList [])"
    unfolding serves_def by blast
  then have "\<not> rate_limited_list r"
    by (simp add: rate_limited_list_def)
  with r assms(1) show ?thesis
    by (subst get_github_repos_loop.simps)
       (simp add: Let_def repos_request_list_def requests_get_Cons answered_requested)
qed

lemma get_github_repos_loop_failure:
  assumes "net w = f # rest" and "f (repos_request_list org token per_page k) = Responded r"
    and "\<not> rate_limited_list r" and "status_code r \<noteq> 200"
    and "resp_json r = Inr j" and "py_get j ''message'' (JStr ''Unknown error'') = Inr m"
  shows "get_github_repos_loop org token per_page k repos w =
           Some (Inr repos,
                 logging ''ERROR'' (cross_mark @ '' Error: '' @ str_int (status_code r) @ '' - '' @ py_str m)
                   (print_line (cross_mark @ '' Error: '' @ str_int (status_code r) @ '' - '' @ py_str m)
                      (requested [repos_request_list org token per_page k] rest w)))"
  using assms
  by (subst get_github_repos_loop.simps)
     (simp add: Let_def repos_request_list_def requests_get_Cons answered_requested bind_exn_def)

subsection \<open>Claims about the paginators\<close>

lemmas run_list_defs =
  get_github_repos_def get_github_repos_loop.simps rate_limited_list_def reset_time_or_0_def
  header_get_def header_in_def lower_def lower_char_def
  requests_get_def org_repos_url_def repos_request_list_def bind_exn_def logging_def
  print_line_def advance_def str_int_def str_nat.simps Let_def
  world0_def always_def page_def response200_def response404_def

text \<open>
  C1. The paginator (\<^verbatim>\<open>get_repos\<close>, \<^verbatim>\<open>get_github_repos\<close>) returns the concatenation of the
  pages it requested, in order, and stops requesting at the first page that is empty or
  holds fewer items than the page size.

  As stated this fails for \<^verbatim>\<open>get_github_repos\<close> of \<^verbatim>\<open>fetch_repo_list.py\<close>, which has no test
  on the length of a page: with page size 100 and pages of one item, one item and no
  item, it does not stop at the first page, which is short, but sends three requests
  and returns both items.
\<close>

theorem get_github_repos_counterexample:
  "get_github_repos ''o'' ''t'' 100 (world0\<lparr>net := [page [JInt 1], page [JInt 2], page []]\<rparr>)
   = Some (Inr [JInt 1, JInt 2],
           world0\<lparr>net := [],
                   sent := [repos_request_list ''o'' ''t'' 100 1,
                            repos_request_list ''o'' ''t'' 100 2,
                            repos_request_list ''o'' ''t'' 100 3]\<rparr>)"
  by (simp add: run_list_defs)

text \<open>
  C1 as amended. Both paginators return the concatenation of the pages they requested,
  in order. \<^verbatim>\<open>get_repos\<close> of \<^verbatim>\<open>fetch_repo_details.py\<close> requests pages 1, 2, ... and stops at
  the first page with fewer than 100 items (an empty one included): after full pages
  \<open>pages\<close> and a shorter page \<open>lastp\<close> it has sent \<open>length pages + 1\<close> requests and left the
  rest of the answers untouched. \<^verbatim>\<open>get_github_repos\<close> of \<^verbatim>\<open>fetch_repo_list.py\<close> stops at the
  first empty page only: after non-empty pages \<open>qages\<close> of any length and an empty page it
  has sent \<open>length qages + 1\<close> requests.
\<close>

theorem paginators_concatenate:
  assumes "list_all2 serves fs pages" and "\<forall>p\<in>set pages. length p = 100"
    and "serves f lastp" and "length lastp < 100"
    and "list_all2 serves gs qages" and "\<forall>p\<in>set qages. p \<noteq> []"
    and "serves g []"
  shows "get_repos hdrs org (w\<lparr>net := fs @ f # rest\<rparr>)
           = Some (Inr (concat pages @ lastp),
                   requested (map (\<lambda>i. repos_request hdrs org (1 + int i)) [0..<length fs + 1])
                     rest w)
       \<and> get_github_repos org token per_page (w\<lparr>net := gs @ g # rest\<rparr>)
           = Some (Inr (concat qages),
                   requested (map (\<lambda>i. repos_request_list org token per_page (1 + int i))
                                [0..<length gs + 1])
                     rest w)"
proof
  let ?w = "w\<lparr>net := fs @ f # rest\<rparr>"
  have "get_repos hdrs org ?w =
          get_repos_loop hdrs org (1 + int (length fs)) ([] @ concat pages)
            (requested (map (\<lambda>i. repos_request hdrs org (1 + int i)) [0..<length fs]) (f # rest) ?w)"
    unfolding get_repos_def
    by (rule get_repos_loop_full_pages [OF assms(1,2)]) simp
  also have "\<dots> = Some (Inr (([] @ concat pages) @ lastp),
       requested [repos_request hdrs org (1 + int (length fs))] rest
         (requested (map (\<lambda>i. repos_request hdrs org (1 + int i)) [0..<length fs]) (f # rest) ?w))"
    by (rule get_repos_loop_short_page [OF _ assms(3,4)]) simp
  finally show "get_repos hdrs org ?w
           = Some (Inr (concat pages @ lastp),
                   requested (map (\<lambda>i. repos_request hdrs org (1 + int i)) [0..<length fs + 1])
                     rest w)"
    by (simp add: requested_def)
next
  let ?w = "w\<lparr>net := gs @ g # rest\<rparr>"
  have "get_github_repos org token per_page ?w =
          get_github_repos_loop org token per_page (1 + int (length gs)) ([] @ concat qages)
            (requested (map (\<lambda>i. repos_request_list org token per_page (1 + int i)) [0..<length gs])
               (g # rest) ?w)"
    unfolding get_github_repos_def
    by (rule get_github_repos_loop_pages [OF assms(5,6)]) simp
  also have "\<dots> = Some (Inr ([] @ concat qages),
       requested [repos_request_list org token per_page (1 + int (length gs))] rest
         (requested (map (\<lambda>i. repos_request_list org token per_page (1 + int i)) [0..<length gs])
            (g # rest) ?w))"
    by (rule get_github_repos_loop_empty_page [OF _ assms(7)]) simp
  finally show "get_github_repos org token per_page ?w
           = Some (Inr (concat qages),
                   requested (map (\<lambda>i. repos_request_list org token per_page (1 + int i))
                                [0..<length gs + 1])
                     rest w)"
    by (simp add: requested_def)
qed

theorem paginators_concatenate_witness:
  "get_repos [] ''o''
     (world0\<lparr>net := [page (replicate 100 (JInt 0))] @ page [JInt 1] # [page [JInt 9]]\<rparr>)
     = Some (Inr (concat [replicate 100 (JInt 0)] @ [JInt 1]),
             requested (map (\<lambda>i. repos_request [] ''o'' (1 + int i)) [0..<length [page (replicate 100 (JInt 0))] + 1])
               [page [JInt 9]] world0)
   \<and> get_github_repos ''o'' ''t'' 100
     (world0\<lparr>net := [page [JInt 1], page [JInt 2]] @ page [] # [page [JInt 9]]\<rparr>)
     = Some (Inr (concat [[JInt 1], [JInt 2]]),
             requested (map (\<lambda>i. repos_request_list ''o'' ''t'' 100 (1 + int i))
                          [0..<length [page [JInt 1], page [JInt 2]] + 1])
               [page [JInt 9]] world0)"
  using paginators_concatenate
    [where fs = "[page (replicate 100 (JInt 0))]" and pages = "[replicate 100 (JInt 0)]"
       and f = "page [JInt 1]" and lastp = "[JInt 1]"
       and gs = "[page [JInt 1], page [JInt 2]]" and qages = "[[JInt 1], [JInt 2]]"
       and g = "page []" and hdrs = "[]" and org = "''o''" and token = "''t''"
       and per_page = 100 and w = world0 and rest = "[page [JInt 9]]"]
  by simp

text \<open>
  C10. When the API client returns its failure value after pages have been accumulated,
  the paginator returns the pages fetched so far, and nothing in the result tells this
  from a complete listing.

  For \<^verbatim>\<open>get_repos\<close> of the two aggregators let the network serve the full pages \<open>pages\<close>
  first. If the next call of the API client then returns something falsy (\<^verbatim>\<open>None\<close> in
  \<^verbatim>\<open>fetch_repo_details.py\<close>, \<^verbatim>\<open>[]\<close> in \<^verbatim>\<open>fetch_repo_details_inventory.py\<close>), \<^verbatim>\<open>get_repos\<close>
  returns the concatenation of \<open>pages\<close>. For \<^verbatim>\<open>get_github_repos\<close> let the network serve the
  non-empty pages \<open>qages\<close>, of any length, first. If the next response has a status other
  than 200 (and is not a rate-limit response, and its body is a dictionary),
  \<^verbatim>\<open>get_github_repos\<close> returns the concatenation of \<open>qages\<close>. In each script this is the very
  value returned when the listing is complete, that is, when the next page is empty.
\<close>

theorem paginators_return_partial:
  assumes "list_all2 serves fs pages" and "\<forall>p\<in>set pages. length p = 100"
    and "list_all2 serves gs qages" and "\<forall>p\<in>set qages. p \<noteq> []"
  shows "(github_api_get hdrs (org_repos_url org)
            (Some [(''per_page'', PInt 100), (''page'', PInt (1 + int (length fs))),
                   (''type'', PStr ''all'')]) 5
            (requested (map (\<lambda>i. repos_request hdrs org (1 + int i)) [0..<length fs]) rest w)
            = Some (v, w') \<and> \<not> truthy v \<longrightarrow>
          get_repos hdrs org (w\<lparr>net := fs @ rest\<rparr>) = Some (Inr (concat pages), w'))
       \<and> (github_api_get_inv hdrs (org_repos_url org)
            (Some [(''per_page'', PInt 100), (''page'', PInt (1 + int (length fs)))]) 3
            (requested (map (\<lambda>i. repos_request_inv hdrs org (1 + int i)) [0..<length fs]) rest w)
            = Some (Inr u, w'') \<and> \<not> truthy u \<longrightarrow>
          get_repos_inv hdrs org (w\<lparr>net := fs @ rest\<rparr>) = Some (Inr (concat pages), w''))
       \<and> (f (repos_request_list org token per_page (1 + int (length gs))) = Responded r
            \<and> \<not> rate_limited_list r \<and> status_code r \<noteq> 200
            \<and> resp_json r = Inr j \<and> py_get j ''message'' (JStr ''Unknown error'') = Inr m \<longrightarrow>
          get_github_repos org token per_page (w\<lparr>net := gs @ f # rest\<rparr>)
            = Some (Inr (concat qages),
                    logging ''ERROR'' (cross_mark @ '' Error: '' @ str_int (status_code r) @ '' - '' @ py_str m)
                      (print_line (cross_mark @ '' Error: '' @ str_int (status_code r) @ '' - '' @ py_str m)
                         (requested (map (\<lambda>i. repos_request_list org token per_page (1 + int i))
                                       [0..<length gs + 1]) rest w))))
       \<and> (serves g [] \<longrightarrow>
          (\<exists>w'. get_repos hdrs org (w\<lparr>net := fs @ g # rest\<rparr>) = Some (Inr (concat pages), w'))
          \<and> (\<exists>w'. get_repos_inv hdrs org (w\<lparr>net := fs @ g # rest\<rparr>) = Some (Inr (concat pages), w'))
          \<and> (\<exists>w'. get_github_repos org token per_page (w\<lparr>net := gs @ g # rest\<rparr>)
                   = Some (Inr (concat qages), w')))"
proof -
  have details: "get_repos hdrs org (w\<lparr>net := fs @ rest'\<rparr>) =
      get_repos_loop hdrs org (1 + int (length fs)) (concat pages)
        (requested (map (\<lambda>i. repos_request hdrs org (1 + int i)) [0..<length fs]) rest' w)"
    for rest'
    using get_repos_loop_full_pages [OF assms(1,2), where w = "w\<lparr>net := fs @ rest'\<rparr>" and rest = rest'
        and k = 1 and repos = "[]" and hdrs = hdrs and org = org]
    by (simp add: get_repos_def requested_def)
  have inv: "get_repos_inv hdrs org (w\<lparr>net := fs @ rest'\<rparr>) =
      get_repos_inv_loop hdrs org (1 + int (length fs)) (concat pages)
        (requested (map (\<lambda>i. repos_request_inv hdrs org (1 + int i)) [0..<length fs]) rest' w)"
    for rest'
    using get_repos_inv_loop_full_pages [OF assms(1,2), where w = "w\<lparr>net := fs @ rest'\<rparr>"
        and rest = rest' and k = 1 and repos = "[]" and hdrs = hdrs and org = org]
    by (simp add: get_repos_inv_def requested_def)
  have list: "get_github_repos org token per_page (w\<lparr>net := gs @ rest'\<rparr>) =
      get_github_repos_loop org token per_page (1 + int (length gs)) (concat qages)
        (requested (map (\<lambda>i. repos_request_list org token per_page (1 + int i)) [0..<length gs])
           rest' w)"
    for rest'
    using get_github_repos_loop_pages [OF assms(3,4), where w = "w\<lparr>net := gs @ rest'\<rparr>"
        and rest = rest' and k = 1 and repos = "[]" and org = org and token = token
        and per_page = per_page]
    by (simp add: get_github_repos_def requested_def)
  show ?thesis
  proof (intro conjI impI)
    assume "github_api_get hdrs (org_repos_url org)
            (Some [(''per_page'', PInt 100), (''page'', PInt (1 + int (length fs))),
                   (''type'', PStr ''all'')]) 5
            (requested (map (\<lambda>i. repos_request hdrs org (1 + int i)) [0..<length fs]) rest w)
            = Some (v, w') \<and> \<not> truthy v"
    then show "get_repos hdrs org (w\<lparr>net := fs @ rest\<rparr>) = Some (Inr (concat pages), w')"
      by (simp add: details get_repos_loop_falsy)
  next
    assume "github_api_get_inv hdrs (org_repos_url org)
            (Some [(''per_page'', PInt 100), (''page'', PInt (1 + int (length fs)))]) 3
            (requested (map (\<lambda>i. repos_request_inv hdrs org (1 + int i)) [0..<length fs]) rest w)
            = Some (Inr u, w'') \<and> \<not> truthy u"
    then show "get_repos_inv hdrs org (w\<lparr>net := fs @ rest\<rparr>) = Some (Inr (concat pages), w'')"
      by (simp add: inv get_repos_inv_loop_falsy)
  next
    assume "f (repos_request_list org token per_page (1 + int (length gs))) = Responded r
            \<and> \<not> rate_limited_list r \<and> status_code r \<noteq> 200
            \<and> resp_json r = Inr j \<and> py_get j ''message'' (JStr ''Unknown error'') = Inr m"
    then show "get_github_repos org token per_page (w\<lparr>net := gs @ f # rest\<rparr>)
            = Some (Inr (concat qages),
                    logging ''ERROR'' (cross_mark @ '' Error: '' @ str_int (status_code r) @ '' - '' @ py_str m)
                      (print_line (cross_mark @ '' Error: '' @ str_int (status_code r) @ '' - '' @ py_str m)
                         (requested (map (\<lambda>i. repos_request_list org token per_page (1 + int i))
                                       [0..<length gs + 1]) rest w)))"
      by (simp add: list get_github_repos_loop_failure [where f = f and rest = rest and r = r])
  next
    assume "serves g []"
    then show "\<exists>w'. get_repos hdrs org (w\<lparr>net := fs @ g # rest\<rparr>) = Some (Inr (concat pages), w')"
      by (simp add: details get_repos_loop_short_page [where f = g and rest = rest])
  next
    assume "serves g []"
    then show "\<exists>w'. get_repos_inv hdrs org (w\<lparr>net := fs @ g # rest\<rparr>) = Some (Inr (concat pages), w')"
      by (simp add: inv get_repos_inv_loop_short_page [where f = g and rest = rest])
  next
    assume "serves g []"
    then show "\<exists>w'. get_github_repos org token per_page (w\<lparr>net := gs @ g # rest\<rparr>)
                   = Some (Inr (concat qages), w')"
      by (simp add: list get_github_repos_loop_empty_page [where f = g and rest = rest])
  qed
qed

theorem paginators_return_partial_witness:
  "get_repos [] ''o''
     (world0\<lparr>net := [page (replicate 100 (JInt 0))] @ [always (Responded response404)]\<rparr>)
     = Some (Inr (concat [replicate 100 (JInt 0)]),
             world0\<lparr>net := [],
                     error_log := [(1000, ''Failed GET https://api.github.com/orgs/o/repos: 404 gone'')],
                     sent := [repos_request [] ''o'' 1, repos_request [] ''o'' 2]\<rparr>)
   \<and> get_repos_inv [] ''o''
     (world0\<lparr>net := [page (replicate 100 (JInt 0))] @ [always (Responded response404)]\<rparr>)
     = Some (Inr (concat [replicate 100 (JInt 0)]),
             world0\<lparr>net := [],
                     stdout := [cross_mark @ '' Request failed: 404 Client Error: Not Found for url: https://api.github.com/x''],
                     sent := [repos_request_inv [] ''o'' 1, repos_request_inv [] ''o'' 2]\<rparr>)
   \<and> (\<exists>w'. get_github_repos ''o'' ''t'' 100
              (world0\<lparr>net := [page [JInt 1], page [JInt 2, JInt 3]] @ always (Responded response404) # []\<rparr>)
              = Some (Inr (concat [[JInt 1], [JInt 2, JInt 3]]), w'))
   \<and> (\<exists>w'. get_repos [] ''o'' (world0\<lparr>net := [page (replicate 100 (JInt 0))] @ page [] # []\<rparr>)
              = Some (Inr (concat [replicate 100 (JInt 0)]), w'))
   \<and> (\<exists>w'. get_repos_inv [] ''o'' (world0\<lparr>net := [page (replicate 100 (JInt 0))] @ page [] # []\<rparr>)
              = Some (Inr (concat [replicate 100 (JInt 0)]), w'))
   \<and> (\<exists>w'. get_github_repos ''o'' ''t'' 100
              (world0\<lparr>net := [page [JInt 1], page [JInt 2, JInt 3]] @ page [] # []\<rparr>)
              = Some (Inr (concat [[JInt 1], [JInt 2, JInt 3]]), w'))"
proof -
  let ?fs = "[page (replicate 100 (JInt 0))]"
  let ?gs = "[page [JInt 1], page [JInt 2, JInt 3]]"
  let ?w1 = "world0\<lparr>net := [],
                     error_log := [(1000, ''Failed GET https://api.github.com/orgs/o/repos: 404 gone'')],
                     sent := [repos_request [] ''o'' 1, repos_request [] ''o'' 2]\<rparr>"
  let ?w2 = "world0\<lparr>net := [],
                     stdout := [cross_mark @ '' Request failed: 404 Client Error: Not Found for url: https://api.github.com/x''],
                     sent := [repos_request_inv [] ''o'' 1, repos_request_inv [] ''o'' 2]\<rparr>"
  have api: "github_api_get [] (org_repos_url ''o'')
            (Some [(''per_page'', PInt 100), (''page'', PInt (1 + int (length ?fs))),
                   (''type'', PStr ''all'')]) 5
            (requested (map (\<lambda>i. repos_request [] ''o'' (1 + int i)) [0..<length ?fs])
               [always (Responded response404)] world0)
            = Some (JNull, ?w1) \<and> \<not> truthy JNull"
    by (simp add: run_defs requested_def repos_request_def org_repos_url_def)
  have api_inv: "github_api_get_inv [] (org_repos_url ''o'')
            (Some [(''per_page'', PInt 100), (''page'', PInt (1 + int (length ?fs)))]) 3
            (requested (map (\<lambda>i. repos_request_inv [] ''o'' (1 + int i)) [0..<length ?fs])
               [always (Responded response404)] world0)
            = Some (Inr (JList []), ?w2) \<and> \<not> truthy (JList [])"
    by (simp add: run_defs requested_def repos_request_inv_def org_repos_url_def)
  have lst: "always (Responded response404) (repos_request_list ''o'' ''t'' 100 (1 + int (length ?gs)))
               = Responded response404
            \<and> \<not> rate_limited_list response404 \<and> status_code response404 \<noteq> 200
            \<and> resp_json response404 = Inr (JObj [(''message'', JStr ''Not Found'')])
            \<and> py_get (JObj [(''message'', JStr ''Not Found'')]) ''message'' (JStr ''Unknown error'')
                = Inr (JStr ''Not Found'')"
    by (simp add: always_def response404_def rate_limited_list_def)
  have pages: "list_all2 serves ?fs [replicate 100 (JInt 0)]"
    "\<forall>p\<in>set [replicate 100 (JInt 0)]. length p = 100"
    "list_all2 serves ?gs [[JInt 1], [JInt 2, JInt 3]]"
    "\<forall>p\<in>set [[JInt 1], [JInt 2, JInt 3]]. p \<noteq> []" "serves (page []) []"
    by simp_all
  note t = paginators_return_partial
    [OF pages(1,2,3,4), where hdrs = "[]" and org = "''o''" and token = "''t''" and per_page = 100
       and w = world0 and v = JNull and w' = ?w1 and u = "JList []" and w'' = ?w2
       and r = response404 and j = "JObj [(''message'', JStr ''Not Found'')]"
       and m = "JStr ''Not Found''" and g = "page []"]
  from t [where rest = "[always (Responded response404)]" and f = "always (Responded response404)"] api
  have c1: "get_repos [] ''o'' (world0\<lparr>net := ?fs @ [always (Responded response404)]\<rparr>)
              = Some (Inr (concat [replicate 100 (JInt 0)]), ?w1)"
    by blast
  from t [where rest = "[always (Responded response404)]" and f = "always (Responded response404)"] api_inv
  have c2: "get_repos_inv [] ''o'' (world0\<lparr>net := ?fs @ [always (Responded response404)]\<rparr>)
              = Some (Inr (concat [replicate 100 (JInt 0)]), ?w2)"
    by blast
  from t [where rest = "[]" and f = "always (Responded response404)"] lst
  have c3: "\<exists>w'. get_github_repos ''o'' ''t'' 100
              (world0\<lparr>net := ?gs @ always (Responded response404) # []\<rparr>)
              = Some (Inr (concat [[JInt 1], [JInt 2, JInt 3]]), w')"
    by blast
  from t [where rest = "[]" and f = "always (Responded response404)"] pages(5)
  have c4: "(\<exists>w'. get_repos [] ''o'' (world0\<lparr>net := ?fs @ page [] # []\<rparr>)
              = Some (Inr (concat [replicate 100 (JInt 0)]), w'))
   \<and> (\<exists>w'. get_repos_inv [] ''o'' (world0\<lparr>net := ?fs @ page [] # []\<rparr>)
              = Some (Inr (concat [replicate 100 (JInt 0)]), w'))
   \<and> (\<exists>w'. get_github_repos ''o'' ''t'' 100 (world0\<lparr>net := ?gs @ page [] # []\<rparr>)
              = Some (Inr (concat [[JInt 1], [JInt 2, JInt 3]]), w'))"
    by blast
  from c1 c2 c3 c4 show ?thesis
    by blast
qed

section \<open>Counting issues\<close>

text \<open>
  The items of the issues endpoint are dictionaries; an item is \<open>marked\<close> when it has the
  key \<^verbatim>\<open>pull_request\<close>.
\<close>

fun is_dict :: "json \<Rightarrow> bool" where
  "is_dict (JObj kvs) = True"
| "is_dict v = False"

fun marked :: "json \<Rightarrow> bool" where
  "marked (JObj kvs) = (''pull_request'' \<in> set (map fst kvs))"
| "marked v = False"

definition issues_request ::
  "(string \<times> string) list \<Rightarrow> string \<Rightarrow> string \<Rightarrow> int \<Rightarrow> request" where
  "issues_request hdrs url state k =
     mk_req hdrs url (Some [(''state'', PStr state), (''per_page'', PInt 100), (''page'', PInt k)])"

lemma py_bind_Inr: "m w = Some (Inr x, w1) \<Longrightarrow> py_bind m f w = f x w1"
  by (simp add: py_bind_def)

lemma py_bind_Inl: "m w = Some (Inl e, w1) \<Longrightarrow> py_bind m f w = Some (Inl e, w1)"
  by (simp add: py_bind_def)

lemma py_bind_None: "m w = None \<Longrightarrow> py_bind m f w = None"
  by (simp add: py_bind_def)

lemma py_total_Some: "m w = Some (x, w1) \<Longrightarrow> py_total m w = Some (Inr x, w1)"
  by (simp add: py_total_def)

lemma py_contains_dict: "is_dict i \<Longrightarrow> py_contains ''pull_request'' i = Inr (marked i)"
  by (cases i) simp_all

lemma sum_not_pull_request_dicts:
  "\<forall>i\<in>set issues. is_dict i \<Longrightarrow>
     sum_not_pull_request issues = Inr (int (length (filter (\<lambda>i. \<not> marked i) issues)))"
  by (induction issues) (simp_all add: bind_exn_def py_contains_dict)

lemma not_pull_request_dicts:
  "\<forall>i\<in>set issues. is_dict i \<Longrightarrow>
     not_pull_request issues = Inr (filter (\<lambda>i. \<not> marked i) issues)"
  by (induction issues) (simp_all add: bind_exn_def py_contains_dict)

lemma count_issues_loop_full_pages:
  assumes "list_all2 serves fs pages" and "\<forall>p\<in>set pages. length p = 100"
    and "\<forall>i\<in>set (concat pages). is_dict i"
    and "net w = fs @ rest"
  shows "count_issues_loop hdrs url state k count w =
           count_issues_loop hdrs url state (k + int (length fs))
             (count + int (length (filter (\<lambda>i. \<not> marked i) (concat pages))))
             (requested (map (\<lambda>i. issues_request hdrs url state (k + int i)) [0..<length fs]) rest w)"
  using assms
proof (induction fs pages arbitrary: k count w rule: list_all2_induct)
  case Nil
  then show ?case by (simp add: requested_Nil)
next
  case (Cons f fs p pages)
  from Cons.prems have net: "net w = f # (fs @ rest)" and len: "length p = 100"
    and all: "\<forall>p\<in>set pages. length p = 100"
    and dp: "\<forall>i\<in>set p. is_dict i" and dicts: "\<forall>i\<in>set (concat pages). is_dict i"
    by auto
  let ?w1 = "requested [issues_request hdrs url state k] (fs @ rest) w"
  let ?c1 = "count + int (length (filter (\<lambda>i. \<not> marked i) p))"
  have "count_issues_loop hdrs url state k count w =
          count_issues_loop hdrs url state (k + 1) ?c1 ?w1"
    using api_serves [OF net Cons.hyps(1)] len sum_not_pull_request_dicts [OF dp]
    by (subst count_issues_loop.simps) (auto simp: Let_def issues_request_def bind_exn_def)
  also have "\<dots> = count_issues_loop hdrs url state (k + 1 + int (length fs))
       (?c1 + int (length (filter (\<lambda>i. \<not> marked i) (concat pages))))
       (requested (map (\<lambda>i. issues_request hdrs url state (k + 1 + int i)) [0..<length fs]) rest ?w1)"
    by (rule Cons.IH [OF all dicts]) simp
  finally show ?case
    by (simp add: map_upt_shift ac_simps del: upt_Suc)
qed

lemma count_issues_loop_short_page:
  assumes "net w = f # rest" and "serves f p" and "length p < 100"
    and "\<forall>i\<in>set p. is_dict i"
  shows "count_issues_loop hdrs url state k count w =
           Some (Inr (count + int (length (filter (\<lambda>i. \<not> marked i) p))),
                 requested [issues_request hdrs url state k] rest w)"
  using api_serves [OF assms(1,2)] assms(3) sum_not_pull_request_dicts [OF assms(4)]
  by (subst count_issues_loop.simps) (auto simp: Let_def issues_request_def bind_exn_def)

lemma count_issues_pages:
  assumes "list_all2 serves fs pages" and "\<forall>p\<in>set pages. length p = 100"
    and "serves f lastp" and "length lastp < 100"
    and "\<forall>i\<in>set (concat pages @ lastp). is_dict i"
    and "net w = fs @ f # rest"
  shows "count_issues hdrs url state w =
           Some (Inr (int (length (filter (\<lambda>i. \<not> marked i) (concat pages @ lastp)))),
                 requested (map (\<lambda>i. issues_request hdrs url state (1 + int i)) [0..<length fs + 1])
                   rest w)"
proof -
  from assms(5) have d1: "\<forall>i\<in>set (concat pages). is_dict i" and d2: "\<forall>i\<in>set lastp. is_dict i"
    by auto
  have "count_issues hdrs url state w =
          count_issues_loop hdrs url state (1 + int (length fs))
            (0 + int (length (filter (\<lambda>i. \<not> marked i) (concat pages))))
            (requested (map (\<lambda>i. issues_request hdrs url state (1 + int i)) [0..<length fs])
               (f # rest) w)"
    unfolding count_issues_def
    by (rule count_issues_loop_full_pages [OF assms(1,2) d1 assms(6)])
  also have "\<dots> = Some (Inr (0 + int (length (filter (\<lambda>i. \<not> marked i) (concat pages)))
                              + int (length (filter (\<lambda>i. \<not> marked i) lastp))),
       requested [issues_request hdrs url state (1 + int (length fs))] rest
         (requested (map (\<lambda>i. issues_request hdrs url state (1 + int i)) [0..<length fs])
            (f # rest) w))"
    by (rule count_issues_loop_short_page [OF _ assms(3,4) d2]) simp
  finally show ?thesis
    by simp
qed

text \<open>
  C6. The open and closed issue counts equal the number of items of the list returned by
  the issues endpoint that do not carry the key \<^verbatim>\<open>pull_request\<close>: every item with the key
  is left out and every item without it is counted.

  In \<^verbatim>\<open>fetch_repo_details.py\<close> the list is the concatenation of the pages
  \<^verbatim>\<open>count_issues\<close> fetches for a state (full pages \<open>pages\<close>, then a shorter page \<open>lastp\<close>);
  the two requests \<^verbatim>\<open>get_issue_counts\<close> sends first (answered here with \<open>x1\<close> and \<open>x2\<close>) do
  not enter the counts. In \<^verbatim>\<open>fetch_repo_details_inventory.py\<close> the list is the one response
  per state.
\<close>

theorem issue_counts_exclude_pull_requests:
  assumes "serves p1 x1" and "serves p2 x2"
    and "list_all2 serves fs pages" and "\<forall>p\<in>set pages. length p = 100"
    and "serves f lastp" and "length lastp < 100"
    and "list_all2 serves gs qages" and "\<forall>p\<in>set qages. length p = 100"
    and "serves g lastq" and "length lastq < 100"
    and "\<forall>i\<in>set (concat pages @ lastp @ concat qages @ lastq). is_dict i"
    and "serves fo open_issues" and "serves fc closed_issues"
    and "\<forall>i\<in>set (open_issues @ closed_issues). is_dict i"
  shows "(\<exists>w'. get_issue_counts hdrs org repo (w\<lparr>net := p1 # p2 # fs @ f # gs @ g # rest\<rparr>)
                 = Some (Inr (int (length (filter (\<lambda>i. \<not> marked i) (concat pages @ lastp))),
                              int (length (filter (\<lambda>i. \<not> marked i) (concat qages @ lastq)))), w')
               \<and> net w' = rest)
       \<and> (\<exists>w'. get_issue_counts_inv hdrs org repo (w\<lparr>net := fo # fc # rest\<rparr>)
                 = Some (Inr (int (length (filter (\<lambda>i. \<not> marked i) open_issues)),
                              int (length (filter (\<lambda>i. \<not> marked i) closed_issues))), w')
               \<and> net w' = rest)"
proof
  let ?url = "repo_url org repo ''/issues''"
  let ?w0 = "w\<lparr>net := p1 # p2 # fs @ f # gs @ g # rest\<rparr>"
  let ?po = "Some [(''state'', PStr ''open''), (''per_page'', PInt 1)]"
  let ?pc = "Some [(''state'', PStr ''closed''), (''per_page'', PInt 1)]"
  let ?w1 = "requested [mk_req hdrs ?url ?po] (p2 # fs @ f # gs @ g # rest) ?w0"
  let ?w2 = "requested [mk_req hdrs ?url ?pc] (fs @ f # gs @ g # rest) ?w1"
  let ?w3 = "requested (map (\<lambda>i. issues_request hdrs ?url ''open'' (1 + int i)) [0..<length fs + 1])
               (gs @ g # rest) ?w2"
  let ?w4 = "requested (map (\<lambda>i. issues_request hdrs ?url ''closed'' (1 + int i)) [0..<length gs + 1])
               rest ?w3"
  from assms(11) have d1: "\<forall>i\<in>set (concat pages @ lastp). is_dict i"
    and d2: "\<forall>i\<in>set (concat qages @ lastq). is_dict i"
    by auto
  have s1: "py_total (github_api_get hdrs ?url ?po 5) ?w0 = Some (Inr (JList x1), ?w1)"
    by (rule py_total_Some, rule api_serves [OF _ assms(1)]) simp
  have s2: "py_total (github_api_get hdrs ?url ?pc 5) ?w1 = Some (Inr (JList x2), ?w2)"
    by (rule py_total_Some, rule api_serves [OF _ assms(2)]) simp
  have s3: "count_issues hdrs ?url ''open'' ?w2 =
              Some (Inr (int (length (filter (\<lambda>i. \<not> marked i) (concat pages @ lastp)))), ?w3)"
    by (rule count_issues_pages [OF assms(3-6) d1]) simp
  have s4: "count_issues hdrs ?url ''closed'' ?w3 =
              Some (Inr (int (length (filter (\<lambda>i. \<not> marked i) (concat qages @ lastq)))), ?w4)"
    by (rule count_issues_pages [OF assms(7-10) d2]) simp
  have "get_issue_counts hdrs org repo ?w0
          = Some (Inr (int (length (filter (\<lambda>i. \<not> marked i) (concat pages @ lastp))),
                       int (length (filter (\<lambda>i. \<not> marked i) (concat qages @ lastq)))), ?w4)"
    by (simp only: get_issue_counts_def Let_def py_bind_def s1 s2 s3 s4 py_return_def
          option.case prod.case sum.case)
  then show "\<exists>w'. get_issue_counts hdrs org repo ?w0
                 = Some (Inr (int (length (filter (\<lambda>i. \<not> marked i) (concat pages @ lastp))),
                              int (length (filter (\<lambda>i. \<not> marked i) (concat qages @ lastq)))), w')
               \<and> net w' = rest"
    by simp
next
  let ?url = "repo_url org repo ''/issues''"
  let ?w0 = "w\<lparr>net := fo # fc # rest\<rparr>"
  let ?po = "Some [(''state'', PStr ''open'')]"
  let ?pc = "Some [(''state'', PStr ''closed'')]"
  let ?w1 = "requested [mk_req hdrs ?url ?po] (fc # rest) ?w0"
  let ?w2 = "requested [mk_req hdrs ?url ?pc] rest ?w1"
  from assms(14) have d1: "\<forall>i\<in>set open_issues. is_dict i"
    and d2: "\<forall>i\<in>set closed_issues. is_dict i"
    by auto
  have s1: "github_api_get_inv hdrs ?url ?po 3 ?w0 = Some (Inr (JList open_issues), ?w1)"
    by (rule api_inv_serves [OF _ assms(12)]) simp
  have s2: "github_api_get_inv hdrs ?url ?pc 3 ?w1 = Some (Inr (JList closed_issues), ?w2)"
    by (rule api_inv_serves [OF _ assms(13)]) simp
  have "get_issue_counts_inv hdrs org repo ?w0
          = Some (Inr (int (length (filter (\<lambda>i. \<not> marked i) open_issues)),
                       int (length (filter (\<lambda>i. \<not> marked i) closed_issues))), ?w2)"
    by (simp only: get_issue_counts_inv_def Let_def py_bind_def s1 s2 py_lift_def bind_exn_def
          py_iter.simps not_pull_request_dicts [OF d1] not_pull_request_dicts [OF d2]
          option.case prod.case sum.case)
  then show "\<exists>w'. get_issue_counts_inv hdrs org repo ?w0
                 = Some (Inr (int (length (filter (\<lambda>i. \<not> marked i) open_issues)),
                              int (length (filter (\<lambda>i. \<not> marked i) closed_issues))), w')
               \<and> net w' = rest"
    by simp
qed

definition an_issue :: json where
  "an_issue = JObj [(''number'', JInt 2), (''title'', JStr ''bug'')]"

definition a_pull_request :: json where
  "a_pull_request = JObj [(''number'', JInt 1), (''pull_request'', JObj [(''url'', JStr ''u'')])]"

theorem issue_counts_exclude_pull_requests_witness:
  "(\<exists>w'. get_issue_counts [] ''o'' (JStr ''r'')
            (world0\<lparr>net := page [an_issue] # page [] # [page (replicate 100 an_issue)]
                              @ page [an_issue, a_pull_request, an_issue]
                              # [] @ page [a_pull_request] # []\<rparr>)
            = Some (Inr (102, 0), w') \<and> net w' = [])
   \<and> (\<exists>w'. get_issue_counts_inv [] ''o'' (JStr ''r'')
            (world0\<lparr>net := page [an_issue, a_pull_request]
                              # page [a_pull_request, an_issue, an_issue] # []\<rparr>)
            = Some (Inr (1, 2), w') \<and> net w' = [])"
proof -
  have m: "\<not> marked an_issue" "marked a_pull_request" "is_dict an_issue" "is_dict a_pull_request"
    by (simp_all add: an_issue_def a_pull_request_def)
  from issue_counts_exclude_pull_requests
    [where ?p1.0 = "page [an_issue]" and ?x1.0 = "[an_issue]" and ?p2.0 = "page []" and ?x2.0 = "[]"
       and fs = "[page (replicate 100 an_issue)]" and pages = "[replicate 100 an_issue]"
       and f = "page [an_issue, a_pull_request, an_issue]"
       and lastp = "[an_issue, a_pull_request, an_issue]"
       and gs = "[]" and qages = "[]" and g = "page [a_pull_request]" and lastq = "[a_pull_request]"
       and fo = "page [an_issue, a_pull_request]" and open_issues = "[an_issue, a_pull_request]"
       and fc = "page [a_pull_request, an_issue, an_issue]"
       and closed_issues = "[a_pull_request, an_issue, an_issue]"
       and hdrs = "[]" and org = "''o''" and repo = "JStr ''r''" and w = world0 and rest = "[]"]
  show ?thesis
    by (simp add: m)
qed

section \<open>Startup\<close>

text \<open>
  The value of a configuration variable is what \<^verbatim>\<open>os.getenv\<close> gives after
  \<^verbatim>\<open>load_dotenv()\<close>; it is absent when it is \<open>unset\<close> (not set, or set to the empty string).
  \<^verbatim>\<open>fetch_repo_list.py\<close> reads the environment first and the \<^verbatim>\<open>.env\<close> file only when something
  is missing, with the same result.
\<close>

definition stamp :: "int \<Rightarrow> string" where
  "stamp t = ''20240101_000000''"

lemma load_credentials_eq:
  "load_credentials dotenv environ =
     (load_dotenv dotenv environ ''GH_ORG'', load_dotenv dotenv environ ''GH_PAT'')"
proof (cases "unset (environ ''GH_ORG'') \<or> unset (environ ''GH_PAT'')")
  case True
  have "or_else (environ k) (load_dotenv dotenv environ k) = load_dotenv dotenv environ k" for k
    by (cases "environ k") (auto simp: or_else_def load_dotenv_def)
  with True show ?thesis
    by (simp add: load_credentials_def Let_def)
next
  case False
  then have "load_dotenv dotenv environ ''GH_ORG'' = environ ''GH_ORG''"
    "load_dotenv dotenv environ ''GH_PAT'' = environ ''GH_PAT''"
    by (cases "environ ''GH_ORG''"; cases "environ ''GH_PAT''"; simp add: load_dotenv_def)+
  with False show ?thesis
    by (simp add: load_credentials_def Let_def)
qed

text \<open>
  C8. When the organization or the access token is absent, the program prints a message
  and ends with a non-zero exit status before any API work or output.

  As stated this fails for \<^verbatim>\<open>fetch_repo_details.py\<close>. With nothing configured its \<^verbatim>\<open>main\<close>
  prints and returns, so the exit status is 0. With the organization set and no token it
  makes no check at all: it sends the listing request with the header
  \<^verbatim>\<open>Authorization: Bearer None\<close> and goes on.
\<close>

theorem missing_configuration_counterexample:
  "program stamp (map_of []) (map_of []) world0
     = Some (0, world0\<lparr>stdout := [''ORG_NAME not set in .env file.'']\<rparr>)
   \<and> program stamp (map_of []) (map_of [(''ORG_NAME'', ''o'')]) (world0\<lparr>net := [page []]\<rparr>)
     = Some (0, world0\<lparr>net := [], stdout := [''No repositories found or error occurred.''],
                      sent := [repos_request [(''Authorization'', ''Bearer None''),
                                              (''Accept'', ''application/vnd.github+json'')] ''o'' 1]\<rparr>)"
proof
  show "program stamp (map_of []) (map_of []) world0
     = Some (0, world0\<lparr>stdout := [''ORG_NAME not set in .env file.'']\<rparr>)"
    by (simp add: program_def main_def load_dotenv_def print_line_def world0_def)
next
  have env: "load_dotenv (map_of []) (map_of [(''ORG_NAME'', ''o'')]) ''ORG_NAME'' = Some ''o''"
    "load_dotenv (map_of []) (map_of [(''ORG_NAME'', ''o'')]) ''GITHUB_TOKEN'' = None"
    by (simp_all add: load_dotenv_def)
  have "get_repos (HEADERS None) ''o'' (world0\<lparr>net := [page []]\<rparr>)
          = Some (Inr [], requested [repos_request (HEADERS None) ''o'' 1] [] (world0\<lparr>net := [page []]\<rparr>))"
    using get_repos_loop_short_page
      [where f = "page []" and p = "[]" and rest = "[]" and w = "world0\<lparr>net := [page []]\<rparr>"
         and hdrs = "HEADERS None" and org = "''o''" and k = 1 and repos = "[]"]
    by (simp add: get_repos_def)
  then show "program stamp (map_of []) (map_of [(''ORG_NAME'', ''o'')]) (world0\<lparr>net := [page []]\<rparr>)
     = Some (0, world0\<lparr>net := [], stdout := [''No repositories found or error occurred.''],
                      sent := [repos_request [(''Authorization'', ''Bearer None''),
                                              (''Accept'', ''application/vnd.github+json'')] ''o'' 1]\<rparr>)"
    by (simp only: program_def Let_def env)
       (simp add: main_def requested_def print_line_def world0_def HEADERS_def)
qed

text \<open>
  C8 as amended. In \<^verbatim>\<open>fetch_repo_details_inventory.py\<close> and \<^verbatim>\<open>fetch_repo_list.py\<close>, when
  \<^verbatim>\<open>GH_PAT\<close> or \<^verbatim>\<open>GH_ORG\<close> is absent the program prints a message (the second script also
  logs one) and ends with exit status 1; it has sent no request and opened no report. In
  \<^verbatim>\<open>fetch_repo_details.py\<close>, when \<^verbatim>\<open>ORG_NAME\<close> is absent the program prints a message and
  ends, having sent no request and opened no report; its exit status is 0.
\<close>

theorem missing_configuration:
  "(unset (load_dotenv dotenv environ ''GH_PAT'') \<or> unset (load_dotenv dotenv environ ''GH_ORG'') \<longrightarrow>
      (\<exists>w'. program_inv dotenv environ w = Some (1, w')
         \<and> stdout w' = stdout w @ [cross_mark @ '' GH_PAT or GH_ORG not set. Please provide them in GitHub Secrets or a .env file.'']
         \<and> sent w' = sent w \<and> net w' = net w \<and> report w' = report w)
    \<and> (\<exists>w'. program_list dotenv environ w = Some (1, w')
         \<and> stdout w' = stdout w @ [cross_mark @ '' Error: Please set GH_ORG and GH_PAT as GitHub Secrets or in your .env file.'']
         \<and> app_log w' = app_log w @ [(''ERROR'', ''Missing GH_ORG or GH_PAT environment variables.'')]
         \<and> sent w' = sent w \<and> net w' = net w \<and> report w' = report w))
   \<and> (unset (load_dotenv dotenv environ ''ORG_NAME'') \<longrightarrow>
      (\<exists>w'. program strftime dotenv environ w = Some (0, w')
         \<and> stdout w' = stdout w @ [''ORG_NAME not set in .env file.'']
         \<and> sent w' = sent w \<and> net w' = net w \<and> report w' = report w))"
proof (intro conjI impI)
  assume "unset (load_dotenv dotenv environ ''GH_PAT'') \<or> unset (load_dotenv dotenv environ ''GH_ORG'')"
  then show "\<exists>w'. program_inv dotenv environ w = Some (1, w')
         \<and> stdout w' = stdout w @ [cross_mark @ '' GH_PAT or GH_ORG not set. Please provide them in GitHub Secrets or a .env file.'']
         \<and> sent w' = sent w \<and> net w' = net w \<and> report w' = report w"
    by (simp add: program_inv_def Let_def)
next
  assume "unset (load_dotenv dotenv environ ''GH_PAT'') \<or> unset (load_dotenv dotenv environ ''GH_ORG'')"
  then show "\<exists>w'. program_list dotenv environ w = Some (1, w')
         \<and> stdout w' = stdout w @ [cross_mark @ '' Error: Please set GH_ORG and GH_PAT as GitHub Secrets or in your .env file.'']
         \<and> app_log w' = app_log w @ [(''ERROR'', ''Missing GH_ORG or GH_PAT environment variables.'')]
         \<and> sent w' = sent w \<and> net w' = net w \<and> report w' = report w"
    by (auto simp: program_list_def load_credentials_eq)
next
  assume "unset (load_dotenv dotenv environ ''ORG_NAME'')"
  then show "\<exists>w'. program strftime dotenv environ w = Some (0, w')
         \<and> stdout w' = stdout w @ [''ORG_NAME not set in .env file.'']
         \<and> sent w' = sent w \<and> net w' = net w \<and> report w' = report w"
    by (cases "load_dotenv dotenv environ ''ORG_NAME''") (simp_all add: program_def Let_def main_def)
qed

theorem missing_configuration_witness:
  "((\<exists>w'. program_inv (map_of []) (map_of [(''GH_ORG'', ''o'')]) world0 = Some (1, w')
         \<and> stdout w' = stdout world0 @ [cross_mark @ '' GH_PAT or GH_ORG not set. Please provide them in GitHub Secrets or a .env file.'']
         \<and> sent w' = sent world0 \<and> net w' = net world0 \<and> report w' = report world0)
    \<and> (\<exists>w'. program_list (map_of []) (map_of [(''GH_ORG'', ''o'')]) world0 = Some (1, w')
         \<and> stdout w' = stdout world0 @ [cross_mark @ '' Error: Please set GH_ORG and GH_PAT as GitHub Secrets or in your .env file.'']
         \<and> app_log w' = app_log world0 @ [(''ERROR'', ''Missing GH_ORG or GH_PAT environment variables.'')]
         \<and> sent w' = sent world0 \<and> net w' = net world0 \<and> report w' = report world0))
   \<and> (\<exists>w'. program stamp (map_of []) (map_of [(''GH_ORG'', ''o'')]) world0 = Some (0, w')
         \<and> stdout w' = stdout world0 @ [''ORG_NAME not set in .env file.'']
         \<and> sent w' = sent world0 \<and> net w' = net world0 \<and> report w' = report world0)"
proof -
  have absent: "unset (load_dotenv (map_of []) (map_of [(''GH_ORG'', ''o'')]) ''GH_PAT'')"
    "unset (load_dotenv (map_of []) (map_of [(''GH_ORG'', ''o'')]) ''ORG_NAME'')"
    by (simp_all add: load_dotenv_def)
  from missing_configuration
    [where dotenv = "map_of []" and environ = "map_of [(''GH_ORG'', ''o'')]" and w = world0
       and strftime = stamp] absent
  show ?thesis
    by blast
qed

section \<open>What the API calls leave alone\<close>

text \<open>
  The entries of the error log written by the handler in the loop of \<^verbatim>\<open>main\<close>, which alone
  writes \<^verbatim>\<open>Error processing ...\<close>.
\<close>

definition handler_entries :: "world \<Rightarrow> string list" where
  "handler_entries w = filter (prefix ''Error processing '') (map snd (error_log w))"

text \<open>
  \<open>api_only w w'\<close>: what calls of the API functions leave as it is on the way from \<open>w\<close> to
  \<open>w'\<close>. The answers left in \<open>net\<close> are a suffix of those before, the report is untouched,
  and so are the handler's entries of the error log.
\<close>

definition api_only :: "world \<Rightarrow> world \<Rightarrow> bool" where
  "api_only w w' =
     (suffix (net w') (net w) \<and> report w' = report w \<and> handler_entries w' = handler_entries w
      \<and> length (error_log w) \<le> length (error_log w'))"

lemma api_only_refl [simp]: "api_only w w"
  by (simp add: api_only_def)

lemma api_only_trans: "api_only w w1 \<Longrightarrow> api_only w1 w2 \<Longrightarrow> api_only w w2"
  unfolding api_only_def
  by (auto intro: suffix_order.trans)

lemma handler_entries_fields [simp]:
  "handler_entries (answered req w) = handler_entries w"
  "handler_entries (print_line s w) = handler_entries w"
  "handler_entries (advance n w) = handler_entries w"
  by (simp_all add: handler_entries_def)

lemma handler_entries_log_error:
  "handler_entries (log_error m w) =
     handler_entries w @ (if prefix ''Error processing '' m then [m] else [])"
  by (simp add: handler_entries_def)

lemma api_only_answered [simp]: "api_only w (answered req w)"
  by (simp add: api_only_def suffix_tl)

lemma api_only_print_line [simp]: "api_only w (print_line m w') = api_only w w'"
  by (simp add: api_only_def)

lemma api_only_advance [simp]: "api_only w (advance s w') = api_only w w'"
  by (simp add: api_only_def)

lemma api_only_log_error:
  "\<not> prefix ''Error processing '' m \<Longrightarrow> api_only w w' \<Longrightarrow> api_only w (log_error m w')"
  by (simp add: api_only_def handler_entries_log_error)

subsection \<open>fetch\_repo\_details.py\<close>

lemma github_api_get_try_api_only:
  assumes "github_api_get_try hdrs url params w = Some (x, w1)"
  shows "api_only w w1"
proof -
  let ?req = "\<lparr>req_url = url, req_params = params, req_headers = hdrs\<rparr>"
  from assms obtain out where g: "requests_get ?req w = Some (out, answered ?req w)"
    by (cases "requests_get ?req w") (auto simp: github_api_get_try_def dest!: requests_get_Some)
  have a: "api_only w (answered ?req w)"
    by simp
  have "api_only (answered ?req w) w1"
  proof (cases out)
    case (Raised e)
    with assms g show ?thesis
      by (simp add: github_api_get_try_def)
  next
    case (Responded r)
    with assms g show ?thesis
      by (auto simp: github_api_get_try_def time_sleep_def Let_def
            intro!: api_only_log_error split: sum.splits if_splits)
  qed
  with a show ?thesis
    by (rule api_only_trans)
qed


lemma github_api_get_loop_api_only:
  "github_api_get_loop hdrs url params max_retries retries w = Some (v, w') \<Longrightarrow> api_only w w'"
proof (induction hdrs url params max_retries retries w rule: github_api_get_loop.induct)
  case (1 hdrs url params max_retries retries w)
  note simps = github_api_get_loop.simps [of hdrs url params max_retries retries w]
  show ?case
  proof (cases "int retries < max_retries")
    case False
    with "1.prems" show ?thesis
      by (auto simp: simps intro!: api_only_log_error)
  next
    case True
    then obtain x w0 where t: "github_api_get_try hdrs url params w = Some (x, w0)"
      using "1.prems" by (cases "github_api_get_try hdrs url params w") (auto simp: simps)
    then have first: "api_only w w0"
      by (rule github_api_get_try_api_only)
    show ?thesis
    proof (cases x)
      case (Inl e)
      show ?thesis
      proof (cases "is_connection_error e")
        case c: True
        let ?w2 = "log_error (''Connection error on '' @ url @ '': '' @ exn_str e @ ''. Retry ''
                     @ str_int (int (retries + 1)) @ ''/'' @ str_int max_retries) w0"
        from "1.prems" True t Inl c have "api_only (advance (5 * int (retries + 1)) ?w2) w'"
          using "1.IH"(1) [OF True t refl Inl c refl refl refl]
          by (simp add: simps Let_def)
        moreover have "api_only w0 ?w2"
          by (rule api_only_log_error) simp_all
        moreover have "api_only ?w2 (advance (5 * int (retries + 1)) ?w2)"
          by simp
        ultimately show ?thesis
          using first by (blast intro: api_only_trans)
      next
        case False
        with "1.prems" True t Inl have "w' = log_error (''Unexpected error on '' @ url @ '': '' @ exn_str e) w0"
          by (auto simp: simps)
        moreover have "api_only w0 (log_error (''Unexpected error on '' @ url @ '': '' @ exn_str e) w0)"
          by (rule api_only_log_error) simp_all
        ultimately show ?thesis
          using first by (blast intro: api_only_trans)
      qed
    next
      case (Inr st)
      show ?thesis
      proof (cases st)
        case (Return v')
        with "1.prems" True t Inr first show ?thesis
          by (auto simp: simps)
      next
        case Continue
        have "api_only w0 w'"
          using "1.IH"(2) [OF True t refl Inr Continue] "1.prems" True t Inr Continue
          by (simp add: simps)
        with first show ?thesis by (rule api_only_trans)
      qed
    qed
  qed
qed

lemma github_api_get_api_only:
  "github_api_get hdrs url params max_retries w = Some (v, w') \<Longrightarrow> api_only w w'"
  by (simp add: github_api_get_def github_api_get_loop_api_only)

lemma get_pr_counts_for_api_only:
  "get_pr_counts_for hdrs org repo prs merged_prs w = Some (x, w') \<Longrightarrow> api_only w w'"
proof (induction prs arbitrary: merged_prs w)
  case Nil
  then show ?case by simp
next
  case (Cons pr prs)
  show ?case
  proof (cases "py_getitem pr ''number''")
    case (Inl e)
    with Cons.prems show ?thesis by simp
  next
    case (Inr number)
    with Cons.prems obtain pr_data w1 where
      g: "github_api_get hdrs (repo_url org repo (''/pulls/'' @ py_str number)) None 5 w
            = Some (pr_data, w1)"
      by (auto simp: Let_def split: option.splits)
    note first = github_api_get_api_only [OF g]
    from Cons.prems Inr g consider "w' = w1"
      | m where "get_pr_counts_for hdrs org repo prs m w1 = Some (x, w')"
      by (auto simp: Let_def split: sum.splits if_splits)
    then show ?thesis
    proof cases
      case 1
      with first show ?thesis by simp
    next
      case 2
      from first Cons.IH [OF 2] show ?thesis
        by (rule api_only_trans)
    qed
  qed
qed

lemma get_pr_counts_loop_api_only:
  "get_pr_counts_loop hdrs org repo pg merged_prs w = Some (x, w') \<Longrightarrow> api_only w w'"
proof (induction "length (net w)" arbitrary: pg merged_prs w rule: less_induct)
  case less
  note simps = get_pr_counts_loop.simps [of hdrs org repo pg merged_prs w]
  from less.prems obtain prs w1 where
    g: "github_api_get hdrs (repo_url org repo ''/pulls'')
          (Some [(''state'', PStr ''closed''), (''per_page'', PInt 100), (''page'', PInt pg)]) 5 w
          = Some (prs, w1)"
    by (auto simp: simps Let_def split: option.splits)
  note first = github_api_get_api_only [OF g]
  from less.prems g consider "w' = w1"
    | items r w2 where "truthy prs"
        "get_pr_counts_for hdrs org repo items merged_prs w1 = Some (r, w2)"
        "w' = w2 \<or> (\<exists>m. get_pr_counts_loop hdrs org repo (pg + 1) m w2 = Some (x, w'))"
    by (auto simp: simps Let_def split: sum.splits if_splits option.splits) blast+
  then show ?case
  proof cases
    case 1
    with first show ?thesis by simp
  next
    case 2
    from first get_pr_counts_for_api_only [OF 2(2)] have second: "api_only w w2"
      by (rule api_only_trans)
    from github_api_get_net_truthy [OF g 2(1)] get_pr_counts_for_net [OF 2(2)]
    have "length (net w2) < length (net w)"
      by simp
    with 2(3) less.hyps have "w' = w2 \<or> api_only w2 w'"
      by blast
    with second show ?thesis
      by (auto intro: api_only_trans)
  qed
qed

lemma count_issues_loop_api_only:
  "count_issues_loop hdrs url state pg count w = Some (x, w') \<Longrightarrow> api_only w w'"
proof (induction "length (net w)" arbitrary: pg count w rule: less_induct)
  case less
  note simps = count_issues_loop.simps [of hdrs url state pg count w]
  from less.prems obtain issues w1 where
    g: "github_api_get hdrs url
          (Some [(''state'', PStr state), (''per_page'', PInt 100), (''page'', PInt pg)]) 5 w
          = Some (issues, w1)"
    by (auto simp: simps Let_def split: option.splits)
  note first = github_api_get_api_only [OF g]
  from less.prems g consider "w' = w1"
    | c where "truthy issues" "count_issues_loop hdrs url state (pg + 1) c w1 = Some (x, w')"
    by (auto simp: simps Let_def split: sum.splits if_splits)
  then show ?case
  proof cases
    case 1
    with first show ?thesis by simp
  next
    case 2
    from github_api_get_net_truthy [OF g 2(1)] 2(2) less.hyps have "api_only w1 w'"
      by blast
    with first show ?thesis
      by (rule api_only_trans)
  qed
qed

lemma get_branches_loop_api_only:
  "get_branches_loop hdrs url pg branches w = Some (x, w') \<Longrightarrow> api_only w w'"
proof (induction "length (net w)" arbitrary: pg branches w rule: less_induct)
  case less
  note simps = get_branches_loop.simps [of hdrs url pg branches w]
  from less.prems obtain data w1 where
    g: "github_api_get hdrs url (Some [(''per_page'', PInt 100), (''page'', PInt pg)]) 5 w
          = Some (data, w1)"
    by (auto simp: simps Let_def split: option.splits)
  note first = github_api_get_api_only [OF g]
  from less.prems g consider "w' = w1"
    | bs where "truthy data" "get_branches_loop hdrs url (pg + 1) bs w1 = Some (x, w')"
    by (auto simp: simps Let_def split: sum.splits if_splits)
  then show ?case
  proof cases
    case 1
    with first show ?thesis by simp
  next
    case 2
    from github_api_get_net_truthy [OF g 2(1)] 2(2) less.hyps have "api_only w1 w'"
      by blast
    with first show ?thesis
      by (rule api_only_trans)
  qed
qed

lemma get_tags_loop_api_only:
  "get_tags_loop hdrs url pg tags w = Some (x, w') \<Longrightarrow> api_only w w'"
proof (induction "length (net w)" arbitrary: pg tags w rule: less_induct)
  case less
  note simps = get_tags_loop.simps [of hdrs url pg tags w]
  from less.prems obtain data w1 where
    g: "github_api_get hdrs url (Some [(''per_page'', PInt 100), (''page'', PInt pg)]) 5 w
          = Some (data, w1)"
    by (auto simp: simps Let_def split: option.splits)
  note first = github_api_get_api_only [OF g]
  from less.prems g consider "w' = w1"
    | ts where "truthy data" "get_tags_loop hdrs url (pg + 1) ts w1 = Some (x, w')"
    by (auto simp: simps Let_def split: sum.splits if_splits)
  then show ?case
  proof cases
    case 1
    with first show ?thesis by simp
  next
    case 2
    from github_api_get_net_truthy [OF g 2(1)] 2(2) less.hyps have "api_only w1 w'"
      by blast
    with first show ?thesis
      by (rule api_only_trans)
  qed
qed

text \<open>A computation \<open>frames\<close> when every run of it is \<open>api_only\<close>.\<close>

definition frames :: "'a py \<Rightarrow> bool" where
  "frames m = (\<forall>w x w'. m w = Some (x, w') \<longrightarrow> api_only w w')"

lemma framesI: "(\<And>w x w'. m w = Some (x, w') \<Longrightarrow> api_only w w') \<Longrightarrow> frames m"
  by (simp add: frames_def)

lemma framesD: "frames m \<Longrightarrow> m w = Some (x, w') \<Longrightarrow> api_only w w'"
  by (simp add: frames_def)

lemma frames_return [simp]: "frames (py_return x)"
  by (simp add: frames_def py_return_def)

lemma frames_lift [simp]: "frames (py_lift r)"
  by (simp add: frames_def py_lift_def)

lemma frames_bind:
  assumes "frames m" and "\<And>y. frames (f y)"
  shows "frames (py_bind m f)"
proof (rule framesI)
  fix w x w'
  assume "py_bind m f w = Some (x, w')"
  then consider e where "m w = Some (Inl e, w')"
    | y w1 where "m w = Some (Inr y, w1)" "f y w1 = Some (x, w')"
    by (auto simp: py_bind_def split: option.splits sum.splits)
  then show "api_only w w'"
  proof cases
    case 1
    with assms(1) show ?thesis by (rule framesD)
  next
    case 2
    from framesD [OF assms(1) 2(1)] framesD [OF assms(2) 2(2)] show ?thesis
      by (rule api_only_trans)
  qed
qed

lemma frames_total:
  assumes "\<And>w x w'. m w = Some (x, w') \<Longrightarrow> api_only w w'"
  shows "frames (py_total m)"
  using assms by (auto simp: frames_def py_total_def split: option.splits)

lemma frames_github_api_get [simp]:
  "frames (py_total (github_api_get hdrs url params max_retries))"
  by (rule frames_total) (rule github_api_get_api_only)

lemma frames_get_pr_counts [simp]: "frames (get_pr_counts hdrs org repo)"
  unfolding get_pr_counts_def Let_def
  by (intro frames_bind frames_github_api_get frames_lift frames_return)
     (auto intro!: framesI get_pr_counts_loop_api_only)

lemma frames_get_issue_counts [simp]: "frames (get_issue_counts hdrs org repo)"
  unfolding get_issue_counts_def Let_def count_issues_def
  by (intro frames_bind frames_github_api_get frames_return)
     (auto intro!: framesI count_issues_loop_api_only)

lemma frames_get_branches [simp]: "frames (get_branches hdrs org repo)"
  unfolding get_branches_def
  by (intro frames_bind frames_return) (auto intro!: framesI get_branches_loop_api_only)

lemma frames_get_tags [simp]: "frames (get_tags hdrs org repo)"
  unfolding get_tags_def
  by (intro frames_bind frames_return) (auto intro!: framesI get_tags_loop_api_only)

lemma frames_get_last_commit [simp]: "frames (get_last_commit hdrs org repo default_branch)"
  unfolding get_last_commit_def Let_def
  by (intro frames_bind frames_github_api_get frames_lift)

subsection \<open>fetch\_repo\_details\_inventory.py\<close>

lemma github_api_get_inv_try_api_only:
  assumes "github_api_get_inv_try hdrs url params w = Some (x, w1)"
  shows "api_only w w1"
proof -
  let ?req = "\<lparr>req_url = url, req_params = params, req_headers = hdrs\<rparr>"
  from assms obtain out where g: "requests_get ?req w = Some (out, answered ?req w)"
    by (cases "requests_get ?req w") (auto simp: github_api_get_inv_try_def dest!: requests_get_Some)
  have a: "api_only w (answered ?req w)"
    by simp
  have "api_only (answered ?req w) w1"
  proof (cases out)
    case (Raised e)
    with assms g show ?thesis
      by (simp add: github_api_get_inv_try_def)
  next
    case (Responded r)
    with assms g show ?thesis
      by (auto simp: github_api_get_inv_try_def time_sleep_def Let_def
            split: sum.splits if_splits)
  qed
  with a show ?thesis
    by (rule api_only_trans)
qed

lemma github_api_get_inv_loop_api_only:
  "github_api_get_inv_loop hdrs url params retries attempt w = Some (x, w') \<Longrightarrow> api_only w w'"
proof (induction hdrs url params retries attempt w rule: github_api_get_inv_loop.induct)
  case (1 hdrs url params retries attempt w)
  note simps = github_api_get_inv_loop.simps [of hdrs url params retries attempt w]
  show ?case
  proof (cases "int attempt < retries")
    case False
    with "1.prems" show ?thesis
      by (auto simp: simps)
  next
    case True
    then obtain y w0 where t: "github_api_get_inv_try hdrs url params w = Some (y, w0)"
      using "1.prems" by (cases "github_api_get_inv_try hdrs url params w") (auto simp: simps)
    then have first: "api_only w w0"
      by (rule github_api_get_inv_try_api_only)
    show ?thesis
    proof (cases y)
      case (Inl e)
      show ?thesis
      proof (cases "is_connection_error e")
        case c: True
        let ?w2 = "print_line (repeat_sign @ '' Network error on attempt ''
                          @ str_int (int attempt + 1) @ '': '' @ exn_str e) w0"
        from "1.prems" True t Inl c have "api_only (advance (2 ^ attempt) ?w2) w'"
          using "1.IH"(1) [OF True t refl Inl c refl refl]
          by (simp add: simps Let_def)
        moreover have "api_only w0 (advance (2 ^ attempt) ?w2)"
          by simp
        ultimately show ?thesis
          using first by (blast intro: api_only_trans)
      next
        case False
        with "1.prems" True t Inl first show ?thesis
          by (auto simp: simps split: if_splits)
      qed
    next
      case (Inr st)
      show ?thesis
      proof (cases st)
        case (Return v')
        with "1.prems" True t Inr first show ?thesis
          by (auto simp: simps)
      next
        case Continue
        have "api_only w0 w'"
          using "1.IH"(2) [OF True t refl Inr Continue] "1.prems" True t Inr Continue
          by (simp add: simps)
        with first show ?thesis by (rule api_only_trans)
      qed
    qed
  qed
qed

lemma frames_github_api_get_inv [simp]: "frames (github_api_get_inv hdrs url params retries)"
  by (rule framesI) (simp add: github_api_get_inv_def github_api_get_inv_loop_api_only)

lemma frames_get_pr_counts_inv [simp]: "frames (get_pr_counts_inv hdrs org repo)"
  unfolding get_pr_counts_inv_def Let_def
  by (intro frames_bind frames_github_api_get_inv frames_lift)

lemma frames_get_issue_counts_inv [simp]: "frames (get_issue_counts_inv hdrs org repo)"
  unfolding get_issue_counts_inv_def Let_def
  by (intro frames_bind frames_github_api_get_inv frames_lift)

lemma frames_get_branches_inv [simp]: "frames (get_branches_inv hdrs org repo)"
  unfolding get_branches_inv_def
  by (intro frames_bind frames_github_api_get_inv frames_lift)

lemma frames_get_tags_inv [simp]: "frames (get_tags_inv hdrs org repo)"
  unfolding get_tags_inv_def
  by (intro frames_bind frames_github_api_get_inv frames_lift)

lemma frames_get_last_commit_inv [simp]: "frames (get_last_commit_inv hdrs org repo default_branch)"
  unfolding get_last_commit_inv_def Let_def
  by (intro frames_bind frames_github_api_get_inv frames_lift)

subsection \<open>The row of one repository\<close>

text \<open>
  \<open>writes R m\<close>: a run of \<open>m\<close> that raises has made API calls only; a run that returns has
  made API calls and then written one row, for which \<open>R\<close> holds.
\<close>

definition writes :: "(row \<Rightarrow> bool) \<Rightarrow> unit py \<Rightarrow> bool" where
  "writes R m =
     (\<forall>w x w'. m w = Some (x, w') \<longrightarrow>
        (case x of
           Inl e \<Rightarrow> api_only w w'
         | Inr u \<Rightarrow> (\<exists>r w1. api_only w w1 \<and> w' = writerow r w1 \<and> R r)))"

lemma writesD_Inl: "writes R m \<Longrightarrow> m w = Some (Inl e, w') \<Longrightarrow> api_only w w'"
  unfolding writes_def by (drule spec [of _ w], drule spec [of _ "Inl e"], drule spec [of _ w']) simp

lemma writesD_Inr:
  "writes R m \<Longrightarrow> m w = Some (Inr u, w') \<Longrightarrow> \<exists>r w1. api_only w w1 \<and> w' = writerow r w1 \<and> R r"
  unfolding writes_def by (drule spec [of _ w], drule spec [of _ "Inr u"], drule spec [of _ w']) simp

lemma writes_bind:
  assumes "frames m" and "\<And>y. writes R (f y)"
  shows "writes R (py_bind m f)"
  unfolding writes_def
proof (intro allI impI)
  fix w x w'
  assume "py_bind m f w = Some (x, w')"
  then consider e where "m w = Some (Inl e, w')" "x = Inl e"
    | y w1 where "m w = Some (Inr y, w1)" "f y w1 = Some (x, w')"
    by (auto simp: py_bind_def split: option.splits sum.splits)
  then show "case x of Inl e \<Rightarrow> api_only w w'
         | Inr u \<Rightarrow> (\<exists>r w1. api_only w w1 \<and> w' = writerow r w1 \<and> R r)"
  proof cases
    case 1
    with framesD [OF assms(1) 1(1)] show ?thesis by simp
  next
    case 2
    note first = framesD [OF assms(1) 2(1)]
    show ?thesis
    proof (cases x)
      case (Inl e)
      with writesD_Inl [OF assms(2)] 2(2) first show ?thesis
        by (auto intro: api_only_trans)
    next
      case (Inr u)
      with writesD_Inr [OF assms(2)] 2(2) obtain r w2 where
        "api_only w1 w2" "w' = writerow r w2" "R r"
        by blast
      with first Inr show ?thesis
        by (auto intro: api_only_trans)
    qed
  qed
qed

lemma writes_lift:
  assumes "\<And>y. r = Inr y \<Longrightarrow> writes R (f y)"
  shows "writes R (py_bind (py_lift r) f)"
proof (cases r)
  case (Inl e)
  then show ?thesis
    by (simp add: writes_def py_bind_def py_lift_def)
next
  case (Inr y)
  from assms [OF this] Inr show ?thesis
    by (simp add: writes_def py_bind_def py_lift_def)
qed

lemma writes_writerow: "R r \<Longrightarrow> writes R (py_do (writerow r))"
  unfolding writes_def py_do_def
  by (auto intro!: exI [of _ r]) (metis api_only_refl)

lemma writes_case_prod: "(\<And>a b. writes R (f a b)) \<Longrightarrow> writes R (case_prod f p)"
  by (cases p) simp

lemma make_row_name:
  "make_row repo a b c d e f g h i = Inr r \<Longrightarrow>
     py_getitem repo ''name'' = Inr name \<Longrightarrow>
     map_of (set_item ''Total Releases'' v r) ''Repo Name'' = Some (Cell name)"
  by (auto simp: make_row_def bind_exn_def split: sum.splits)

lemma make_row_inv_name:
  "make_row_inv repo a b c d e f g h i j = Inr r \<Longrightarrow>
     py_getitem repo ''name'' = Inr name \<Longrightarrow>
     map_of r ''Repo Name'' = Some (Cell name)"
  by (auto simp: make_row_inv_def bind_exn_def split: sum.splits)

lemma writes_process_repo:
  assumes "py_getitem repo ''name'' = Inr name"
  shows "writes (\<lambda>r. map_of r ''Repo Name'' = Some (Cell name)) (process_repo hdrs org repo)"
  unfolding process_repo_def
  by (intro writes_lift writes_bind writes_case_prod writes_writerow
        frames_get_pr_counts frames_get_issue_counts frames_get_branches frames_get_tags
        frames_get_last_commit frames_github_api_get frames_lift)
     (rule make_row_name [OF _ assms])

lemma writes_process_repo_inv:
  assumes "py_getitem repo ''name'' = Inr name"
  shows "writes (\<lambda>r. map_of r ''Repo Name'' = Some (Cell name)) (process_repo_inv hdrs org repo)"
  unfolding process_repo_inv_def
  by (intro writes_lift writes_bind writes_case_prod writes_writerow
        frames_get_pr_counts_inv frames_get_issue_counts_inv frames_get_branches_inv
        frames_get_tags_inv frames_get_last_commit_inv frames_github_api_get_inv frames_lift)
     (rule make_row_inv_name [OF _ assms])

section \<open>The loop over the repositories\<close>

lemma api_only_report: "api_only w w' \<Longrightarrow> report w' = report w"
  by (simp add: api_only_def)

lemma api_only_handler_entries: "api_only w w' \<Longrightarrow> handler_entries w' = handler_entries w"
  by (simp add: api_only_def)

lemma handler_entries_writerow [simp]: "handler_entries (writerow r w) = handler_entries w"
  by (simp add: handler_entries_def writerow_def)

lemma handler_entries_log_error_inv:
  "handler_entries (log_error_inv m w) =
     handler_entries w @ (if prefix ''Error processing '' m then [m] else [])"
  by (simp add: handler_entries_def log_error_inv_def)

lemma report_log_error_inv [simp]: "report (log_error_inv m w) = report w"
  by (simp add: log_error_inv_def)

lemma report_writerow [simp]: "report w = Some rows \<Longrightarrow> report (writerow r w) = Some (rows @ [r])"
  by (simp add: writerow_def)

text \<open>
  A repository is \<open>named\<close> when \<^verbatim>\<open>repo['name']\<close> has a value, which is \<open>repo_name\<close>. The line
  the handler writes for it is \<open>handler_line\<close>.
\<close>

definition named :: "json \<Rightarrow> bool" where
  "named repo = (case py_getitem repo ''name'' of Inl e \<Rightarrow> False | Inr name \<Rightarrow> True)"

definition repo_name :: "json \<Rightarrow> json" where
  "repo_name repo = (case py_getitem repo ''name'' of Inl e \<Rightarrow> JNull | Inr name \<Rightarrow> name)"

definition handler_line :: "json \<Rightarrow> exn \<Rightarrow> string" where
  "handler_line name e = ''Error processing '' @ py_str name @ '': '' @ exn_str e"

text \<open>
  What the aggregation of each repository does in the run of the loop from \<open>w\<close>, in
  order: \<open>None\<close> when it returns, \<open>Some e\<close> when it raises \<open>e\<close>. The worlds are those the loop
  passes through.
\<close>

fun aggregated :: "(string \<times> string) list \<Rightarrow> string \<Rightarrow> json list \<Rightarrow> world \<Rightarrow> exn option list" where
  "aggregated hdrs org [] w = []"
| "aggregated hdrs org (repo # repos) w =
     (case py_getitem repo ''name'' of
        Inl e \<Rightarrow> []
      | Inr name \<Rightarrow>
          (case process_repo hdrs org repo (print_line (''Processing '' @ py_str name @ ''...'') w) of
             None \<Rightarrow> []
           | Some (Inr u, w1) \<Rightarrow> None # aggregated hdrs org repos w1
           | Some (Inl e, w1) \<Rightarrow>
               Some e # aggregated hdrs org repos (log_error (handler_line name e) w1)))"

fun aggregated_inv :: "(string \<times> string) list \<Rightarrow> string \<Rightarrow> json list \<Rightarrow> world \<Rightarrow> exn option list" where
  "aggregated_inv hdrs org [] w = []"
| "aggregated_inv hdrs org (repo # repos) w =
     (case py_getitem repo ''name'' of
        Inl e \<Rightarrow> []
      | Inr name \<Rightarrow>
          (case process_repo_inv hdrs org repo (print_line (''Processing '' @ py_str name @ ''...'') w) of
             None \<Rightarrow> []
           | Some (Inr u, w1) \<Rightarrow> None # aggregated_inv hdrs org repos w1
           | Some (Inl e, w1) \<Rightarrow>
               Some e # aggregated_inv hdrs org repos (log_error_inv (handler_line name e) w1)))"

text \<open>
  The names of the repositories whose aggregation returned, and the lines of the handler
  for those whose aggregation raised, both in the order of the list.
\<close>

fun row_names :: "json list \<Rightarrow> exn option list \<Rightarrow> json list" where
  "row_names (repo # repos) (None # outs) = repo_name repo # row_names repos outs"
| "row_names (repo # repos) (Some e # outs) = row_names repos outs"
| "row_names repos outs = []"

fun handler_lines :: "json list \<Rightarrow> exn option list \<Rightarrow> string list" where
  "handler_lines (repo # repos) (None # outs) = handler_lines repos outs"
| "handler_lines (repo # repos) (Some e # outs) =
     handler_line (repo_name repo) e # handler_lines repos outs"
| "handler_lines repos outs = []"

lemma prefix_handler_line [simp]: "prefix ''Error processing '' (handler_line name e)"
  unfolding handler_line_def by (rule prefixI) simp

lemma main_loop_raises:
  assumes "py_getitem repo ''name'' = Inr name"
    and "process_repo hdrs org repo (print_line (''Processing '' @ py_str name @ ''...'') w)
           = Some (Inl e, w1)"
  shows "main_loop hdrs org (repo # repos) w
           = main_loop hdrs org repos (log_error (handler_line name e) w1)"
    and "report w1 = report w" and "handler_entries w1 = handler_entries w"
    and "handler_entries (log_error (handler_line name e) w1)
           = handler_entries w @ [handler_line name e]"
proof -
  from assms show "main_loop hdrs org (repo # repos) w
           = main_loop hdrs org repos (log_error (handler_line name e) w1)"
    by (simp add: handler_line_def)
  from writesD_Inl [OF writes_process_repo [OF assms(1)] assms(2)]
  have a: "api_only (print_line (''Processing '' @ py_str name @ ''...'') w) w1" .
  from api_only_report [OF a] show "report w1 = report w"
    by simp
  from api_only_handler_entries [OF a] show h: "handler_entries w1 = handler_entries w"
    by simp
  then show "handler_entries (log_error (handler_line name e) w1)
           = handler_entries w @ [handler_line name e]"
    by (simp add: handler_entries_log_error)
qed

lemma main_loop_returns:
  assumes "py_getitem repo ''name'' = Inr name"
    and "process_repo hdrs org repo (print_line (''Processing '' @ py_str name @ ''...'') w)
           = Some (Inr u, w1)"
    and "report w = Some rows"
  shows "main_loop hdrs org (repo # repos) w = main_loop hdrs org repos w1"
    and "\<exists>r. report w1 = Some (rows @ [r]) \<and> map_of r ''Repo Name'' = Some (Cell name)"
    and "handler_entries w1 = handler_entries w"
proof -
  from assms show "main_loop hdrs org (repo # repos) w = main_loop hdrs org repos w1"
    by simp
  from writesD_Inr [OF writes_process_repo [OF assms(1)] assms(2)]
  obtain r w0 where a: "api_only (print_line (''Processing '' @ py_str name @ ''...'') w) w0"
    and w1: "w1 = writerow r w0" and r: "map_of r ''Repo Name'' = Some (Cell name)"
    by blast
  from api_only_report [OF a] assms(3) have "report w0 = Some rows"
    by simp
  with w1 r show "\<exists>r. report w1 = Some (rows @ [r]) \<and> map_of r ''Repo Name'' = Some (Cell name)"
    by simp
  from api_only_handler_entries [OF a] w1 show "handler_entries w1 = handler_entries w"
    by simp
qed

lemma main_loop_rows:
  assumes "\<forall>repo\<in>set repos. named repo" and "report w = Some rows"
    and "main_loop hdrs org repos w = Some (x, w')"
  shows "x = Inr ()
       \<and> length (aggregated hdrs org repos w) = length repos
       \<and> (\<exists>new. report w' = Some (rows @ new)
            \<and> map (\<lambda>r. map_of r ''Repo Name'') new
                = map (\<lambda>n. Some (Cell n)) (row_names repos (aggregated hdrs org repos w)))
       \<and> handler_entries w' = handler_entries w @ handler_lines repos (aggregated hdrs org repos w)"
  using assms
proof (induction repos arbitrary: w rows)
  case Nil
  then show ?case by simp
next
  case (Cons repo repos)
  from Cons.prems(1) obtain name where name: "py_getitem repo ''name'' = Inr name"
    by (auto simp: named_def split: sum.splits)
  then have rn: "repo_name repo = name"
    by (simp add: repo_name_def)
  let ?w0 = "print_line (''Processing '' @ py_str name @ ''...'') w"
  from Cons.prems(3) name obtain res w1 where p: "process_repo hdrs org repo ?w0 = Some (res, w1)"
    by (cases "process_repo hdrs org repo ?w0") auto
  from Cons.prems(1) have named: "\<forall>repo\<in>set repos. named repo"
    by simp
  show ?case
  proof (cases res)
    case (Inl e)
    let ?w2 = "log_error (handler_line name e) w1"
    note step = main_loop_raises [OF name p [unfolded Inl]]
    from step(2) Cons.prems(2) have rep: "report ?w2 = Some rows"
      by simp
    from Cons.prems(3) step(1) have run: "main_loop hdrs org repos ?w2 = Some (x, w')"
      by simp
    have agg: "aggregated hdrs org (repo # repos) w = Some e # aggregated hdrs org repos ?w2"
      using name p Inl by simp
    from Cons.IH [OF named rep run] step(4) show ?thesis
      by (simp add: agg rn del: aggregated.simps)
  next
    case (Inr u)
    note step = main_loop_returns [OF name p [unfolded Inr] Cons.prems(2)]
    from step(2) obtain r where rep: "report w1 = Some ((rows @ [r]))"
      and r: "map_of r ''Repo Name'' = Some (Cell name)"
      by blast
    from Cons.prems(3) step(1) have run: "main_loop hdrs org repos w1 = Some (x, w')"
      by simp
    have agg: "aggregated hdrs org (repo # repos) w = None # aggregated hdrs org repos w1"
      using name p Inr by simp
    from Cons.IH [OF named rep run] obtain new where
      new: "report w' = Some ((rows @ [r]) @ new)"
        "map (\<lambda>r. map_of r ''Repo Name'') new
           = map (\<lambda>n. Some (Cell n)) (row_names repos (aggregated hdrs org repos w1))"
      and rest: "x = Inr ()" "length (aggregated hdrs org repos w1) = length repos"
        "handler_entries w' = handler_entries w1 @ handler_lines repos (aggregated hdrs org repos w1)"
      by blast
    from new r have "report w' = Some (rows @ (r # new))
        \<and> map (\<lambda>r. map_of r ''Repo Name'') (r # new)
            = map (\<lambda>n. Some (Cell n)) (row_names (repo # repos) (aggregated hdrs org (repo # repos) w))"
      by (simp add: agg rn del: aggregated.simps)
    then have "\<exists>new. report w' = Some (rows @ new)
        \<and> map (\<lambda>r. map_of r ''Repo Name'') new
            = map (\<lambda>n. Some (Cell n)) (row_names (repo # repos) (aggregated hdrs org (repo # repos) w))"
      by blast
    with rest step(3) show ?thesis
      by (simp add: agg del: aggregated.simps)
  qed
qed

lemma main_inv_loop_raises:
  assumes "py_getitem repo ''name'' = Inr name"
    and "process_repo_inv hdrs org repo (print_line (''Processing '' @ py_str name @ ''...'') w)
           = Some (Inl e, w1)"
  shows "main_inv_loop hdrs org (repo # repos) w
           = main_inv_loop hdrs org repos (log_error_inv (handler_line name e) w1)"
    and "report w1 = report w" and "handler_entries w1 = handler_entries w"
    and "handler_entries (log_error_inv (handler_line name e) w1)
           = handler_entries w @ [handler_line name e]"
proof -
  from assms show "main_inv_loop hdrs org (repo # repos) w
           = main_inv_loop hdrs org repos (log_error_inv (handler_line name e) w1)"
    by (simp add: handler_line_def)
  from writesD_Inl [OF writes_process_repo_inv [OF assms(1)] assms(2)]
  have a: "api_only (print_line (''Processing '' @ py_str name @ ''...'') w) w1" .
  from api_only_report [OF a] show "report w1 = report w"
    by simp
  from api_only_handler_entries [OF a] show h: "handler_entries w1 = handler_entries w"
    by simp
  then show "handler_entries (log_error_inv (handler_line name e) w1)
           = handler_entries w @ [handler_line name e]"
    by (simp add: handler_entries_log_error_inv)
qed

lemma main_inv_loop_returns:
  assumes "py_getitem repo ''name'' = Inr name"
    and "process_repo_inv hdrs org repo (print_line (''Processing '' @ py_str name @ ''...'') w)
           = Some (Inr u, w1)"
    and "report w = Some rows"
  shows "main_inv_loop hdrs org (repo # repos) w = main_inv_loop hdrs org repos w1"
    and "\<exists>r. report w1 = Some (rows @ [r]) \<and> map_of r ''Repo Name'' = Some (Cell name)"
    and "handler_entries w1 = handler_entries w"
proof -
  from assms show "main_inv_loop hdrs org (repo # repos) w = main_inv_loop hdrs org repos w1"
    by simp
  from writesD_Inr [OF writes_process_repo_inv [OF assms(1)] assms(2)]
  obtain r w0 where a: "api_only (print_line (''Processing '' @ py_str name @ ''...'') w) w0"
    and w1: "w1 = writerow r w0" and r: "map_of r ''Repo Name'' = Some (Cell name)"
    by blast
  from api_only_report [OF a] assms(3) have "report w0 = Some rows"
    by simp
  with w1 r show "\<exists>r. report w1 = Some (rows @ [r]) \<and> map_of r ''Repo Name'' = Some (Cell name)"
    by simp
  from api_only_handler_entries [OF a] w1 show "handler_entries w1 = handler_entries w"
    by simp
qed

lemma main_inv_loop_rows:
  assumes "\<forall>repo\<in>set repos. named repo" and "report w = Some rows"
    and "main_inv_loop hdrs org repos w = Some (x, w')"
  shows "x = Inr ()
       \<and> length (aggregated_inv hdrs org repos w) = length repos
       \<and> (\<exists>new. report w' = Some (rows @ new)
            \<and> map (\<lambda>r. map_of r ''Repo Name'') new
                = map (\<lambda>n. Some (Cell n)) (row_names repos (aggregated_inv hdrs org repos w)))
       \<and> handler_entries w' = handler_entries w @ handler_lines repos (aggregated_inv hdrs org repos w)"
  using assms
proof (induction repos arbitrary: w rows)
  case Nil
  then show ?case by simp
next
  case (Cons repo repos)
  from Cons.prems(1) obtain name where name: "py_getitem repo ''name'' = Inr name"
    by (auto simp: named_def split: sum.splits)
  then have rn: "repo_name repo = name"
    by (simp add: repo_name_def)
  let ?w0 = "print_line (''Processing '' @ py_str name @ ''...'') w"
  from Cons.prems(3) name obtain res w1 where p: "process_repo_inv hdrs org repo ?w0 = Some (res, w1)"
    by (cases "process_repo_inv hdrs org repo ?w0") auto
  from Cons.prems(1) have named: "\<forall>repo\<in>set repos. named repo"
    by simp
  show ?case
  proof (cases res)
    case (Inl e)
    let ?w2 = "log_error_inv (handler_line name e) w1"
    note step = main_inv_loop_raises [OF name p [unfolded Inl]]
    from step(2) Cons.prems(2) have rep: "report ?w2 = Some rows"
      by simp
    from Cons.prems(3) step(1) have run: "main_inv_loop hdrs org repos ?w2 = Some (x, w')"
      by simp
    have agg: "aggregated_inv hdrs org (repo # repos) w = Some e # aggregated_inv hdrs org repos ?w2"
      using name p Inl by simp
    from Cons.IH [OF named rep run] step(4) show ?thesis
      by (simp add: agg rn del: aggregated_inv.simps)
  next
    case (Inr u)
    note step = main_inv_loop_returns [OF name p [unfolded Inr] Cons.prems(2)]
    from step(2) obtain r where rep: "report w1 = Some ((rows @ [r]))"
      and r: "map_of r ''Repo Name'' = Some (Cell name)"
      by blast
    from Cons.prems(3) step(1) have run: "main_inv_loop hdrs org repos w1 = Some (x, w')"
      by simp
    have agg: "aggregated_inv hdrs org (repo # repos) w = None # aggregated_inv hdrs org repos w1"
      using name p Inr by simp
    from Cons.IH [OF named rep run] obtain new where
      new: "report w' = Some ((rows @ [r]) @ new)"
        "map (\<lambda>r. map_of r ''Repo Name'') new
           = map (\<lambda>n. Some (Cell n)) (row_names repos (aggregated_inv hdrs org repos w1))"
      and rest: "x = Inr ()" "length (aggregated_inv hdrs org repos w1) = length repos"
        "handler_entries w' = handler_entries w1 @ handler_lines repos (aggregated_inv hdrs org repos w1)"
      by blast
    from new r have "report w' = Some (rows @ (r # new))
        \<and> map (\<lambda>r. map_of r ''Repo Name'') (r # new)
            = map (\<lambda>n. Some (Cell n)) (row_names (repo # repos) (aggregated_inv hdrs org (repo # repos) w))"
      by (simp add: agg rn del: aggregated_inv.simps)
    then have "\<exists>new. report w' = Some (rows @ new)
        \<and> map (\<lambda>r. map_of r ''Repo Name'') new
            = map (\<lambda>n. Some (Cell n)) (row_names (repo # repos) (aggregated_inv hdrs org (repo # repos) w))"
      by blast
    with rest step(3) show ?thesis
      by (simp add: agg del: aggregated_inv.simps)
  qed
qed

end
